theory Spec2Isabelle
  imports Main
begin

section \<open>Grammar elements (grammar.py)\<close>

text \<open>
  \<^verbatim>\<open>LookaheadRule = collections.namedtuple("LookaheadRule", "set positive")\<close>.
  The field \<^verbatim>\<open>set\<close> is a frozen set of terminals; it is called \<open>rule_set\<close> here
  because \<open>set\<close> is the list-to-set function of HOL.
\<close>

datatype 't LookaheadRule = LookaheadRule (rule_set: "'t set") (positive: bool)

text \<open>
  A lookahead restriction is \<^verbatim>\<open>None\<close> or a \<^verbatim>\<open>LookaheadRule\<close>:
  \<^verbatim>\<open>
  def lookahead_contains(rule, t):
      return (rule is None
              or (t in rule.set if rule.positive
                  else t not in rule.set))
  \<close>
\<close>

fun lookahead_contains :: "'t LookaheadRule option \<Rightarrow> 't \<Rightarrow> bool" where
  "lookahead_contains None t = True"
| "lookahead_contains (Some rule) t =
     (if positive rule then t \<in> rule_set rule else t \<notin> rule_set rule)"

text \<open>
  \<^verbatim>\<open>
  def lookahead_intersect(a, b):
      if a is None:
          return b
      elif b is None:
          return a
      elif a.positive:
          if b.positive:
              return LookaheadRule(a.set & b.set, True)
          else:
              return LookaheadRule(a.set - b.set, True)
      else:
          if b.positive:
              return LookaheadRule(b.set - a.set, True)
          else:
              return LookaheadRule(a.set | b.set, False)
  \<close>
\<close>

fun lookahead_intersect ::
  "'t LookaheadRule option \<Rightarrow> 't LookaheadRule option \<Rightarrow> 't LookaheadRule option" where
  "lookahead_intersect None b = b"
| "lookahead_intersect (Some a) None = Some a"
| "lookahead_intersect (Some a) (Some b) =
     (if positive a then
        (if positive b then Some (LookaheadRule (rule_set a \<inter> rule_set b) True)
         else Some (LookaheadRule (rule_set a - rule_set b) True))
      else
        (if positive b then Some (LookaheadRule (rule_set b - rule_set a) True)
         else Some (LookaheadRule (rule_set a \<union> rule_set b) False)))"

text \<open>
  An argument of a nonterminal application is a boolean or \<^verbatim>\<open>Var(name)\<close>, the
  run-time value of a parameter.
\<close>

datatype arg_value = ArgBool bool | Var string

text \<open>
  \<^verbatim>\<open>Nt(name, args)\<close>: the name is a \<^verbatim>\<open>str\<close> or an \<^verbatim>\<open>InitNt(goal)\<close>
  (\<^verbatim>\<open>assert isinstance(name, (str, InitNt))\<close>), the arguments are pairs of a
  parameter name and its value. Equality is equality of name and arguments.
\<close>

datatype Nt = Nt (Nt_name: nt_name) (Nt_args: "(string \<times> arg_value) list")
  and nt_name = Name string | InitNt (goal: Nt)

text \<open>
  A nonterminal of the automaton's tables (a key of a state's \<^verbatim>\<open>ctn_row\<close>) is an
  \<^verbatim>\<open>Nt\<close> or a plain \<^verbatim>\<open>str\<close>.
\<close>

datatype ident = IdNt Nt | IdStr string

text \<open>
  The elements of a production body. A Python \<^verbatim>\<open>str\<close> is a terminal or the name of
  a nonterminal; \<^verbatim>\<open>ErrorToken\<close> is the singleton of grammar.py. The desugarer of
  parse\_esgrammar.py also builds the tuple \<^verbatim>\<open>("no-LineTerminator-here",)\<close> and
  \<^verbatim>\<open>grammar.ErrorSymbol(code)\<close>.

  Modelled from the spec: \<^verbatim>\<open>ErrorSymbol\<close> is not declared in grammar.py; it is the
  "synthetic error-recovery marker carrying a recovery-code tag" of the specification,
  a value holding its code and equal only to a marker with the same code.
\<close>

datatype element =
    Str string
  | ENt Nt
  | Optional (inner: element)
  | Lookahead "string LookaheadRule"
  | ErrorToken
  | ErrorSymbol string
  | NoLineTerminatorHere

text \<open>
  \<^verbatim>\<open>
  def is_concrete_element(e):
      return (not isinstance(e, LookaheadRule)
              and e is not ErrorToken)
  \<close>
\<close>

fun is_concrete_element :: "element \<Rightarrow> bool" where
  "is_concrete_element (Lookahead r) = False"
| "is_concrete_element ErrorToken = False"
| "is_concrete_element e = True"

text \<open>
  Reduce expressions: an \<^verbatim>\<open>int\<close> (a stack reference), \<^verbatim>\<open>CallMethod(method, args)\<close>,
  \<^verbatim>\<open>None\<close>, \<^verbatim>\<open>Some(inner)\<close>, and the special action \<^verbatim>\<open>'accept'\<close>.
\<close>

datatype expr =
    Index int
  | CallMethod (call_method: string) (call_args: "expr list")
  | ExprNone
  | SomeExpr expr
  | Accept

text \<open>
  \<^verbatim>\<open>Production(body, action, condition=None)\<close>; the condition is \<^verbatim>\<open>None\<close> or a pair
  \<^verbatim>\<open>(param, value)\<close>. The class declares
  \<^verbatim>\<open>__slots__ = ['body', 'action', 'condition']\<close>: a production has these three
  attributes and no other.
\<close>

record Production =
  body :: "element list"
  action :: expr
  condition :: "(string \<times> bool) option"

text \<open>
  A right-hand side in a raw grammar is a \<^verbatim>\<open>Production\<close> or a bare list of elements.
\<close>

datatype rhs = Bare "element list" | Prod Production

text \<open>
  The exceptions the modelled code raises; a string is the message's template.
  \<open>AmbiguousIdentifierSpelling a b cc\<close> is the \<^verbatim>\<open>ValueError\<close> of
  \<^verbatim>\<open>check_camel_case\<close>, whose message
  \<^verbatim>\<open>"{} and {} have the same camel-case spelling ({})".format(seen[cc], nt, cc)\<close>
  names the two nonterminals and their common spelling.
\<close>

datatype error =
    ValueError string
  | TypeError string
  | AssertionError
  | KeyError
  | StopIteration
  | AttributeError
  | AmbiguousIdentifierSpelling ident ident string




section \<open>The desugarer of the annotated notation (parse\_esgrammar.py)\<close>

text \<open>\<^verbatim>\<open>s.endswith(w)\<close>.\<close>

definition endswith :: "string \<Rightarrow> string \<Rightarrow> bool" where
  "endswith s w = (length w \<le> length s \<and> drop (length s - length w) s = w)"

text \<open>
  \<^verbatim>\<open>re.search(w + '$', s) is not None\<close> for a literal \<open>w\<close>: without the MULTILINE
  flag, \<^verbatim>\<open>$\<close> matches at the end of the string and just before a newline that ends
  the string.
\<close>

definition search_end :: "string \<Rightarrow> string \<Rightarrow> bool" where
  "search_end w s = (endswith s w \<or> endswith s (w @ [CHR 0x0A]))"

text \<open>\<^verbatim>\<open>re.search('^' + w + '$', s) is not None\<close> for a literal \<open>w\<close>.\<close>

definition search_whole :: "string \<Rightarrow> string \<Rightarrow> bool" where
  "search_whole w s = (s = w \<or> s = w @ [CHR 0x0A])"

text \<open>
  \<^verbatim>\<open>
  PRODUCTION_GROUPS = [
      r'(Expression|^(Array|Object)?Literal)$',
      r'(Statement|Declaration|^StatementListItem|^ModuleItem)$',
      r'Method(Definition)?$'
  ]
  \<close>
  Each group is modelled by the predicate \<^verbatim>\<open>re.search(group, s) is not None\<close>.
\<close>

definition group_expression :: "string \<Rightarrow> bool" where
  "group_expression s =
     (search_end ''Expression'' s \<or> search_whole ''Literal'' s
      \<or> search_whole ''ArrayLiteral'' s \<or> search_whole ''ObjectLiteral'' s)"

definition group_statement :: "string \<Rightarrow> bool" where
  "group_statement s =
     (search_end ''Statement'' s \<or> search_end ''Declaration'' s
      \<or> search_whole ''StatementListItem'' s \<or> search_whole ''ModuleItem'' s)"

definition group_method :: "string \<Rightarrow> bool" where
  "group_method s = (search_end ''Method'' s \<or> search_end ''MethodDefinition'' s)"

definition PRODUCTION_GROUPS :: "(string \<Rightarrow> bool) list" where
  "PRODUCTION_GROUPS = [group_expression, group_statement, group_method]"

text \<open>
  The subject of the second \<^verbatim>\<open>re.search\<close> of \<^verbatim>\<open>is_matched_pair\<close>: the name of an
  \<^verbatim>\<open>Nt\<close>, or the element itself. \<^verbatim>\<open>re.search\<close> raises \<^verbatim>\<open>TypeError\<close> on anything
  that is not a string (\<open>None\<close> here).
\<close>

fun search_subject :: "element \<Rightarrow> string option" where
  "search_subject (ENt (Nt (Name s) as)) = Some s"
| "search_subject (Str s) = Some s"
| "search_subject e = None"

text \<open>
  \<^verbatim>\<open>
  def is_matched_pair(self, lhs_name, rhs_element):
      if isinstance(rhs_element, grammar.Nt):
          rhs_element = rhs_element.name
      for group in PRODUCTION_GROUPS:
          if (re.search(group, lhs_name) is not None
                  and re.search(group, rhs_element) is not None):
              return True
      return False
  \<close>
  The second search runs only when the first one matched.
\<close>

fun matched_in :: "(string \<Rightarrow> bool) list \<Rightarrow> string \<Rightarrow> string option \<Rightarrow> error + bool" where
  "matched_in [] lhs_name subject = Inr False"
| "matched_in (grp # groups) lhs_name subject =
     (if grp lhs_name then
        (case subject of
           None \<Rightarrow> Inl (TypeError ''expected string or bytes-like object'')
         | Some s \<Rightarrow> if grp s then Inr True else matched_in groups lhs_name subject)
      else matched_in groups lhs_name subject)"

definition is_matched_pair :: "string \<Rightarrow> element \<Rightarrow> error + bool" where
  "is_matched_pair lhs_name rhs_element =
     matched_in PRODUCTION_GROUPS lhs_name (search_subject rhs_element)"

text \<open>\<^verbatim>\<open>str(n)\<close> for a natural number: its decimal digits.\<close>

definition digit_char :: "nat \<Rightarrow> char" where
  "digit_char d = ''0123456789'' ! d"

fun str_nat :: "nat \<Rightarrow> string" where
  "str_nat n = (if n < 10 then [digit_char n] else str_nat (n div 10) @ [digit_char (n mod 10)])"

declare str_nat.simps [simp del]

text \<open>
  The left-hand side handed to the builder is the tuple \<^verbatim>\<open>(name, params)\<close> of
  \<^verbatim>\<open>nt_lhs_no_params\<close> and \<^verbatim>\<open>nt_lhs_with_params\<close>, so \<^verbatim>\<open>isinstance(lhs, tuple)\<close>
  holds and \<^verbatim>\<open>lhs[0]\<close> is the name.
  \<^verbatim>\<open>
  def default_reducer(self, lhs, i, body, is_sole_production):
      if isinstance(lhs, tuple):
          nt_name = lhs[0]
      else:
          nt_name = lhs
      nargs = sum(1 for e in body if grammar.is_concrete_element(e))
      if (len(body) == 1
              and nargs == 1
              and self.is_matched_pair(nt_name, body[0])):
          return 0
      else:
          if is_sole_production:
              method_name = nt_name
          else:
              method_name = '{} {}'.format(nt_name, i)
          return grammar.CallMethod(method_name, tuple(range(nargs)))
  \<close>
\<close>

type_synonym lhs = "string \<times> string list"

definition method_name_of :: "string \<Rightarrow> nat \<Rightarrow> bool \<Rightarrow> string" where
  "method_name_of nt_name i is_sole_production =
     (if is_sole_production then nt_name else nt_name @ '' '' @ str_nat i)"

definition default_reducer :: "lhs \<Rightarrow> nat \<Rightarrow> element list \<Rightarrow> bool \<Rightarrow> error + expr" where
  "default_reducer lhs i body' is_sole_production =
     (let nt_name = fst lhs;
          nargs = length (filter is_concrete_element body');
          call = CallMethod (method_name_of nt_name i is_sole_production)
                   (map (\<lambda>k. Index (int k)) [0..<nargs])
      in if length body' = 1 \<and> nargs = 1 then
           (case is_matched_pair nt_name (hd body') of
              Inl err \<Rightarrow> Inl err
            | Inr True \<Rightarrow> Inr (Index 0)
            | Inr False \<Rightarrow> Inr call)
         else Inr call)"









text \<open>
  The definition of a nonterminal in a raw grammar, and the third component of a triple
  handed to \<^verbatim>\<open>finish_grammar\<close>, is an \<^verbatim>\<open>NtDef\<close> or a plain list of right-hand
  sides.
\<close>

datatype 'd nt_value = NtDef 'd | RhsList "rhs list"

text \<open>
  \<^verbatim>\<open>
  nt_grammars = {}
  for nt_name, eq, _ in nt_defs:
      if nt_name in nt_grammars:
          raise ValueError("duplicate definitions for nonterminal {!r}".format(nt_name))
      nt_grammars[nt_name] = eq
  \<close>
\<close>

fun nt_grammars_of ::
  "(string \<times> string \<times> 'v) list \<Rightarrow> (string \<rightharpoonup> string) \<Rightarrow> error + (string \<rightharpoonup> string)" where
  "nt_grammars_of [] nt_grammars = Inr nt_grammars"
| "nt_grammars_of ((nt_name, eq, v) # rest) nt_grammars =
     (if nt_name \<in> dom nt_grammars
      then Inl (ValueError ''duplicate definitions for nonterminal {!r}'')
      else nt_grammars_of rest (nt_grammars(nt_name \<mapsto> eq)))"

text \<open>
  \<^verbatim>\<open>nt_grammars[goal] for goal in goals\<close>: a goal that has no definition raises
  \<^verbatim>\<open>KeyError\<close>.
\<close>

fun goal_grammars :: "(string \<rightharpoonup> string) \<Rightarrow> string list \<Rightarrow> error + string list" where
  "goal_grammars nt_grammars [] = Inr []"
| "goal_grammars nt_grammars (g # goals) =
     (case nt_grammars g of
        None \<Rightarrow> Inl KeyError
      | Some eq \<Rightarrow>
          (case goal_grammars nt_grammars goals of
             Inl err \<Rightarrow> Inl err
           | Inr eqs \<Rightarrow> Inr (eq # eqs)))"

text \<open>
  \<^verbatim>\<open>
  selected_grammars = set(nt_grammars[goal] for goal in goals)
  assert len(selected_grammars) != 0
  if len(selected_grammars) > 1:
      raise ValueError("all goal nonterminals must be part of the same grammar; ...")
  [selected_grammar] = selected_grammars
  \<close>
  The set is represented by the list of its distinct members.
\<close>

definition MixedGrammarGoals :: error where
  "MixedGrammarGoals = ValueError
     ''all goal nonterminals must be part of the same grammar; got {!r} (matching these grammars: {!r})''"

definition select_grammar :: "(string \<rightharpoonup> string) \<Rightarrow> string list \<Rightarrow> error + string" where
  "select_grammar nt_grammars goals =
     (case goal_grammars nt_grammars goals of
        Inl err \<Rightarrow> Inl err
      | Inr eqs \<Rightarrow>
          (case remdups eqs of
             [] \<Rightarrow> Inl AssertionError
           | [selected_grammar] \<Rightarrow> Inr selected_grammar
           | _ \<Rightarrow> Inl MixedGrammarGoals))"

text \<open>
  \<^verbatim>\<open>
  def hack_production(p):
      for i, e in enumerate(p.body):
          if isinstance(e, str) and e[:1] == "`":
              if len(e) < 3 or e[-1:] != "`":
                  raise ValueError("Unrecognized grammar symbol: {!r} (in {!r})".format(e, p))
              p[i] = token = e[1:-1]
              terminal_set.add(token)
  \<close>
  A \<^verbatim>\<open>Production\<close> has no item assignment, so \<^verbatim>\<open>p[i] = ...\<close> raises
  \<^verbatim>\<open>TypeError\<close> before anything is added to \<^verbatim>\<open>terminal_set\<close>: the function returns
  only for a body without a backquoted string, and \<^verbatim>\<open>terminal_set\<close> stays empty.
\<close>

fun hack_production_body :: "element list \<Rightarrow> error + unit" where
  "hack_production_body [] = Inr ()"
| "hack_production_body (Str e # rest) =
     (if take 1 e = [CHR 0x60] then
        (if length e < 3 \<or> drop (length e - 1) e \<noteq> [CHR 0x60]
         then Inl (ValueError ''Unrecognized grammar symbol: {!r} (in {!r})'')
         else Inl (TypeError ''object does not support item assignment''))
      else hack_production_body rest)"
| "hack_production_body (e # rest) = hack_production_body rest"

fun hack_productions :: "rhs list \<Rightarrow> error + unit" where
  "hack_productions [] = Inr ()"
| "hack_productions (Bare b # ps) =
     Inl (ValueError ''invalid grammar: ifdef in non-function-call context'')"
| "hack_productions (Prod p # ps) =
     (case hack_production_body (body p) of
        Inl err \<Rightarrow> Inl err
      | Inr u \<Rightarrow> hack_productions ps)"

text \<open>
  The second loop of \<^verbatim>\<open>finish_grammar\<close>, with the dictionary \<^verbatim>\<open>nonterminals\<close> (in
  insertion order) and the set \<^verbatim>\<open>variable_terminals\<close> built so far. \<open>selected\<close> is
  \<open>None\<close> when \<^verbatim>\<open>single_grammar\<close> is false, where \<^verbatim>\<open>selected_grammar\<close> is never read.
  A definition of another grammar is skipped (\<^verbatim>\<open>continue\<close>) only under the inner
  \<^verbatim>\<open>if\<close>; otherwise control falls through to the rest of the loop body.
  \<^verbatim>\<open>
  for nt_name, eq, rhs_list_or_lambda in nt_defs:
      if single_grammar and eq != selected_grammar:
          if selected_grammar == ':':
              # Is a lexical or sub-lexical construct
              variable_terminals.add(nt_name)
              continue
      if isinstance(rhs_list_or_lambda, grammar.NtDef):
          nonterminals[nt_name] = rhs_list_or_lambda
      else:
          rhs_list = rhs_list_or_lambda
          for p in rhs_list:
              if not isinstance(p, grammar.Production):
                  raise ValueError("invalid grammar: ifdef in non-function-call context")
              hack_production(p)
          if nt_name in nonterminals:
              raise ValueError("unsupported: multiple definitions for nt " + nt_name)
          nonterminals[nt_name] = rhs_list
  \<close>
\<close>

fun dict_set :: "('k \<times> 'v) list \<Rightarrow> 'k \<Rightarrow> 'v \<Rightarrow> ('k \<times> 'v) list" where
  "dict_set [] k v = [(k, v)]"
| "dict_set ((k', v') # rest) k v =
     (if k' = k then (k, v) # rest else (k', v') # dict_set rest k v)"

fun collect_nonterminals ::
  "string option \<Rightarrow> (string \<times> string \<times> 'd nt_value) list \<Rightarrow>
   (string \<times> 'd nt_value) list \<Rightarrow> string set \<Rightarrow>
   error + ((string \<times> 'd nt_value) list \<times> string set)" where
  "collect_nonterminals selected [] nonterminals variable_terminals =
     Inr (nonterminals, variable_terminals)"
| "collect_nonterminals selected ((nt_name, eq, rhs_list_or_lambda) # rest)
       nonterminals variable_terminals =
     (if (case selected of
            None \<Rightarrow> False
          | Some selected_grammar \<Rightarrow> eq \<noteq> selected_grammar \<and> selected_grammar = '':'')
      then
        collect_nonterminals selected rest nonterminals (insert nt_name variable_terminals)
      else
        (case rhs_list_or_lambda of
           NtDef d \<Rightarrow>
             collect_nonterminals selected rest
               (dict_set nonterminals nt_name rhs_list_or_lambda) variable_terminals
         | RhsList rhs_list \<Rightarrow>
             (case hack_productions rhs_list of
                Inl err \<Rightarrow> Inl err
              | Inr u \<Rightarrow>
                  if nt_name \<in> fst ` set nonterminals
                  then Inl (ValueError ''unsupported: multiple definitions for nt '')
                  else collect_nonterminals selected rest
                         (dict_set nonterminals nt_name rhs_list_or_lambda)
                         variable_terminals)))"

text \<open>
  \<^verbatim>\<open>
  def finish_grammar(nt_defs, goals, synthetic_terminals, single_grammar = True):
      ...
      goals = list(goals)
      if len(goals) == 0:
          raise ValueError("no goal nonterminals specified")
      if single_grammar:
          ...
      terminal_set = set()
      ...
      for t in terminal_set:
          if t in nonterminals:
              raise ValueError(...)
      return grammar.Grammar(
          nonterminals,
          goal_nts=goals,
          variable_terminals=variable_terminals,
          synthetic_terminals=synthetic_terminals)
  \<close>
  The constructor called in the last step takes a keyword \<^verbatim>\<open>synthetic_terminals\<close> that
  \<^verbatim>\<open>Grammar.__init__\<close> of grammar.py does not have; it is the parameter \<open>Grammar'\<close>
  here. The last loop does nothing, \<^verbatim>\<open>terminal_set\<close> being empty.
\<close>

definition finish_grammar ::
  "((string \<times> 'd nt_value) list \<Rightarrow> string list \<Rightarrow> string set \<Rightarrow> 's \<Rightarrow> error + 'g) \<Rightarrow>
   (string \<times> string \<times> 'd nt_value) list \<Rightarrow> string list \<Rightarrow> 's \<Rightarrow> bool \<Rightarrow> error + 'g" where
  "finish_grammar Grammar' nt_defs goals synthetic_terminals single_grammar =
     (case nt_grammars_of nt_defs Map.empty of
        Inl err \<Rightarrow> Inl err
      | Inr nt_grammars \<Rightarrow>
          if length goals = 0 then Inl (ValueError ''no goal nonterminals specified'')
          else
            (case (if single_grammar
                   then (case select_grammar nt_grammars goals of
                           Inl err \<Rightarrow> Inl err
                         | Inr selected_grammar \<Rightarrow> Inr (Some selected_grammar))
                   else Inr None) of
               Inl err \<Rightarrow> Inl err
             | Inr selected \<Rightarrow>
                 (case collect_nonterminals selected nt_defs [] {} of
                    Inl err \<Rightarrow> Inl err
                  | Inr (nonterminals, variable_terminals) \<Rightarrow>
                      Grammar' nonterminals goals variable_terminals synthetic_terminals)))"

section \<open>The static backend (emit.py)\<close>

text \<open>
  The character classes of the regular expressions and of the string methods, on
  ASCII letters and digits.
\<close>

definition is_upper :: "char \<Rightarrow> bool" where
  "is_upper c = (c \<in> set ''ABCDEFGHIJKLMNOPQRSTUVWXYZ'')"

definition is_lower :: "char \<Rightarrow> bool" where
  "is_lower c = (c \<in> set ''abcdefghijklmnopqrstuvwxyz'')"

definition is_digit :: "char \<Rightarrow> bool" where
  "is_digit c = (c \<in> set ''0123456789'')"

definition lower_char :: "char \<Rightarrow> char" where
  "lower_char c =
     (case map_of (zip ''ABCDEFGHIJKLMNOPQRSTUVWXYZ'' ''abcdefghijklmnopqrstuvwxyz'') c of
        Some l \<Rightarrow> l | None \<Rightarrow> c)"

definition upper_char :: "char \<Rightarrow> char" where
  "upper_char c =
     (case map_of (zip ''abcdefghijklmnopqrstuvwxyz'' ''ABCDEFGHIJKLMNOPQRSTUVWXYZ'') c of
        Some u \<Rightarrow> u | None \<Rightarrow> c)"

text \<open>
  \<^verbatim>\<open>re.sub('(.)([A-Z][a-z]+)', r'\1_\2', ident)\<close>: scanning from the left, a match
  takes one character other than a newline, one upper-case letter and the longest run
  of at least one lower-case letter; an underscore is put after the first character,
  and the scan goes on after the match. Where nothing matches, the character is copied.
\<close>

function sub_words :: "string \<Rightarrow> string" where
  "sub_words (c1 # c2 # c3 # rest) =
     (if c1 \<noteq> CHR 0x0A \<and> is_upper c2 \<and> is_lower c3
      then c1 # CHR ''_'' # c2 # c3 # takeWhile is_lower rest
             @ sub_words (dropWhile is_lower rest)
      else c1 # sub_words (c2 # c3 # rest))"
| "sub_words [c1, c2] = [c1, c2]"
| "sub_words [c1] = [c1]"
| "sub_words [] = []"
  by pat_completeness auto
termination
  apply (relation "measure length")
    apply simp
  subgoal for c1 c2 c3 rest
    using length_dropWhile_le [of is_lower rest] by simp
  apply simp
  done

text \<open>
  \<^verbatim>\<open>re.sub('([a-z0-9])([A-Z])', r'\1_\2', s1)\<close>: an underscore between a lower-case
  letter or digit and an upper-case letter that follows it.
\<close>

fun sub_boundaries :: "string \<Rightarrow> string" where
  "sub_boundaries (c1 # c2 # rest) =
     (if (is_lower c1 \<or> is_digit c1) \<and> is_upper c2
      then c1 # CHR ''_'' # c2 # sub_boundaries rest
      else c1 # sub_boundaries (c2 # rest))"
| "sub_boundaries cs = cs"

text \<open>
  \<^verbatim>\<open>
  def to_snek_case(self, ident):
      s1 = re.sub('(.)([A-Z][a-z]+)', r'\1_\2', ident)
      return re.sub('([a-z0-9])([A-Z])', r'\1_\2', s1).lower()
  \<close>
\<close>

definition to_snek_case :: "string \<Rightarrow> string" where
  "to_snek_case ident = map lower_char (sub_boundaries (sub_words ident))"

text \<open>\<^verbatim>\<open>ident.split('_')\<close>: the pieces between the underscores, empty ones included.\<close>

fun split_underscore :: "string \<Rightarrow> string list" where
  "split_underscore [] = [[]]"
| "split_underscore (c # cs) =
     (if c = CHR ''_'' then [] # split_underscore cs
      else (case split_underscore cs of
              [] \<Rightarrow> [[c]]
            | w # ws \<Rightarrow> (c # w) # ws))"

text \<open>\<^verbatim>\<open>word.capitalize()\<close>: the first character in upper case, the others in lower case.\<close>

fun capitalize :: "string \<Rightarrow> string" where
  "capitalize [] = []"
| "capitalize (c # cs) = upper_char c # map lower_char cs"

text \<open>
  \<^verbatim>\<open>ident.islower()\<close>: there is a cased character and no cased character is upper
  case.
\<close>

definition islower :: "string \<Rightarrow> bool" where
  "islower s = (list_ex is_lower s \<and> \<not> list_ex is_upper s)"

text \<open>
  \<^verbatim>\<open>
  def to_camel_case(self, ident):
      if '_' in ident:
          return ''.join(word.capitalize() for word in ident.split('_'))
      elif ident.islower():
          return ident.capitalize()
      else:
          return ident
  \<close>
\<close>

definition to_camel_case :: "string \<Rightarrow> string" where
  "to_camel_case ident =
     (if CHR ''_'' \<in> set ident then concat (map capitalize (split_underscore ident))
      else if islower ident then capitalize ident
      else ident)"

text \<open>
  \<^verbatim>\<open>
  def nonterminal_to_snake(self, ident):
      if isinstance(ident, Nt):
          base_name = self.to_snek_case(ident.name)
          args = ''.join((("_" + self.to_snek_case(name))
                          for name, value in ident.args if value))
          return base_name + args
      else:
          assert isinstance(ident, str)
          return self.to_snek_case(ident)
  \<close>
  The name of an \<^verbatim>\<open>Nt\<close> may be an \<^verbatim>\<open>InitNt\<close>, on which \<^verbatim>\<open>re.sub\<close> raises
  \<^verbatim>\<open>TypeError\<close>. An argument counts when its value is true; a \<^verbatim>\<open>Var\<close> is a
  non-empty tuple and so is true.
\<close>

fun truthy :: "arg_value \<Rightarrow> bool" where
  "truthy (ArgBool b) = b"
| "truthy (Var v) = True"

fun nonterminal_to_snake :: "ident \<Rightarrow> error + string" where
  "nonterminal_to_snake (IdNt (Nt (Name s) as)) =
     Inr (to_snek_case s
          @ concat (map (\<lambda>(name, val). CHR ''_'' # to_snek_case name)
                     (filter (\<lambda>(name, val). truthy val) as)))"
| "nonterminal_to_snake (IdNt (Nt (InitNt g) as)) =
     Inl (TypeError ''expected string or bytes-like object'')"
| "nonterminal_to_snake (IdStr s) = Inr (to_snek_case s)"

text \<open>
  \<^verbatim>\<open>
  def nonterminal_to_camel(self, nt):
      return self.to_camel_case(self.nonterminal_to_snake(nt))
  \<close>
\<close>

definition nonterminal_to_camel :: "ident \<Rightarrow> error + string" where
  "nonterminal_to_camel nt =
     (case nonterminal_to_snake nt of
        Inl err \<Rightarrow> Inl err
      | Inr snake \<Rightarrow> Inr (to_camel_case snake))"

text \<open>
  \<^verbatim>\<open>
  def check_camel_case(self):
      seen = {}
      for nt in self.nonterminals:
          cc = self.nonterminal_to_camel(nt)
          if cc in seen:
              raise ValueError("{} and {} have the same camel-case spelling ({})".format(
                  seen[cc], nt, cc))
          seen[cc] = nt
  \<close>
\<close>

fun check_camel_case_loop :: "ident list \<Rightarrow> (string \<rightharpoonup> ident) \<Rightarrow> error + unit" where
  "check_camel_case_loop [] seen = Inr ()"
| "check_camel_case_loop (nt # nts) seen =
     (case nonterminal_to_camel nt of
        Inl err \<Rightarrow> Inl err
      | Inr cc \<Rightarrow>
          (case seen cc of
             Some other \<Rightarrow> Inl (AmbiguousIdentifierSpelling other nt cc)
           | None \<Rightarrow> check_camel_case_loop nts (seen(cc \<mapsto> nt))))"

definition check_camel_case :: "ident list \<Rightarrow> error + unit" where
  "check_camel_case nts = check_camel_case_loop nts Map.empty"

text \<open>
  Modelled from the spec: \<^verbatim>\<open>OrderedSet\<close> (ordered.py) is not under src/. It is an
  insertion-ordered set ("stable iteration order over terminals, nonterminals, states,
  and productions"): adding an element that is already there changes nothing.
  \<^verbatim>\<open>
  self.nonterminals = list(OrderedSet(
      nt for state in self.states for nt in state.ctn_row))
  \<close>
\<close>

definition ordered_add :: "'a list \<Rightarrow> 'a \<Rightarrow> 'a list" where
  "ordered_add s x = (if x \<in> set s then s else s @ [x])"

definition OrderedSet :: "'a list \<Rightarrow> 'a list" where
  "OrderedSet xs = foldl ordered_add [] xs"

definition writer_nonterminals :: "ident list list \<Rightarrow> ident list" where
  "writer_nonterminals ctn_rows = OrderedSet (concat ctn_rows)"

text \<open>
  The writer: the keys of the \<^verbatim>\<open>ctn_row\<close> of each state, and the methods of
  \<^verbatim>\<open>RustParserWriter\<close> that write a part of the output. What they write depends on
  the automaton and is not modelled: each is a function on the output written so far,
  giving the output after it and the exception it raised, if any. What has been written
  when an exception is raised stays written.
\<close>

record 'o RustParserWriter =
  ctn_rows :: "ident list list"
  write_header :: "'o \<Rightarrow> 'o \<times> error option"
  write_terminal_id :: "'o \<Rightarrow> 'o \<times> error option"
  write_token :: "'o \<Rightarrow> 'o \<times> error option"
  write_actions :: "'o \<Rightarrow> 'o \<times> error option"
  write_handler_trait :: "'o \<Rightarrow> 'o \<times> error option"
  write_nt_node :: "'o \<Rightarrow> 'o \<times> error option"
  write_nt_node_impl :: "'o \<Rightarrow> 'o \<times> error option"
  write_nonterminal_id :: "'o \<Rightarrow> 'o \<times> error option"
  write_goto :: "'o \<Rightarrow> 'o \<times> error option"
  write_reduce :: "bool \<Rightarrow> 'o \<Rightarrow> 'o \<times> error option"
  write_entry :: "bool \<Rightarrow> 'o \<Rightarrow> 'o \<times> error option"

text \<open>
  A sequence of statements: the first exception ends it, with the output written up to
  there.
\<close>

fun run_steps :: "('o \<Rightarrow> 'o \<times> error option) list \<Rightarrow> 'o \<Rightarrow> 'o \<times> error option" where
  "run_steps [] out = (out, None)"
| "run_steps (step # steps) out =
     (case step out of
        (out', r) \<Rightarrow>
          (case r of
             Some err \<Rightarrow> (out', Some err)
           | None \<Rightarrow> run_steps steps out'))"

text \<open>
  \<^verbatim>\<open>
  def emit(self):
      self.header()
      self.terminal_id()
      self.token()
      self.actions()
      self.check_camel_case()
      self.handler_trait()
      self.nt_node()
      self.nt_node_impl()
      self.nonterminal_id()
      self.goto()
      self.reduce(False)
      self.entry(False)
  \<close>
  \<^verbatim>\<open>check_camel_case\<close> writes nothing.
\<close>

definition emit :: "'o RustParserWriter \<Rightarrow> 'o \<Rightarrow> 'o \<times> error option" where
  "emit w out =
     run_steps
       [write_header w, write_terminal_id w, write_token w, write_actions w,
        (\<lambda>out. (out, case check_camel_case (writer_nonterminals (ctn_rows w)) of
                         Inl err \<Rightarrow> Some err
                       | Inr u \<Rightarrow> None)),
        write_handler_trait w, write_nt_node w, write_nt_node_impl w,
        write_nonterminal_id w, write_goto w, write_reduce w False, write_entry w False]
       out"

section \<open>Grammar construction (grammar.py)\<close>

text \<open>
  \<^verbatim>\<open>NtDef(params, rhs_list)\<close>. In a raw grammar the right-hand sides may be bare
  lists; in a constructed \<^verbatim>\<open>Grammar\<close> they are all \<^verbatim>\<open>Production\<close>s.
\<close>

record NtDef =
  params :: "string list"
  rhs_list :: "rhs list"

text \<open>
  A key of the \<^verbatim>\<open>nonterminals\<close> dictionary is a \<^verbatim>\<open>str\<close> or an \<^verbatim>\<open>InitNt\<close> (early
  in the pipeline), or an \<^verbatim>\<open>Nt\<close> (later on). A goal is a \<^verbatim>\<open>str\<close> or an \<^verbatim>\<open>Nt\<close>.
  A dictionary is the list of its items in insertion order.
\<close>

datatype key = Key nt_name | KeyNt Nt

datatype goal = GoalStr string | GoalNt Nt

text \<open>
  \<^verbatim>\<open>str.isidentifier\<close>, \<^verbatim>\<open>str.isdigit\<close> and \<^verbatim>\<open>str.partition(' ')\<close>, on ASCII
  strings.
\<close>

definition is_alpha :: "char \<Rightarrow> bool" where
  "is_alpha c = (is_upper c \<or> is_lower c)"

definition isidentifier :: "string \<Rightarrow> bool" where
  "isidentifier s =
     (case s of
        [] \<Rightarrow> False
      | c # cs \<Rightarrow> (is_alpha c \<or> c = CHR ''_'')
                 \<and> list_all (\<lambda>d. is_alpha d \<or> is_digit d \<or> d = CHR ''_'') cs)"

definition isdigit :: "string \<Rightarrow> bool" where
  "isdigit s = (s \<noteq> [] \<and> list_all is_digit s)"

definition partition_space :: "string \<Rightarrow> string \<times> string \<times> string" where
  "partition_space s =
     (if CHR '' '' \<in> set s
      then (takeWhile (\<lambda>c. c \<noteq> CHR '' '') s, '' '', tl (dropWhile (\<lambda>c. c \<noteq> CHR '' '') s))
      else (s, [], []))"

text \<open>
  A list comprehension over calls that may raise: the results in order, or the first
  error.
\<close>

fun map_result :: "('a \<Rightarrow> error + 'b) \<Rightarrow> 'a list \<Rightarrow> error + 'b list" where
  "map_result f [] = Inr []"
| "map_result f (x # xs) =
     (case f x of
        Inl err \<Rightarrow> Inl err
      | Inr y \<Rightarrow>
          (case map_result f xs of
             Inl err \<Rightarrow> Inl err
           | Inr ys \<Rightarrow> Inr (y # ys)))"

text \<open>
  The first loop of \<^verbatim>\<open>Grammar.__init__\<close>, over the keys:
  \<^verbatim>\<open>
  for key in nonterminals:
      if not isinstance(key, key_type):
          raise ValueError("invalid grammar: conflicting key types in nonterminals dict - ...")
      if keys_are_nt:
          name = key.name
          param_names = tuple(name for name, value in key.args)
      else:
          name = key
          param_names = ()
          if isinstance(nonterminals[key], NtDef):
              param_names = tuple(nonterminals[key].params)
      if name not in nt_params:
          nt_params[name] = param_names
      else:
          if nt_params[name] != param_names:
              raise ValueError("conflicting parameter name lists for nt {!r}: ...")
      if param_names == () and name not in str_to_nt:
          str_to_nt[name] = self.intern(Nt(name))
  \<close>
\<close>

fun key_name_params :: "bool \<Rightarrow> key \<Rightarrow> NtDef nt_value \<Rightarrow> error + (nt_name \<times> string list)" where
  "key_name_params True (KeyNt nt) v = Inr (Nt_name nt, map fst (Nt_args nt))"
| "key_name_params True (Key n) v =
     Inl (ValueError ''invalid grammar: conflicting key types in nonterminals dict'')"
| "key_name_params False (Key n) (NtDef d) = Inr (n, params d)"
| "key_name_params False (Key n) (RhsList l) = Inr (n, [])"
| "key_name_params False (KeyNt nt) v =
     Inl (ValueError ''invalid grammar: conflicting key types in nonterminals dict'')"

fun gather_keys ::
  "bool \<Rightarrow> (key \<times> NtDef nt_value) list \<Rightarrow> (nt_name \<rightharpoonup> string list) \<Rightarrow> (nt_name \<rightharpoonup> Nt) \<Rightarrow>
   error + ((nt_name \<rightharpoonup> string list) \<times> (nt_name \<rightharpoonup> Nt))" where
  "gather_keys keys_are_nt [] nt_params str_to_nt = Inr (nt_params, str_to_nt)"
| "gather_keys keys_are_nt ((k, v) # rest) nt_params str_to_nt =
     (case key_name_params keys_are_nt k v of
        Inl err \<Rightarrow> Inl err
      | Inr (name, param_names) \<Rightarrow>
          (case nt_params name of
             Some ps \<Rightarrow>
               if ps \<noteq> param_names
               then Inl (ValueError ''conflicting parameter name lists for nt {!r}'')
               else gather_keys keys_are_nt rest nt_params
                      (if param_names = [] \<and> str_to_nt name = None
                       then str_to_nt(name \<mapsto> Nt name []) else str_to_nt)
           | None \<Rightarrow>
               gather_keys keys_are_nt rest (nt_params(name \<mapsto> param_names))
                 (if param_names = [] \<and> str_to_nt name = None
                  then str_to_nt(name \<mapsto> Nt name []) else str_to_nt)))"

text \<open>
  The \<^verbatim>\<open>Nt\<close> branch of \<^verbatim>\<open>validate_element\<close>; \<open>keys\<close> are the keys of the raw
  dictionary. The position \<^verbatim>\<open>nt, i, j\<close> only appears in the messages.
  \<^verbatim>\<open>
  elif isinstance(e, Nt):
      if e not in nonterminals and e.name not in nonterminals:
          raise ValueError("invalid grammar: unrecognized nonterminal ...")
      args = tuple(pair[0] for pair in e.args)
      if e.name in nt_params and args != nt_params[e.name]:
          raise ValueError("invalid grammar: wrong arguments passed to {!r} ...")
      for param_name, arg_expr in e.args:
          if isinstance(arg_expr, Var):
              if arg_expr.name not in context_params:
                  raise ValueError("invalid grammar: undefined variable {!r} ...")
      return self.intern(e)
  \<close>
\<close>

definition UnrecognizedNonterminal :: error where
  "UnrecognizedNonterminal =
     ValueError ''invalid grammar: unrecognized nonterminal in production `grammar[{!r}][{}][{}]`: {!r}''"

fun check_vars :: "(string \<times> arg_value) list \<Rightarrow> string list \<Rightarrow> error + unit" where
  "check_vars [] context_params = Inr ()"
| "check_vars ((param_name, Var v) # rest) context_params =
     (if v \<notin> set context_params
      then Inl (ValueError ''invalid grammar: undefined variable {!r}'')
      else check_vars rest context_params)"
| "check_vars ((param_name, ArgBool b) # rest) context_params = check_vars rest context_params"

definition validate_nt_use ::
  "key list \<Rightarrow> (nt_name \<rightharpoonup> string list) \<Rightarrow> Nt \<Rightarrow> string list \<Rightarrow> error + unit" where
  "validate_nt_use keys nt_params e context_params =
     (if KeyNt e \<notin> set keys \<and> Key (Nt_name e) \<notin> set keys then Inl UnrecognizedNonterminal
      else if (case nt_params (Nt_name e) of
                 None \<Rightarrow> False
               | Some ps \<Rightarrow> map fst (Nt_args e) \<noteq> ps)
      then Inl (ValueError ''invalid grammar: wrong arguments passed to {!r}'')
      else check_vars (Nt_args e) context_params)"

text \<open>
  \<^verbatim>\<open>validate_element\<close> returns the validated element; its side effect
  \<^verbatim>\<open>all_terminals.add(e)\<close> on a set that validation never reads is returned with it,
  as the list of the terminals added.
  \<^verbatim>\<open>
  def validate_element(nt, i, j, e, context_params):
      if isinstance(e, str):
          if e in nt_params:
              if nt_params[e] != ():
                  raise ValueError("invalid grammar: missing parameters for {!r} ...")
              return str_to_nt[e]
          else:
              all_terminals.add(e)
              return e
      elif isinstance(e, Optional):
          if not isinstance(e.inner, (str, Nt)):
              raise TypeError("invalid grammar: unrecognized element ...")
          inner = validate_element(nt, i, j, e.inner, context_params)
          return self.intern(Optional(inner))
      elif isinstance(e, Nt):
          ...
      elif isinstance(e, LookaheadRule) or e is ErrorToken:
          return self.intern(e)
      else:
          raise TypeError("invalid grammar: unrecognized element in production ...")
  \<close>
\<close>

fun is_str_or_nt :: "element \<Rightarrow> bool" where
  "is_str_or_nt (Str s) = True"
| "is_str_or_nt (ENt nt) = True"
| "is_str_or_nt e = False"

fun validate_element ::
  "key list \<Rightarrow> (nt_name \<rightharpoonup> string list) \<Rightarrow> (nt_name \<rightharpoonup> Nt) \<Rightarrow> element \<Rightarrow> string list \<Rightarrow>
   error + (element \<times> string list)" where
  "validate_element keys nt_params str_to_nt (Str e) context_params =
     (case nt_params (Name e) of
        Some ps \<Rightarrow>
          if ps \<noteq> [] then Inl (ValueError ''invalid grammar: missing parameters for {!r}'')
          else (case str_to_nt (Name e) of
                  None \<Rightarrow> Inl KeyError
                | Some nt \<Rightarrow> Inr (ENt nt, []))
      | None \<Rightarrow> Inr (Str e, [e]))"
| "validate_element keys nt_params str_to_nt (Optional i) context_params =
     (if \<not> is_str_or_nt i
      then Inl (TypeError ''invalid grammar: unrecognized element in production (inner)'')
      else (case validate_element keys nt_params str_to_nt i context_params of
              Inl err \<Rightarrow> Inl err
            | Inr (i', added) \<Rightarrow> Inr (Optional i', added)))"
| "validate_element keys nt_params str_to_nt (ENt e) context_params =
     (case validate_nt_use keys nt_params e context_params of
        Inl err \<Rightarrow> Inl err
      | Inr u \<Rightarrow> Inr (ENt e, []))"
| "validate_element keys nt_params str_to_nt (Lookahead r) context_params =
     Inr (Lookahead r, [])"
| "validate_element keys nt_params str_to_nt ErrorToken context_params = Inr (ErrorToken, [])"
| "validate_element keys nt_params str_to_nt e context_params =
     Inl (TypeError ''invalid grammar: unrecognized element in production'')"

text \<open>
  \<^verbatim>\<open>
  def check_reduce_action(nt, i, rhs, action):
      if isinstance(action, int):
          concrete_len = sum(1 for e in rhs.body if is_concrete_element(e))
          if not (0 <= action < concrete_len):
              raise ValueError("invalid grammar: element number {} out of range ...")
      elif isinstance(action, CallMethod):
          if not isinstance(action.method, str):
              raise TypeError("invalid grammar: method names must be strings, ...")
          if not action.method.isidentifier():
              name, space, pn = action.method.partition(' ')
              if space == ' ' and name.isidentifier() and pn.isdigit():
                  pass
              else:
                  raise ValueError("invalid grammar: invalid method name {!r} ...")
          for arg_expr in action.args:
              check_reduce_action(nt, i, rhs, arg_expr)
      elif action is None:
          pass
      elif isinstance(action, Some):
          check_reduce_action(nt, i, rhs, action.inner)
      else:
          raise TypeError("invalid grammar: unrecognized reduce expression {!r} ...")
  \<close>
  The last branch is where a nested \<^verbatim>\<open>'accept'\<close> ends.
\<close>

definition OutOfRange :: error where
  "OutOfRange =
     ValueError ''invalid grammar: element number {} out of range for production {!r} in grammar[{!r}][{}].action ({!r})''"

definition valid_method_name :: "string \<Rightarrow> bool" where
  "valid_method_name m =
     (isidentifier m
      \<or> (case partition_space m of
            (name, space, pn) \<Rightarrow> space = '' '' \<and> isidentifier name \<and> isdigit pn))"

fun check_reduce_action :: "Production \<Rightarrow> expr \<Rightarrow> error + unit"
  and check_reduce_actions :: "Production \<Rightarrow> expr list \<Rightarrow> error + unit" where
  "check_reduce_action rhs (Index a) =
     (if 0 \<le> a \<and> a < int (length (filter is_concrete_element (body rhs)))
      then Inr () else Inl OutOfRange)"
| "check_reduce_action rhs (CallMethod m as) =
     (if valid_method_name m then check_reduce_actions rhs as
      else Inl (ValueError ''invalid grammar: invalid method name {!r} (not an identifier)''))"
| "check_reduce_action rhs ExprNone = Inr ()"
| "check_reduce_action rhs (SomeExpr i) = check_reduce_action rhs i"
| "check_reduce_action rhs Accept =
     Inl (TypeError ''invalid grammar: unrecognized reduce expression {!r}'')"
| "check_reduce_actions rhs [] = Inr ()"
| "check_reduce_actions rhs (a # as) =
     (case check_reduce_action rhs a of
        Inl err \<Rightarrow> Inl err
      | Inr u \<Rightarrow> check_reduce_actions rhs as)"

text \<open>
  \<^verbatim>\<open>
  def copy_rhs(nt, i, sole_production, rhs, context_params):
      if isinstance(rhs, list):
          nargs = sum(1 for e in rhs if is_concrete_element(e))
          if len(rhs) == 1 and nargs == 1:
              action = 0
          else:
              if sole_production:
                  method = nt
              else:
                  method = '{} {}'.format(nt, i)
              action = CallMethod(method, args=tuple(range(nargs)))
          rhs = Production(rhs, action)
      ...
      if rhs.condition is not None:
          param, value = rhs.condition
          if param not in context_params:
              raise TypeError("invalid grammar: undefined parameter {!r} ...")
      if rhs.action != 'accept':
          check_reduce_action(nt, i, rhs, rhs.action)
      assert isinstance(rhs.body, list)
      return rhs.copy_with(body=[
          validate_element(nt, i, j, e, context_params)
          for j, e in enumerate(rhs.body)
      ])
  \<close>
  For a bare list under a key that is not a \<^verbatim>\<open>str\<close>, the method of the inferred
  action is not a method name: it is the key itself for a sole production, which
  \<^verbatim>\<open>check_reduce_action\<close> rejects with \<^verbatim>\<open>TypeError\<close> (method names must be strings),
  and otherwise the key's \<^verbatim>\<open>repr\<close>, a space and the index, which it rejects with
  \<^verbatim>\<open>ValueError\<close> (the part before the first space is not an identifier).
\<close>

definition infer_action :: "key \<Rightarrow> nat \<Rightarrow> bool \<Rightarrow> element list \<Rightarrow> error + expr" where
  "infer_action nt i sole_production rhs =
     (let nargs = length (filter is_concrete_element rhs) in
      if length rhs = 1 \<and> nargs = 1 then Inr (Index 0)
      else
        (case nt of
           Key (Name s) \<Rightarrow>
             Inr (CallMethod (if sole_production then s else s @ '' '' @ str_nat i)
                    (map (\<lambda>k. Index (int k)) [0..<nargs]))
         | _ \<Rightarrow>
             if sole_production
             then Inl (TypeError ''invalid grammar: method names must be strings, not {!r}'')
             else Inl (ValueError
                    ''invalid grammar: invalid method name {!r} (not an identifier)'')))"

definition copy_production ::
  "key list \<Rightarrow> (nt_name \<rightharpoonup> string list) \<Rightarrow> (nt_name \<rightharpoonup> Nt) \<Rightarrow> Production \<Rightarrow> string list \<Rightarrow>
   error + (Production \<times> string list)" where
  "copy_production keys nt_params str_to_nt rhs context_params =
     (if (case condition rhs of
            None \<Rightarrow> False
          | Some (param, val) \<Rightarrow> param \<notin> set context_params)
      then Inl (TypeError ''invalid grammar: undefined parameter {!r} in conditional'')
      else
        (case (if action rhs \<noteq> Accept then check_reduce_action rhs (action rhs) else Inr ()) of
           Inl err \<Rightarrow> Inl err
         | Inr u \<Rightarrow>
             (case map_result
                     (\<lambda>e. validate_element keys nt_params str_to_nt e context_params)
                     (body rhs) of
                Inl err \<Rightarrow> Inl err
              | Inr validated \<Rightarrow>
                  Inr (rhs\<lparr>body := map fst validated\<rparr>, concat (map snd validated)))))"

fun copy_rhs ::
  "key list \<Rightarrow> (nt_name \<rightharpoonup> string list) \<Rightarrow> (nt_name \<rightharpoonup> Nt) \<Rightarrow>
   key \<Rightarrow> nat \<Rightarrow> bool \<Rightarrow> rhs \<Rightarrow> string list \<Rightarrow> error + (Production \<times> string list)" where
  "copy_rhs keys nt_params str_to_nt nt i sole_production (Bare elements) context_params =
     (case infer_action nt i sole_production elements of
        Inl err \<Rightarrow> Inl err
      | Inr inferred \<Rightarrow>
          copy_production keys nt_params str_to_nt
            \<lparr>body = elements, action = inferred, condition = None\<rparr> context_params)"
| "copy_rhs keys nt_params str_to_nt nt i sole_production (Prod p) context_params =
     copy_production keys nt_params str_to_nt p context_params"

text \<open>
  \<^verbatim>\<open>
  def copy_nt_def(nt, nt_def, params):
      if isinstance(nt_def, NtDef):
          ...
          params = nt_def.params[:]
          rhs_list = nt_def.rhs_list
      else:
          params = []
          rhs_list = nt_def
      ...
      sole_production = len(rhs_list) == 1
      rhs_list = [copy_rhs(nt, i, sole_production, rhs, params)
                  for i, rhs in enumerate(rhs_list)]
      return NtDef(params, rhs_list)
  \<close>
\<close>

definition copy_nt_def ::
  "key list \<Rightarrow> (nt_name \<rightharpoonup> string list) \<Rightarrow> (nt_name \<rightharpoonup> Nt) \<Rightarrow>
   key \<Rightarrow> NtDef nt_value \<Rightarrow> error + (NtDef \<times> string list)" where
  "copy_nt_def keys nt_params str_to_nt nt ntd =
     (let ps = (case ntd of NtDef d \<Rightarrow> params d | RhsList l \<Rightarrow> []);
          rhss = (case ntd of NtDef d \<Rightarrow> rhs_list d | RhsList l \<Rightarrow> l);
          sole_production = (length rhss = 1)
      in case map_result
                (\<lambda>(i, r). copy_rhs keys nt_params str_to_nt nt i sole_production r ps)
                (enumerate 0 rhss) of
           Inl err \<Rightarrow> Inl err
         | Inr copied \<Rightarrow>
             Inr (\<lparr>params = ps, rhs_list = map (\<lambda>c. Prod (fst c)) copied\<rparr>,
                  concat (map snd copied)))"

text \<open>
  \<^verbatim>\<open>check_nt_key\<close> on a \<^verbatim>\<open>str\<close> or an \<^verbatim>\<open>InitNt\<close>:
  \<^verbatim>\<open>
  if isinstance(nt, str):
      if not nt.isidentifier():
          raise ValueError("invalid grammar: nonterminal names must be identifiers, not {!r}")
      if nt in self.variable_terminals:
          raise TypeError("invalid grammar: {!r} is both a nonterminal and a variable terminal")
  ...
  elif isinstance(nt, InitNt):
      ...
      validate_element(nt, '?', '?', nt.goal, [])
      if nt.goal not in goal_nts:
          raise TypeError("invalid grammar: nonterminal referenced by InitNt "
                          "is not in the list of goals: {!r}")
  \<close>
\<close>

fun check_nt_name ::
  "key list \<Rightarrow> (nt_name \<rightharpoonup> string list) \<Rightarrow> string list \<Rightarrow> goal list \<Rightarrow> nt_name \<Rightarrow> error + unit" where
  "check_nt_name keys nt_params vts goal_nts (Name nt) =
     (if \<not> isidentifier nt
      then Inl (ValueError ''invalid grammar: nonterminal names must be identifiers, not {!r}'')
      else if nt \<in> set vts
      then Inl (TypeError
             ''invalid grammar: {!r} is both a nonterminal and a variable terminal'')
      else Inr ())"
| "check_nt_name keys nt_params vts goal_nts (InitNt g) =
     (case validate_nt_use keys nt_params g [] of
        Inl err \<Rightarrow> Inl err
      | Inr u \<Rightarrow>
          if GoalNt g \<notin> set goal_nts
          then Inl (TypeError
                 ''invalid grammar: nonterminal referenced by InitNt is not in the list of goals: {!r}'')
          else Inr ())"

text \<open>
  \<^verbatim>\<open>check_nt_key\<close> on a key; for an \<^verbatim>\<open>Nt\<close>:
  \<^verbatim>\<open>
  elif isinstance(nt, Nt):
      assert keys_are_nt  # checked earlier
      ...
      check_nt_key(nt.name)
      for pair in nt.args:
          if (not isinstance(pair, tuple) or len(pair) != 2
                  or not isinstance(pair[0], str) or not isinstance(pair[1], bool)):
              raise TypeError("invalid grammar: expected tuple((str, bool)) args, got {!r}")
  \<close>
\<close>

fun is_bool_arg :: "string \<times> arg_value \<Rightarrow> bool" where
  "is_bool_arg (param_name, ArgBool b) = True"
| "is_bool_arg (param_name, Var v) = False"

fun check_nt_key ::
  "bool \<Rightarrow> key list \<Rightarrow> (nt_name \<rightharpoonup> string list) \<Rightarrow> string list \<Rightarrow> goal list \<Rightarrow> key \<Rightarrow>
   error + unit" where
  "check_nt_key keys_are_nt keys nt_params vts goal_nts (Key n) =
     check_nt_name keys nt_params vts goal_nts n"
| "check_nt_key keys_are_nt keys nt_params vts goal_nts (KeyNt nt) =
     (if \<not> keys_are_nt then Inl AssertionError
      else
        (case check_nt_name keys nt_params vts goal_nts (Nt_name nt) of
           Inl err \<Rightarrow> Inl err
         | Inr u \<Rightarrow>
             if list_all is_bool_arg (Nt_args nt) then Inr ()
             else Inl (TypeError
                    ''invalid grammar: expected tuple((str, bool)) args, got {!r}'')))"

text \<open>
  The comparisons of \<^verbatim>\<open>validate_nt\<close> for an \<^verbatim>\<open>InitNt\<close> key. Two lists of different
  lengths are unequal; otherwise the first unequal pair of elements decides.
  \<^verbatim>\<open>Production.__eq__\<close> reads \<^verbatim>\<open>other.body\<close>, which a bare list does not have
  (\<^verbatim>\<open>AttributeError\<close>).
\<close>

fun rhs_lists_differ :: "rhs list \<Rightarrow> Production list \<Rightarrow> error + bool" where
  "rhs_lists_differ [] [] = Inr False"
| "rhs_lists_differ (Bare b # rs) (p # ps) = Inl AttributeError"
| "rhs_lists_differ (Prod r # rs) (p # ps) =
     (if r = p then rhs_lists_differ rs ps else Inr True)"
| "rhs_lists_differ rs ps = Inr True"

definition rhs_list_ne :: "rhs list \<Rightarrow> Production list \<Rightarrow> error + bool" where
  "rhs_list_ne rs ps = (if length rs \<noteq> length ps then Inr True else rhs_lists_differ rs ps)"

text \<open>
  \<^verbatim>\<open>
  rhs_list = nt_def.rhs_list
  g = nt.goal
  if (rhs_list != [Production([g], 'accept')]
          and rhs_list != [Production([Optional(g)], 'accept')]
          and rhs_list != [Production([], 'accept'),
                           Production([g], 'accept')]):
      raise ValueError("invalid grammar: grammar[{!r}] is not one of the expected forms: ...")
  \<close>
\<close>

definition accept_production :: "element list \<Rightarrow> Production" where
  "accept_production elements = \<lparr>body = elements, action = Accept, condition = None\<rparr>"

definition check_init_form :: "Nt \<Rightarrow> rhs list \<Rightarrow> error + unit" where
  "check_init_form g rs =
     (case rhs_list_ne rs [accept_production [ENt g]] of
        Inl err \<Rightarrow> Inl err
      | Inr False \<Rightarrow> Inr ()
      | Inr True \<Rightarrow>
          (case rhs_list_ne rs [accept_production [Optional (ENt g)]] of
             Inl err \<Rightarrow> Inl err
           | Inr False \<Rightarrow> Inr ()
           | Inr True \<Rightarrow>
               (case rhs_list_ne rs [accept_production [], accept_production [ENt g]] of
                  Inl err \<Rightarrow> Inl err
                | Inr False \<Rightarrow> Inr ()
                | Inr True \<Rightarrow>
                    Inl (ValueError
                      ''invalid grammar: grammar[{!r}] is not one of the expected forms: got {!r}''))))"

text \<open>
  \<^verbatim>\<open>
  def validate_nt(nt, nt_def):
      check_nt_key(nt)
      if isinstance(nt, InitNt):
          if not isinstance(nt_def, NtDef):
              raise TypeError("invalid grammar: key {!r} must map to value of type NtDef, ...")
          ...
      return nt, copy_nt_def(nt, nt_def, [])
  \<close>
\<close>

fun check_init_nt :: "key \<Rightarrow> NtDef nt_value \<Rightarrow> error + unit" where
  "check_init_nt (Key (InitNt g)) (NtDef d) = check_init_form g (rhs_list d)"
| "check_init_nt (Key (InitNt g)) (RhsList l) =
     Inl (TypeError ''invalid grammar: key {!r} must map to value of type NtDef, not {!r}'')"
| "check_init_nt k v = Inr ()"

definition validate_nt ::
  "bool \<Rightarrow> key list \<Rightarrow> (nt_name \<rightharpoonup> string list) \<Rightarrow> (nt_name \<rightharpoonup> Nt) \<Rightarrow> string list \<Rightarrow>
   goal list \<Rightarrow> key \<Rightarrow> NtDef nt_value \<Rightarrow> error + (NtDef \<times> string list)" where
  "validate_nt keys_are_nt keys nt_params str_to_nt vts goal_nts nt ntd =
     (case check_nt_key keys_are_nt keys nt_params vts goal_nts nt of
        Inl err \<Rightarrow> Inl err
      | Inr u \<Rightarrow>
          (case check_init_nt nt ntd of
             Inl err \<Rightarrow> Inl err
           | Inr u \<Rightarrow> copy_nt_def keys nt_params str_to_nt nt ntd))"

text \<open>
  The second loop, with the dictionary \<^verbatim>\<open>self.nonterminals\<close> and the ordered set
  \<^verbatim>\<open>all_terminals\<close> built so far:
  \<^verbatim>\<open>
  self.nonterminals = {}
  for nt, nt_def in nonterminals.items():
      nt, nt_def = validate_nt(nt, nt_def)
      self.nonterminals[nt] = nt_def
  \<close>
\<close>

fun validate_loop ::
  "bool \<Rightarrow> key list \<Rightarrow> (nt_name \<rightharpoonup> string list) \<Rightarrow> (nt_name \<rightharpoonup> Nt) \<Rightarrow> string list \<Rightarrow>
   goal list \<Rightarrow> (key \<times> NtDef nt_value) list \<Rightarrow> (key \<times> NtDef) list \<Rightarrow> string list \<Rightarrow>
   error + ((key \<times> NtDef) list \<times> string list)" where
  "validate_loop keys_are_nt keys nt_params str_to_nt vts goal_nts [] validated all_terminals =
     Inr (validated, all_terminals)"
| "validate_loop keys_are_nt keys nt_params str_to_nt vts goal_nts ((nt, ntd) # rest)
       validated all_terminals =
     (case validate_nt keys_are_nt keys nt_params str_to_nt vts goal_nts nt ntd of
        Inl err \<Rightarrow> Inl err
      | Inr (d, added) \<Rightarrow>
          validate_loop keys_are_nt keys nt_params str_to_nt vts goal_nts rest
            (dict_set validated nt d) (foldl ordered_add all_terminals added))"

text \<open>
  The last loop, with \<^verbatim>\<open>self.nonterminals\<close> and \<^verbatim>\<open>self.init_nts\<close> built so far;
  \<open>keys\<close> are the keys of the raw dictionary:
  \<^verbatim>\<open>
  for goal in goal_nts:
      if isinstance(goal, str):
          ok = goal in str_to_nt
          if ok:
              goal = str_to_nt[goal]
      elif isinstance(goal, Nt):
          if keys_are_nt:
              ok = goal in nonterminals
          else:
              ok = goal.name in nonterminals
      if not ok:
          raise ValueError("goal nonterminal {!r} is undefined".format(goal))
      init_key = InitNt(goal)
      init_nt = Nt(init_key, ())
      if keys_are_nt:
          init_key = init_nt
      if init_key not in self.nonterminals:
          self.nonterminals[init_key] = NtDef(
              [], [Production([goal], 'accept')])
      self.init_nts.append(init_nt)
  \<close>
\<close>

definition UndefinedGoal :: error where
  "UndefinedGoal = ValueError ''goal nonterminal {!r} is undefined''"

fun resolve_goal :: "bool \<Rightarrow> key list \<Rightarrow> (nt_name \<rightharpoonup> Nt) \<Rightarrow> goal \<Rightarrow> error + Nt" where
  "resolve_goal keys_are_nt keys str_to_nt (GoalStr s) =
     (case str_to_nt (Name s) of
        None \<Rightarrow> Inl UndefinedGoal
      | Some nt \<Rightarrow> Inr nt)"
| "resolve_goal keys_are_nt keys str_to_nt (GoalNt nt) =
     (if (if keys_are_nt then KeyNt nt \<in> set keys else Key (Nt_name nt) \<in> set keys)
      then Inr nt else Inl UndefinedGoal)"

definition init_key_of :: "bool \<Rightarrow> Nt \<Rightarrow> key" where
  "init_key_of keys_are_nt g = (if keys_are_nt then KeyNt (Nt (InitNt g) []) else Key (InitNt g))"

definition init_nt_def :: "Nt \<Rightarrow> NtDef" where
  "init_nt_def g = \<lparr>params = [], rhs_list = [Prod (accept_production [ENt g])]\<rparr>"

fun synthesize_init ::
  "bool \<Rightarrow> key list \<Rightarrow> (nt_name \<rightharpoonup> Nt) \<Rightarrow> goal list \<Rightarrow> (key \<times> NtDef) list \<Rightarrow> Nt list \<Rightarrow>
   error + ((key \<times> NtDef) list \<times> Nt list)" where
  "synthesize_init keys_are_nt keys str_to_nt [] nts inits = Inr (nts, inits)"
| "synthesize_init keys_are_nt keys str_to_nt (g # rest) nts inits =
     (case resolve_goal keys_are_nt keys str_to_nt g of
        Inl err \<Rightarrow> Inl err
      | Inr g' \<Rightarrow>
          synthesize_init keys_are_nt keys str_to_nt rest
            (if init_key_of keys_are_nt g' \<in> fst ` set nts then nts
             else dict_set nts (init_key_of keys_are_nt g') (init_nt_def g'))
            (inits @ [Nt (InitNt g') []]))"

text \<open>
  The attributes of a \<^verbatim>\<open>Grammar\<close>. The types of \<^verbatim>\<open>nt_types\<close> and \<^verbatim>\<open>methods\<close> belong
  to the type inference, which is not part of grammar.py.
\<close>

record ('t, 'm) Grammar =
  variable_terminals :: "string list"
  terminals :: "string list"
  nonterminals :: "(key \<times> NtDef) list"
  nt_types :: "'t"
  methods :: "'m"
  init_nts :: "Nt list"

text \<open>
  The goals when \<^verbatim>\<open>goal_nts\<close> is \<^verbatim>\<open>None\<close>: the first key of the dictionary. When
  that key is an \<^verbatim>\<open>InitNt\<close>, \<^verbatim>\<open>goal_nts\<close> holds that \<^verbatim>\<open>InitNt\<close>, which is equal to no
  \<^verbatim>\<open>Nt\<close>; \<^verbatim>\<open>check_nt_key\<close> then rejects that first key (its goal is not among the
  goals) and the list is not read again, so the empty list stands for it.
  \<^verbatim>\<open>
  if goal_nts is None:
      goal_nts = []
      for name in nonterminals:
          goal_nts.append(name)
          break
  else:
      goal_nts = list(goal_nts)
  \<close>
\<close>

fun default_goals :: "key list \<Rightarrow> goal list" where
  "default_goals [] = []"
| "default_goals (Key (Name s) # ks) = [GoalStr s]"
| "default_goals (Key (InitNt g) # ks) = []"
| "default_goals (KeyNt nt # ks) = [GoalNt nt]"

fun is_KeyNt :: "key \<Rightarrow> bool" where
  "is_KeyNt (KeyNt nt) = True"
| "is_KeyNt (Key n) = False"

text \<open>
  \<^verbatim>\<open>Grammar.__init__(self, nonterminals, goal_nts=None, variable_terminals=(),
  type_info=None)\<close>. \<^verbatim>\<open>next(iter(nonterminals))\<close> raises \<^verbatim>\<open>StopIteration\<close> on an empty
  dictionary. \<^verbatim>\<open>types.infer_types\<close> is outside grammar.py: it is the parameter
  \<open>infer_types\<close>, applied to what \<^verbatim>\<open>self\<close> holds when it is called.
  \<^verbatim>\<open>
  self.variable_terminals = OrderedFrozenSet(variable_terminals)
  keys_are_nt = isinstance(next(iter(nonterminals)), Nt)
  ...
  all_terminals = OrderedSet(self.variable_terminals)
  ...
  self.terminals = OrderedFrozenSet(all_terminals)
  if type_info is None:
      type_info = types.infer_types(self)
  self.nt_types, self.methods = type_info
  \<close>
\<close>

definition Grammar_init ::
  "((key \<times> NtDef) list \<Rightarrow> string list \<Rightarrow> string list \<Rightarrow> error + ('t \<times> 'm)) \<Rightarrow>
   (key \<times> NtDef nt_value) list \<Rightarrow> goal list option \<Rightarrow> string list \<Rightarrow> ('t \<times> 'm) option \<Rightarrow>
   error + ('t, 'm) Grammar" where
  "Grammar_init infer_types raw goal_nts vts type_info =
     (let keys = map fst raw;
          goal_list = (case goal_nts of None \<Rightarrow> default_goals keys | Some gs \<Rightarrow> gs);
          vt_set = OrderedSet vts
      in case keys of
           [] \<Rightarrow> Inl StopIteration
         | k # ks \<Rightarrow>
             (case gather_keys (is_KeyNt k) raw Map.empty Map.empty of
                Inl err \<Rightarrow> Inl err
              | Inr (nt_params, str_to_nt) \<Rightarrow>
                  (case validate_loop (is_KeyNt k) keys nt_params str_to_nt vt_set goal_list
                          raw [] (OrderedSet vt_set) of
                     Inl err \<Rightarrow> Inl err
                   | Inr (validated, all_terminals) \<Rightarrow>
                       (case (case type_info of
                                None \<Rightarrow> infer_types validated vt_set all_terminals
                              | Some ti \<Rightarrow> Inr ti) of
                          Inl err \<Rightarrow> Inl err
                        | Inr (types, meths) \<Rightarrow>
                            (case synthesize_init (is_KeyNt k) keys str_to_nt goal_list
                                    validated [] of
                               Inl err \<Rightarrow> Inl err
                             | Inr (nts, inits) \<Rightarrow>
                                 Inr \<lparr>variable_terminals = vt_set,
                                      terminals = all_terminals,
                                      nonterminals = nts,
                                      nt_types = types,
                                      methods = meths,
                                      init_nts = inits\<rparr>)))))"

text \<open>
  \<^verbatim>\<open>
  def goals(self):
      return [init_nt.name.goal for init_nt in self.init_nts]

  def with_nonterminals(self, nonterminals):
      return Grammar(
          nonterminals, self.goals(), self.variable_terminals,
          (self.nt_types, self.methods))
  \<close>
  The new dictionary maps its keys to \<^verbatim>\<open>NtDef\<close>s or to lists, as the one given to the
  constructor.
\<close>

definition Grammar_goals :: "('t, 'm) Grammar \<Rightarrow> Nt list" where
  "Grammar_goals g = map (\<lambda>init_nt. goal (Nt_name init_nt)) (init_nts g)"

definition with_nonterminals ::
  "((key \<times> NtDef) list \<Rightarrow> string list \<Rightarrow> string list \<Rightarrow> error + ('t \<times> 'm)) \<Rightarrow>
   ('t, 'm) Grammar \<Rightarrow> (key \<times> NtDef nt_value) list \<Rightarrow> error + ('t, 'm) Grammar" where
  "with_nonterminals infer_types g raw =
     Grammar_init infer_types raw (Some (map GoalNt (Grammar_goals g)))
       (variable_terminals g) (Some (nt_types g, methods g))"

text \<open>
  The integer stack references of a reduce expression: at the top level, or nested
  inside the arguments of a \<^verbatim>\<open>CallMethod\<close> or inside a \<^verbatim>\<open>Some\<close>. The function is not
  part of grammar.py; it names what the properties of \<^verbatim>\<open>check_reduce_action\<close> are
  about.
\<close>

fun stack_refs :: "expr \<Rightarrow> int list" where
  "stack_refs (Index a) = [a]"
| "stack_refs (CallMethod m as) = concat (map stack_refs as)"
| "stack_refs ExprNone = []"
| "stack_refs (SomeExpr i) = stack_refs i"
| "stack_refs Accept = []"

text \<open>The right-hand sides of a raw definition, whichever of its two forms it has.\<close>

fun raw_rhs_list :: "NtDef nt_value \<Rightarrow> rhs list" where
  "raw_rhs_list (NtDef d) = rhs_list d"
| "raw_rhs_list (RhsList l) = l"

fun raw_params :: "NtDef nt_value \<Rightarrow> string list" where
  "raw_params (NtDef d) = params d"
| "raw_params (RhsList l) = []"

text \<open>The elements of a raw right-hand side.\<close>

fun raw_body :: "rhs \<Rightarrow> element list" where
  "raw_body (Bare elements) = elements"
| "raw_body (Prod p) = body p"

text \<open>
  Well-formedness of a raw grammar whose keys are strings, stated on the grammar itself
  and not on the run of the constructor. \<open>declared_params raw n\<close> is the parameter list
  declared for the name \<open>n\<close>, if it is defined.

  A reference to a nonterminal resolves and matches: its name is defined, the names of
  its arguments are the declared parameters, and a variable it passes is a parameter of
  the nonterminal being defined (\<open>ps\<close>). A string is a terminal or the name of a
  nonterminal without parameters.
\<close>

definition declared_params :: "(key \<times> NtDef nt_value) list \<Rightarrow> nt_name \<Rightarrow> string list option" where
  "declared_params raw n = map_option raw_params (map_of raw (Key n))"

fun wf_arg :: "string list \<Rightarrow> string \<times> arg_value \<Rightarrow> bool" where
  "wf_arg ps (param_name, Var x) = (x \<in> set ps)"
| "wf_arg ps (param_name, ArgBool b) = True"

definition wf_nt_use :: "(key \<times> NtDef nt_value) list \<Rightarrow> string list \<Rightarrow> Nt \<Rightarrow> bool" where
  "wf_nt_use raw ps nt =
     (declared_params raw (Nt_name nt) = Some (map fst (Nt_args nt))
      \<and> list_all (wf_arg ps) (Nt_args nt))"

definition wf_str :: "(key \<times> NtDef nt_value) list \<Rightarrow> string \<Rightarrow> bool" where
  "wf_str raw t = (declared_params raw (Name t) = None \<or> declared_params raw (Name t) = Some [])"

fun wf_element :: "(key \<times> NtDef nt_value) list \<Rightarrow> string list \<Rightarrow> element \<Rightarrow> bool" where
  "wf_element raw ps (Str t) = wf_str raw t"
| "wf_element raw ps (ENt nt) = wf_nt_use raw ps nt"
| "wf_element raw ps (Optional (Str t)) = wf_str raw t"
| "wf_element raw ps (Optional (ENt nt)) = wf_nt_use raw ps nt"
| "wf_element raw ps (Lookahead r) = True"
| "wf_element raw ps ErrorToken = True"
| "wf_element raw ps e = False"

text \<open>
  A reduce expression is well formed for \<open>n\<close> concrete elements when every integer
  reference is in the range, every method name is an identifier or a name followed by a
  production index, and \<^verbatim>\<open>'accept'\<close> is not nested in it.
\<close>

fun wf_expr :: "nat \<Rightarrow> expr \<Rightarrow> bool" where
  "wf_expr n (Index a) = (0 \<le> a \<and> a < int n)"
| "wf_expr n (CallMethod m as) = (valid_method_name m \<and> list_all (wf_expr n) as)"
| "wf_expr n ExprNone = True"
| "wf_expr n (SomeExpr i) = wf_expr n i"
| "wf_expr n Accept = False"

definition wf_production :: "(key \<times> NtDef nt_value) list \<Rightarrow> string list \<Rightarrow> Production \<Rightarrow> bool" where
  "wf_production raw ps p =
     ((case condition p of None \<Rightarrow> True | Some (param, val) \<Rightarrow> param \<in> set ps)
      \<and> (action p = Accept
          \<or> wf_expr (length (filter is_concrete_element (body p))) (action p))
      \<and> list_all (wf_element raw ps) (body p))"

fun wf_rhs :: "(key \<times> NtDef nt_value) list \<Rightarrow> string list \<Rightarrow> rhs \<Rightarrow> bool" where
  "wf_rhs raw ps (Bare elements) = list_all (wf_element raw ps) elements"
| "wf_rhs raw ps (Prod p) = wf_production raw ps p"

text \<open>
  An entry is well formed when its key is a string that is an identifier and not a
  variable terminal, and its right-hand sides are well formed. A goal is well formed
  when it names a defined nonterminal, one without parameters if it is given as a string.
\<close>

fun wf_entry :: "(key \<times> NtDef nt_value) list \<Rightarrow> string list \<Rightarrow> key \<times> NtDef nt_value \<Rightarrow> bool" where
  "wf_entry raw vts (Key (Name s), v) =
     (isidentifier s \<and> s \<notin> set vts \<and> list_all (wf_rhs raw (raw_params v)) (raw_rhs_list v))"
| "wf_entry raw vts (k, v) = False"

fun wf_goal :: "(key \<times> NtDef nt_value) list \<Rightarrow> goal \<Rightarrow> bool" where
  "wf_goal raw (GoalStr s) = (declared_params raw (Name s) = Some [])"
| "wf_goal raw (GoalNt nt) = (declared_params raw (Nt_name nt) \<noteq> None)"

definition well_formed ::
  "(key \<times> NtDef nt_value) list \<Rightarrow> goal list \<Rightarrow> string list \<Rightarrow> bool" where
  "well_formed raw goal_list vts =
     (raw \<noteq> [] \<and> distinct (map fst raw)
      \<and> list_all (wf_entry raw vts) raw
      \<and> list_all (wf_goal raw) goal_list)"

text \<open>The nonterminal a goal stands for.\<close>

fun goal_nt :: "goal \<Rightarrow> Nt" where
  "goal_nt (GoalStr s) = Nt (Name s) []"
| "goal_nt (GoalNt nt) = nt"

section \<open>Lookahead algebra\<close>

text \<open>
  Claim C2. \<open>None\<close> is the identity of \<open>lookahead_intersect\<close> on either side; two
  positive rules give the positive rule of the intersection of their sets; a positive
  and a negative rule, in either order, give the positive rule of the positive set
  minus the negative set; two negative rules give the negative rule of the union of
  their exclusion sets.
\<close>

theorem lookahead_intersect_laws:
  "lookahead_intersect R None = R
   \<and> lookahead_intersect None R = R
   \<and> lookahead_intersect (Some (LookaheadRule A True)) (Some (LookaheadRule B True))
       = Some (LookaheadRule (A \<inter> B) True)
   \<and> lookahead_intersect (Some (LookaheadRule A True)) (Some (LookaheadRule B False))
       = Some (LookaheadRule (A - B) True)
   \<and> lookahead_intersect (Some (LookaheadRule B False)) (Some (LookaheadRule A True))
       = Some (LookaheadRule (A - B) True)
   \<and> lookahead_intersect (Some (LookaheadRule A False)) (Some (LookaheadRule B False))
       = Some (LookaheadRule (A \<union> B) False)"
  by (cases R) simp_all

text \<open>
  Claim C10. The composed restriction admits a terminal exactly when both inputs
  admit it.
\<close>

theorem lookahead_contains_intersect:
  "lookahead_contains (lookahead_intersect a b) t
     = (lookahead_contains a t \<and> lookahead_contains b t)"
proof (cases a)
  case None
  then show ?thesis by simp
next
  case (Some ra)
  show ?thesis
  proof (cases b)
    case None
    with Some show ?thesis by simp
  next
    case (Some rb)
    with \<open>a = Some ra\<close> show ?thesis by auto
  qed
qed

section \<open>ASI splitting\<close>





section \<open>Default reducers\<close>

lemma matched_in_Some:
  "matched_in gs l (Some s) = Inr (\<exists>g\<in>set gs. g l \<and> g s)"
  by (induction gs) auto

lemma matched_in_no_lhs:
  "(\<forall>g\<in>set gs. \<not> g l) \<Longrightarrow> matched_in gs l subj = Inr False"
  by (induction gs) auto

text \<open>
  Claim C4, as amended. For a body of exactly one element that is a string or an
  \<^verbatim>\<open>Nt\<close> with a string name \<open>s\<close>, the inferred reducer is the forward reference
  \<^verbatim>\<open>0\<close> exactly when some production group matches both the left-hand name and
  \<open>s\<close>. For a body that does not consist of exactly one element, or whose number of
  concrete elements is not one, or when no group matches the left-hand name, the
  reducer is \<^verbatim>\<open>CallMethod(method_name, (0, ..., nargs - 1))\<close>, where the method name is
  the nonterminal's name for a sole production and the name, a space and the
  production index otherwise.
\<close>

theorem default_reducer_cases:
  "(length b = 1 \<and> search_subject (hd b) = Some s \<longrightarrow>
      default_reducer lhs i b sole =
        Inr (if (\<exists>g\<in>set PRODUCTION_GROUPS. g (fst lhs) \<and> g s) then Index 0
             else CallMethod (if sole then fst lhs else fst lhs @ '' '' @ str_nat i) [Index 0]))
   \<and> (length b \<noteq> 1 \<or> length (filter is_concrete_element b) \<noteq> 1
        \<or> (\<forall>g\<in>set PRODUCTION_GROUPS. \<not> g (fst lhs)) \<longrightarrow>
      default_reducer lhs i b sole =
        Inr (CallMethod (if sole then fst lhs else fst lhs @ '' '' @ str_nat i)
               (map (\<lambda>k. Index (int k)) [0..<length (filter is_concrete_element b)])))"
proof (intro conjI impI)
  assume a: "length b = 1 \<and> search_subject (hd b) = Some s"
  then obtain e where b: "b = [e]" by (cases b) auto
  with a have e: "search_subject e = Some s" by simp
  then have "is_concrete_element e"
    by (cases e) auto
  with e show "default_reducer lhs i b sole =
        Inr (if (\<exists>g\<in>set PRODUCTION_GROUPS. g (fst lhs) \<and> g s) then Index 0
             else CallMethod (if sole then fst lhs else fst lhs @ '' '' @ str_nat i) [Index 0])"
    unfolding b
    by (auto simp add: default_reducer_def is_matched_pair_def matched_in_Some
        method_name_of_def Let_def upt_rec split: bool.splits)
next
  assume a: "length b \<noteq> 1 \<or> length (filter is_concrete_element b) \<noteq> 1
        \<or> (\<forall>g\<in>set PRODUCTION_GROUPS. \<not> g (fst lhs))"
  show "default_reducer lhs i b sole =
        Inr (CallMethod (if sole then fst lhs else fst lhs @ '' '' @ str_nat i)
               (map (\<lambda>k. Index (int k)) [0..<length (filter is_concrete_element b)]))"
  proof (cases "length b = 1 \<and> length (filter is_concrete_element b) = 1")
    case True
    with a have "\<forall>g\<in>set PRODUCTION_GROUPS. \<not> g (fst lhs)" by blast
    then have "is_matched_pair (fst lhs) (hd b) = Inr False"
      unfolding is_matched_pair_def by (rule matched_in_no_lhs)
    with True show ?thesis
      by (simp add: default_reducer_def method_name_of_def)
  next
    case False
    then show ?thesis
      by (auto simp: default_reducer_def method_name_of_def)
  qed
qed

lemma group_simps:
  "group_expression ''Expression''" "group_expression ''PrimaryExpression''"
  "group_statement ''Statement''" "group_statement ''ExpressionStatement''"
  "\<not> group_expression ''Statement''" "\<not> group_method ''Statement''"
  by (simp_all add: group_expression_def group_statement_def group_method_def
      search_end_def search_whole_def endswith_def)

theorem default_reducer_cases_witness:
  "default_reducer (''Expression'', []) 0 [Str ''PrimaryExpression''] True = Inr (Index 0)
   \<and> default_reducer (''Statement'', []) 3
        [Lookahead (LookaheadRule {''function''} False), Str ''ExpressionStatement''] False
       = Inr (CallMethod ''Statement 3'' [Index 0])"
proof -
  have g: "\<exists>g\<in>set PRODUCTION_GROUPS. g ''Expression'' \<and> g ''PrimaryExpression''"
    by (simp add: PRODUCTION_GROUPS_def group_simps)
  have s3: "str_nat 3 = ''3''"
    by (simp add: str_nat.simps digit_char_def)
  have "default_reducer (''Expression'', []) 0 [Str ''PrimaryExpression''] True = Inr (Index 0)"
    using default_reducer_cases
      [of "[Str ''PrimaryExpression'']" "''PrimaryExpression''" "(''Expression'', [])" 0 True] g
    by simp
  moreover have "default_reducer (''Statement'', []) 3
        [Lookahead (LookaheadRule {''function''} False), Str ''ExpressionStatement''] False
       = Inr (CallMethod ''Statement 3'' [Index 0])"
    using default_reducer_cases
      [of "[Lookahead (LookaheadRule {''function''} False), Str ''ExpressionStatement'']" s
          "(''Statement'', [])" 3 False] s3
    by (simp add: upt_rec)
  ultimately show ?thesis by simp
qed

text \<open>
  The body \<^verbatim>\<open>[lookahead != function] ExpressionStatement\<close> of \<^verbatim>\<open>Statement\<close> contains
  exactly one element that contributes a stack value, and both names match the
  statement group; the reducer is a method call all the same, because the body has two
  elements.
\<close>

theorem default_reducer_counterexample:
  "length (filter is_concrete_element
      [Lookahead (LookaheadRule {''function''} False), Str ''ExpressionStatement'']) = 1
   \<and> group_statement ''Statement'' \<and> group_statement ''ExpressionStatement''
   \<and> default_reducer (''Statement'', []) 0
        [Lookahead (LookaheadRule {''function''} False), Str ''ExpressionStatement''] True
       = Inr (CallMethod ''Statement'' [Index 0])"
  by (simp add: group_simps default_reducer_def method_name_of_def)


section \<open>The two alternatives of a split production\<close>




section \<open>Assembly of the grammar (finish\_grammar)\<close>

lemma dict_set_fresh: "k \<notin> fst ` set d \<Longrightarrow> dict_set d k v = d @ [(k, v)]"
  by (induction d) auto

lemma map_of_markers_None:
  "n \<notin> fst ` set defs \<Longrightarrow> map_of (map (\<lambda>(n, e, v). (n, e)) defs) n = None"
  by (induction defs) (auto split: prod.splits)

lemma nt_grammars_of_distinct:
  "distinct (map fst defs) \<Longrightarrow> fst ` set defs \<inter> dom m = {} \<Longrightarrow>
   nt_grammars_of defs m =
     Inr (\<lambda>x. case map_of (map (\<lambda>(n, e, v). (n, e)) defs) x of
                Some e \<Rightarrow> Some e | None \<Rightarrow> m x)"
proof (induction defs arbitrary: m)
  case Nil
  then show ?case by simp
next
  case (Cons a defs)
  obtain n e v where a: "a = (n, e, v)" by (cases a)
  from Cons.prems a have fresh: "n \<notin> dom m" and d: "distinct (map fst defs)"
    and nn: "n \<notin> fst ` set defs" by auto
  from Cons.prems a nn have disj: "fst ` set defs \<inter> dom (m(n \<mapsto> e)) = {}" by auto
  have none: "map_of (map (\<lambda>(n, e, v). (n, e)) defs) n = None"
    using nn by (rule map_of_markers_None)
  have "(\<lambda>x. case map_of (map (\<lambda>(n, e, v). (n, e)) defs) x of
                Some e \<Rightarrow> Some e | None \<Rightarrow> (m(n \<mapsto> e)) x)
        = (\<lambda>x. case map_of (map (\<lambda>(n, e, v). (n, e)) ((n, e, v) # defs)) x of
                Some e \<Rightarrow> Some e | None \<Rightarrow> m x)"
    using none by (auto simp: fun_eq_iff split: option.splits)
  moreover have "nt_grammars_of (a # defs) m = nt_grammars_of defs (m(n \<mapsto> e))"
    using fresh a by simp
  ultimately show ?case
    using Cons.IH [OF d disj] a by simp
qed

lemma goal_grammars_defined:
  "set goals \<subseteq> dom m \<Longrightarrow> goal_grammars m goals = Inr (map (\<lambda>g. the (m g)) goals)"
  by (induction goals) auto

lemma remdups_uniform:
  "eqs \<noteq> [] \<Longrightarrow> set eqs = {s} \<Longrightarrow> remdups eqs = [s]"
proof -
  assume a: "eqs \<noteq> []" "set eqs = {s}"
  have "distinct (remdups eqs)" "set (remdups eqs) = {s}" using a by simp_all
  then show ?thesis
    by (cases "remdups eqs") (auto simp: insert_eq_iff dest: subset_singletonD)
qed

lemma remdups_mixed:
  assumes "a \<in> set eqs" "b \<in> set eqs" "a \<noteq> b"
  shows "\<exists>x y zs. remdups eqs = x # y # zs"
proof -
  have "card (set eqs) \<ge> 2"
  proof -
    have "{a, b} \<subseteq> set eqs" using assms by simp
    then have "card {a, b} \<le> card (set eqs)" by (intro card_mono) simp_all
    with assms(3) show ?thesis by simp
  qed
  then have "length (remdups eqs) \<ge> 2" by (simp add: length_remdups_card_conv)
  then show ?thesis
    by (cases "remdups eqs"; cases "tl (remdups eqs)") auto
qed


lemma collect_nonterminals_NtDefs:
  assumes "\<forall>x\<in>set defs. \<exists>d. snd (snd x) = NtDef d"
    and "distinct (map fst defs)"
    and "fst ` set defs \<inter> fst ` set acc = {}"
    and "\<And>e. P e = (case selected of None \<Rightarrow> False | Some s \<Rightarrow> e \<noteq> s \<and> s = '':'')"
  shows "collect_nonterminals selected defs acc vt =
     Inr (acc @ map (\<lambda>(n, e, v). (n, v)) (filter (\<lambda>(n, e, v). \<not> P e) defs),
          vt \<union> fst ` set (filter (\<lambda>(n, e, v). P e) defs))"
  using assms(1-3)
proof (induction defs arbitrary: acc vt)
  case Nil
  then show ?case by simp
next
  case (Cons a defs)
  obtain n e v where a: "a = (n, e, v)" by (cases a)
  from Cons.prems a obtain d where v: "v = NtDef d" by auto
  from Cons.prems a have nd: "\<forall>x\<in>set defs. \<exists>d. snd (snd x) = NtDef d"
    and dist: "distinct (map fst defs)" and nn: "n \<notin> fst ` set defs"
    and fresh: "n \<notin> fst ` set acc" and disj: "fst ` set defs \<inter> fst ` set acc = {}"
    by auto
  show ?case
  proof (cases "P e")
    case True
    then have c: "(case selected of None \<Rightarrow> False | Some s \<Rightarrow> e \<noteq> s \<and> s = '':'')"
      using assms(4) by simp
    have "collect_nonterminals selected (a # defs) acc vt
          = collect_nonterminals selected defs acc (insert n vt)"
      using c a by simp
    also have "\<dots> = Inr (acc @ map (\<lambda>(n, e, v). (n, v)) (filter (\<lambda>(n, e, v). \<not> P e) defs),
          insert n vt \<union> fst ` set (filter (\<lambda>(n, e, v). P e) defs))"
      by (rule Cons.IH [OF nd dist disj])
    finally show ?thesis using True a by simp
  next
    case False
    then have c: "\<not> (case selected of None \<Rightarrow> False | Some s \<Rightarrow> e \<noteq> s \<and> s = '':'')"
      using assms(4) by simp
    have disj': "fst ` set defs \<inter> fst ` set (acc @ [(n, v)]) = {}"
      using disj nn by auto
    have "collect_nonterminals selected (a # defs) acc vt
          = collect_nonterminals selected defs (acc @ [(n, v)]) vt"
      using c a v dict_set_fresh [OF fresh] by simp
    also have "\<dots> = Inr ((acc @ [(n, v)]) @
            map (\<lambda>(n, e, v). (n, v)) (filter (\<lambda>(n, e, v). \<not> P e) defs),
          vt \<union> fst ` set (filter (\<lambda>(n, e, v). P e) defs))"
      by (rule Cons.IH [OF nd dist disj'])
    finally show ?thesis using False a by simp
  qed
qed


lemma select_grammar_mixed:
  assumes "set goals \<subseteq> dom m" and "g \<in> set goals" and "h \<in> set goals" and "m g \<noteq> m h"
  shows "select_grammar m goals = Inl MixedGrammarGoals"
proof -
  let ?eqs = "map (\<lambda>g. the (m g)) goals"
  have gg: "goal_grammars m goals = Inr ?eqs"
    using assms(1) by (rule goal_grammars_defined)
  from assms(1,2) obtain a where a: "m g = Some a" by blast
  from assms(1,3) obtain b where b: "m h = Some b" by blast
  have "a = the (m g)" using a by simp
  then have ia: "a \<in> set ?eqs" using assms(2) by (simp add: image_iff) blast
  have "b = the (m h)" using b by simp
  then have ib: "b \<in> set ?eqs" using assms(3) by (simp add: image_iff) blast
  from a b assms(4) have ne: "a \<noteq> b" by simp
  obtain x y zs where r: "remdups ?eqs = x # y # zs"
    using remdups_mixed [OF ia ib ne] by blast
  show ?thesis
    using gg r by (simp add: select_grammar_def)
qed

lemma select_grammar_uniform:
  assumes "goals \<noteq> []" and "\<forall>g\<in>set goals. m g = Some sel"
  shows "select_grammar m goals = Inr sel"
proof -
  let ?eqs = "map (\<lambda>g. the (m g)) goals"
  from assms(2) have "set goals \<subseteq> dom m" by blast
  then have gg: "goal_grammars m goals = Inr ?eqs"
    by (rule goal_grammars_defined)
  from assms(2) have "?eqs = map (\<lambda>g. sel) goals" by simp
  then have "set ?eqs = (\<lambda>g. sel) ` set goals" by simp
  also from assms(1) have "\<dots> = {sel}" by (cases goals) auto
  finally have "set ?eqs = {sel}" .
  moreover from assms(1) have "?eqs \<noteq> []" by simp
  ultimately have r: "remdups ?eqs = [sel]" by (rule remdups_uniform [rotated])
  show ?thesis
    using gg r by (simp add: select_grammar_def)
qed


lemma markers_of_distinct:
  assumes "distinct (map fst defs)"
  shows "nt_grammars_of defs Map.empty = Inr (map_of (map (\<lambda>(n, e, v). (n, e)) defs))"
proof -
  have "(\<lambda>x. case map_of (map (\<lambda>(n, e, v). (n, e)) defs) x of
                Some e \<Rightarrow> Some e | None \<Rightarrow> Map.empty x)
        = map_of (map (\<lambda>(n, e, v). (n, e)) defs)"
    by (auto simp: fun_eq_iff split: option.splits)
  with nt_grammars_of_distinct [OF assms, of Map.empty] show ?thesis by simp
qed

lemma dom_markers: "dom (map_of (map (\<lambda>(n, e, v). (n, e)) defs)) = fst ` set defs"
  by (simp add: dom_map_of_conv_image_fst image_image split_beta)

lemma filter_all: "filter (\<lambda>(n, e, v). \<not> False) xs = xs"
  by (induction xs) auto

lemma filter_none: "filter (\<lambda>(n, e, v). False) xs = []"
  by (induction xs) auto

text \<open>
  Claim C7, as amended. Take triples with distinct names whose definitions are
  \<^verbatim>\<open>NtDef\<close>s, as the desugarer builds them, a non-empty list of goals that are all
  defined, and \<^verbatim>\<open>single_grammar\<close> true. When two goals have different grammar
  markers, \<^verbatim>\<open>finish_grammar\<close> raises the mixed-goals error, whatever the \<^verbatim>\<open>Grammar\<close>
  constructor is: it is not called. When the goals' marker is \<^verbatim>\<open>:\<close>, every nonterminal
  with another marker is left out of the nonterminal mapping and put in the
  variable-terminal set handed to the constructor. When the goals' marker is anything
  else, every nonterminal is kept and the variable-terminal set is empty.
\<close>

theorem finish_grammar_single:
  assumes "distinct (map fst nt_defs)"
    and "goals \<noteq> []"
    and "set goals \<subseteq> fst ` set nt_defs"
    and "\<forall>x\<in>set nt_defs. \<exists>d. snd (snd x) = NtDef d"
  shows
    "((\<exists>g\<in>set goals. \<exists>h\<in>set goals.
         map_of (map (\<lambda>(n, e, v). (n, e)) nt_defs) g \<noteq> map_of (map (\<lambda>(n, e, v). (n, e)) nt_defs) h)
       \<longrightarrow> finish_grammar Grammar' nt_defs goals synthetic_terminals True = Inl MixedGrammarGoals)
     \<and> ((\<forall>g\<in>set goals. map_of (map (\<lambda>(n, e, v). (n, e)) nt_defs) g = Some '':'')
       \<longrightarrow> finish_grammar Grammar' nt_defs goals synthetic_terminals True =
           Grammar' (map (\<lambda>(n, e, v). (n, v)) (filter (\<lambda>(n, e, v). e = '':'') nt_defs)) goals
             (fst ` set (filter (\<lambda>(n, e, v). e \<noteq> '':'') nt_defs)) synthetic_terminals)
     \<and> ((\<forall>g\<in>set goals. map_of (map (\<lambda>(n, e, v). (n, e)) nt_defs) g = Some sel) \<and> sel \<noteq> '':''
       \<longrightarrow> finish_grammar Grammar' nt_defs goals synthetic_terminals True =
           Grammar' (map (\<lambda>(n, e, v). (n, v)) nt_defs) goals {} synthetic_terminals)"
proof (intro conjI impI)
  let ?m = "map_of (map (\<lambda>(n, e, v). (n, e)) nt_defs)"
  have ng: "nt_grammars_of nt_defs Map.empty = Inr ?m"
    using assms(1) by (rule markers_of_distinct)
  have dom: "set goals \<subseteq> dom ?m" using assms(3) by (simp only: dom_markers)
  have len: "length goals \<noteq> 0" using assms(2) by simp
  have disj: "fst ` set nt_defs \<inter> fst ` set ([] :: (string \<times> 'a nt_value) list) = {}" by simp
  {
    assume "\<exists>g\<in>set goals. \<exists>h\<in>set goals. ?m g \<noteq> ?m h"
    then obtain g h where "g \<in> set goals" "h \<in> set goals" "?m g \<noteq> ?m h" by blast
    then have s: "select_grammar ?m goals = Inl MixedGrammarGoals"
      by (rule select_grammar_mixed [OF dom])
    show "finish_grammar Grammar' nt_defs goals synthetic_terminals True = Inl MixedGrammarGoals"
      unfolding finish_grammar_def using ng len s by simp
  }
  {
    assume u: "\<forall>g\<in>set goals. ?m g = Some '':''"
    have s: "select_grammar ?m goals = Inr '':''"
      using assms(2) u by (rule select_grammar_uniform)
    have c: "collect_nonterminals (Some '':'') nt_defs [] {} =
       Inr ([] @ map (\<lambda>(n, e, v). (n, v)) (filter (\<lambda>(n, e, v). \<not> e \<noteq> '':'') nt_defs),
            {} \<union> fst ` set (filter (\<lambda>(n, e, v). e \<noteq> '':'') nt_defs))"
      by (rule collect_nonterminals_NtDefs [OF assms(4) assms(1) disj]) simp
    show "finish_grammar Grammar' nt_defs goals synthetic_terminals True =
           Grammar' (map (\<lambda>(n, e, v). (n, v)) (filter (\<lambda>(n, e, v). e = '':'') nt_defs)) goals
             (fst ` set (filter (\<lambda>(n, e, v). e \<noteq> '':'') nt_defs)) synthetic_terminals"
      unfolding finish_grammar_def using ng len s c by simp
  }
  {
    assume u: "(\<forall>g\<in>set goals. ?m g = Some sel) \<and> sel \<noteq> '':''"
    then have u1: "\<forall>g\<in>set goals. ?m g = Some sel" and u2: "sel \<noteq> '':''" by simp_all
    have s: "select_grammar ?m goals = Inr sel"
      using assms(2) u1 by (rule select_grammar_uniform)
    have c: "collect_nonterminals (Some sel) nt_defs [] {} =
       Inr ([] @ map (\<lambda>(n, e, v). (n, v)) (filter (\<lambda>(n, e, v). \<not> False) nt_defs),
            {} \<union> fst ` set (filter (\<lambda>(n, e, v). False) nt_defs))"
      by (rule collect_nonterminals_NtDefs [OF assms(4) assms(1) disj]) (simp add: u2)
    then have c': "collect_nonterminals (Some sel) nt_defs [] {} =
       Inr (map (\<lambda>(n, e, v). (n, v)) nt_defs, {})"
      by (simp only: filter_all filter_none append_Nil list.set image_empty Un_empty_right)
    show "finish_grammar Grammar' nt_defs goals synthetic_terminals True =
           Grammar' (map (\<lambda>(n, e, v). (n, v)) nt_defs) goals {} synthetic_terminals"
      unfolding finish_grammar_def using ng len s c' by simp
  }
qed


theorem finish_grammar_single_witness:
  "finish_grammar (\<lambda>n g v s. Inr (n, g, v, s))
      [(''Script'', '':'', NtDef (1::nat)), (''IdentifierName'', ''::'', NtDef 2)]
      [''Script'', ''IdentifierName''] () True = Inl MixedGrammarGoals
   \<and> finish_grammar (\<lambda>n g v s. Inr (n, g, v, s))
      [(''Script'', '':'', NtDef (1::nat)), (''IdentifierName'', ''::'', NtDef 2)]
      [''Script''] () True
      = Inr ([(''Script'', NtDef 1)], [''Script''], {''IdentifierName''}, ())
   \<and> finish_grammar (\<lambda>n g v s. Inr (n, g, v, s))
      [(''Script'', '':'', NtDef (1::nat)), (''IdentifierName'', ''::'', NtDef 2)]
      [''IdentifierName''] () True
      = Inr ([(''Script'', NtDef 1), (''IdentifierName'', NtDef 2)], [''IdentifierName''], {}, ())"
proof -
  let ?G = "\<lambda>(n :: (string \<times> nat nt_value) list) (g :: string list) (v :: string set) (s :: unit).
              (Inr (n, g, v, s) :: error + _)"
  let ?d = "[(''Script'', '':'', NtDef (1::nat)), (''IdentifierName'', ''::'', NtDef 2)]"
  let ?m = "map_of (map (\<lambda>(n, e, v). (n, e)) ?d)"
  have d: "distinct (map fst ?d)" by simp
  have n: "\<forall>x\<in>set ?d. \<exists>d. snd (snd x) = NtDef d" by simp
  have a: "finish_grammar ?G ?d [''Script'', ''IdentifierName''] () True = Inl MixedGrammarGoals"
  proof -
    have g: "[''Script'', ''IdentifierName''] \<noteq> []" by simp
    have sub: "set [''Script'', ''IdentifierName''] \<subseteq> fst ` set ?d" by simp
    have "?m ''Script'' \<noteq> ?m ''IdentifierName''" by simp
    then have prem: "\<exists>g\<in>set [''Script'', ''IdentifierName''].
        \<exists>h\<in>set [''Script'', ''IdentifierName'']. ?m g \<noteq> ?m h"
      by (intro bexI [of _ "''Script''"] bexI [of _ "''IdentifierName''"]) simp_all
    from finish_grammar_single [OF d g sub n, of ?G "()" sel, THEN conjunct1] prem
    show ?thesis by (rule mp)
  qed
  have b: "finish_grammar ?G ?d [''Script''] () True
      = Inr ([(''Script'', NtDef 1)], [''Script''], {''IdentifierName''}, ())"
  proof -
    have g: "[''Script''] \<noteq> []" by simp
    have sub: "set [''Script''] \<subseteq> fst ` set ?d" by simp
    have prem: "\<forall>g\<in>set [''Script'']. ?m g = Some '':''" by simp
    from finish_grammar_single [OF d g sub n, of ?G "()" sel, THEN conjunct2, THEN conjunct1] prem
    have "finish_grammar ?G ?d [''Script''] () True =
       ?G (map (\<lambda>(n, e, v). (n, v)) (filter (\<lambda>(n, e, v). e = '':'') ?d)) [''Script'']
          (fst ` set (filter (\<lambda>(n, e, v). e \<noteq> '':'') ?d)) ()"
      by (rule mp)
    then show ?thesis by simp
  qed
  have c: "finish_grammar ?G ?d [''IdentifierName''] () True
      = Inr ([(''Script'', NtDef 1), (''IdentifierName'', NtDef 2)], [''IdentifierName''], {}, ())"
  proof -
    have g: "[''IdentifierName''] \<noteq> []" by simp
    have sub: "set [''IdentifierName''] \<subseteq> fst ` set ?d" by simp
    have prem: "(\<forall>g\<in>set [''IdentifierName'']. ?m g = Some ''::'') \<and> ''::'' \<noteq> '':''" by simp
    from finish_grammar_single [OF d g sub n, of ?G "()" "''::''", THEN conjunct2, THEN conjunct2]
      prem
    have "finish_grammar ?G ?d [''IdentifierName''] () True =
       ?G (map (\<lambda>(n, e, v). (n, v)) ?d) [''IdentifierName''] {} ()"
      by (rule mp)
    then show ?thesis by simp
  qed
  from a b c show ?thesis by simp
qed

text \<open>
  With a goal of the lexical grammar (\<^verbatim>\<open>::\<close>), the nonterminal \<^verbatim>\<open>Script\<close> of the
  syntactic grammar is not folded into the variable terminals: it stays a nonterminal
  and the variable-terminal set is empty.
\<close>

theorem finish_grammar_lexical_counterexample:
  "finish_grammar (\<lambda>n g v s. Inr (n, g, v, s))
      [(''Script'', '':'', NtDef (1::nat)), (''IdentifierName'', ''::'', NtDef 2)]
      [''IdentifierName''] () True
   = Inr ([(''Script'', NtDef 1), (''IdentifierName'', NtDef 2)], [''IdentifierName''], {}, ())"
  by (simp add: finish_grammar_def select_grammar_def)

section \<open>Camel-case spellings in the static backend\<close>

lemma set_foldl_ordered_add: "set (foldl ordered_add acc xs) = set acc \<union> set xs"
  by (induction xs arbitrary: acc) (auto simp: ordered_add_def)

lemma distinct_foldl_ordered_add: "distinct acc \<Longrightarrow> distinct (foldl ordered_add acc xs)"
  by (induction xs arbitrary: acc) (auto simp: ordered_add_def)

lemma set_OrderedSet: "set (OrderedSet xs) = set xs"
  by (simp add: OrderedSet_def set_foldl_ordered_add)

lemma distinct_OrderedSet: "distinct (OrderedSet xs)"
  by (simp add: OrderedSet_def distinct_foldl_ordered_add)

lemma check_camel_case_loop_result:
  assumes "\<And>nt. nt \<in> set nts \<Longrightarrow> nonterminal_to_camel nt = Inr (cc nt)"
    and "\<And>k v. seen k = Some v \<Longrightarrow> v \<in> set pre \<and> cc v = k"
    and "\<And>v. v \<in> set pre \<Longrightarrow> seen (cc v) \<noteq> None"
    and "distinct (pre @ nts)"
  shows "(check_camel_case_loop nts seen = Inr () \<and> distinct (map cc nts)
            \<and> cc ` set nts \<inter> cc ` set pre = {})
       \<or> (\<exists>x y. check_camel_case_loop nts seen = Inl (AmbiguousIdentifierSpelling x y (cc y))
              \<and> x \<in> set (pre @ nts) \<and> y \<in> set nts \<and> x \<noteq> y \<and> cc x = cc y)"
  using assms
proof (induction nts arbitrary: seen pre)
  case Nil
  then show ?case by simp
next
  case (Cons nt nts)
  have conv: "nonterminal_to_camel nt = Inr (cc nt)" using Cons.prems(1) by simp
  show ?case
  proof (cases "seen (cc nt)")
    case (Some other)
    with Cons.prems(2) have o: "other \<in> set pre" "cc other = cc nt" by blast+
    from Cons.prems(4) have "nt \<notin> set pre" by auto
    with o have "other \<noteq> nt" by blast
    moreover have "check_camel_case_loop (nt # nts) seen
        = Inl (AmbiguousIdentifierSpelling other nt (cc nt))"
      using conv Some by simp
    ultimately show ?thesis using o by auto
  next
    case None
    let ?seen = "seen(cc nt \<mapsto> nt)"
    let ?pre = "pre @ [nt]"
    have step: "check_camel_case_loop (nt # nts) seen = check_camel_case_loop nts ?seen"
      using conv None by simp
    have p1: "\<And>n. n \<in> set nts \<Longrightarrow> nonterminal_to_camel n = Inr (cc n)"
      using Cons.prems(1) by simp
    have p2: "\<And>k v. ?seen k = Some v \<Longrightarrow> v \<in> set ?pre \<and> cc v = k"
      using Cons.prems(2) by (auto split: if_splits)
    have p3: "\<And>v. v \<in> set ?pre \<Longrightarrow> ?seen (cc v) \<noteq> None"
      using Cons.prems(3) by auto
    have p4: "distinct (?pre @ nts)" using Cons.prems(4) by simp
    have fresh: "cc nt \<notin> cc ` set pre"
    proof
      assume "cc nt \<in> cc ` set pre"
      then obtain v where "v \<in> set pre" "cc v = cc nt" by auto
      with Cons.prems(3) [of v] None show False by simp
    qed
    from Cons.IH [of ?seen ?pre, OF p1 p2 p3 p4]
    show ?thesis
    proof
      assume a: "check_camel_case_loop nts ?seen = Inr () \<and> distinct (map cc nts)
            \<and> cc ` set nts \<inter> cc ` set ?pre = {}"
      then have "cc nt \<notin> cc ` set nts" by auto
      with a fresh step show ?thesis by auto
    next
      assume "\<exists>x y. check_camel_case_loop nts ?seen
                = Inl (AmbiguousIdentifierSpelling x y (cc y))
              \<and> x \<in> set (?pre @ nts) \<and> y \<in> set nts \<and> x \<noteq> y \<and> cc x = cc y"
      then obtain x y where xy: "check_camel_case_loop nts ?seen
                = Inl (AmbiguousIdentifierSpelling x y (cc y))"
        "x \<in> set (?pre @ nts)" "y \<in> set nts" "x \<noteq> y" "cc x = cc y" by blast
      have "x \<in> set (pre @ nt # nts)" "y \<in> set (nt # nts)" using xy(2,3) by auto
      with xy step show ?thesis by metis
    qed
  qed
qed

lemma check_camel_case_result:
  assumes "\<And>nt. nt \<in> set nts \<Longrightarrow> nonterminal_to_camel nt = Inr (cc nt)"
    and "distinct nts"
  shows "(check_camel_case nts = Inr () \<and> distinct (map cc nts))
       \<or> (\<exists>x y. check_camel_case nts = Inl (AmbiguousIdentifierSpelling x y (cc y))
              \<and> x \<in> set nts \<and> y \<in> set nts \<and> x \<noteq> y \<and> cc x = cc y)"
proof -
  have d: "distinct ([] @ nts)" using assms(2) by simp
  have e1: "\<And>k v. Map.empty k = Some v \<Longrightarrow> v \<in> set [] \<and> cc v = k" by simp
  have e2: "\<And>v. v \<in> set [] \<Longrightarrow> Map.empty (cc v) \<noteq> None" by simp
  from check_camel_case_loop_result [of nts cc Map.empty "[]", OF assms(1) e1 e2 d]
  show ?thesis unfolding check_camel_case_def by auto
qed


lemma run_steps_append:
  "run_steps (xs @ ys) out =
     (case run_steps xs out of
        (out', r) \<Rightarrow>
          (case r of Some err \<Rightarrow> (out', Some err) | None \<Rightarrow> run_steps ys out'))"
  by (induction xs arbitrary: out) (auto split: prod.splits option.splits)

lemma emit_unfold:
  "emit w out =
     (case run_steps [write_header w, write_terminal_id w, write_token w, write_actions w] out of
        (out', r) \<Rightarrow>
          (case r of
             Some err \<Rightarrow> (out', Some err)
           | None \<Rightarrow>
               (case check_camel_case (writer_nonterminals (ctn_rows w)) of
                  Inl err \<Rightarrow> (out', Some err)
                | Inr u \<Rightarrow>
                    run_steps [write_handler_trait w, write_nt_node w, write_nt_node_impl w,
                       write_nonterminal_id w, write_goto w, write_reduce w False,
                       write_entry w False] out')))"
proof -
  let ?pre = "[write_header w, write_terminal_id w, write_token w, write_actions w]"
  let ?check = "\<lambda>out. (out, case check_camel_case (writer_nonterminals (ctn_rows w)) of
                         Inl err \<Rightarrow> Some err
                       | Inr u \<Rightarrow> None)"
  let ?post = "[write_handler_trait w, write_nt_node w, write_nt_node_impl w,
                  write_nonterminal_id w, write_goto w, write_reduce w False,
                  write_entry w False]"
  have "emit w out = run_steps (?pre @ ?check # ?post) out"
    by (simp add: emit_def)
  also have "\<dots> = (case run_steps ?pre out of
        (out', r) \<Rightarrow>
          (case r of Some err \<Rightarrow> (out', Some err)
           | None \<Rightarrow> run_steps (?check # ?post) out'))"
    by (rule run_steps_append)
  also have "\<dots> = (case run_steps ?pre out of
        (out', r) \<Rightarrow>
          (case r of
             Some err \<Rightarrow> (out', Some err)
           | None \<Rightarrow>
               (case check_camel_case (writer_nonterminals (ctn_rows w)) of
                  Inl err \<Rightarrow> (out', Some err)
                | Inr u \<Rightarrow> run_steps ?post out')))"
    by (cases "check_camel_case (writer_nonterminals (ctn_rows w))")
       (simp_all split: prod.splits option.splits)
  finally show ?thesis .
qed

text \<open>
  Claim C8, as amended. The nonterminals of the writer are the distinct keys of the
  states' \<^verbatim>\<open>ctn_row\<close>s; let each of them have a camel-case spelling \<open>cc nt\<close>.
  \<^verbatim>\<open>emit\<close> runs \<^verbatim>\<open>check_camel_case\<close> after it has written the header and the
  terminal, token and action tables, and before every declaration that spells a
  nonterminal (the handler trait, the node types, \<^verbatim>\<open>NonterminalId\<close>, the goto table,
  \<^verbatim>\<open>reduce\<close> and the entry points). When the spellings are pairwise distinct, the check
  passes and \<^verbatim>\<open>emit\<close> goes on with the remaining writers. When two distinct
  nonterminals have the same spelling, the check raises the error that names two distinct
  nonterminals with one spelling and that spelling, and \<^verbatim>\<open>emit\<close> stops with it: the
  output is what the first four writers wrote, and no later writer runs.
\<close>

theorem check_camel_case_emit:
  assumes "\<forall>nt\<in>set (concat (ctn_rows w)). nonterminal_to_camel nt = Inr (cc nt)"
  shows
    "(inj_on cc (set (concat (ctn_rows w))) \<longrightarrow>
        check_camel_case (writer_nonterminals (ctn_rows w)) = Inr ()
        \<and> emit w out =
            run_steps [write_header w, write_terminal_id w, write_token w, write_actions w,
              write_handler_trait w, write_nt_node w, write_nt_node_impl w,
              write_nonterminal_id w, write_goto w, write_reduce w False,
              write_entry w False] out)
     \<and> (\<not> inj_on cc (set (concat (ctn_rows w))) \<longrightarrow>
        (\<exists>x y. x \<in> set (concat (ctn_rows w)) \<and> y \<in> set (concat (ctn_rows w))
           \<and> x \<noteq> y \<and> cc x = cc y
           \<and> check_camel_case (writer_nonterminals (ctn_rows w))
               = Inl (AmbiguousIdentifierSpelling x y (cc y))
           \<and> emit w out =
               (case run_steps [write_header w, write_terminal_id w, write_token w,
                                write_actions w] out of
                  (out', r) \<Rightarrow>
                    (out', case r of
                             Some err \<Rightarrow> Some err
                           | None \<Rightarrow> Some (AmbiguousIdentifierSpelling x y (cc y))))))"
proof -
  let ?xs = "concat (ctn_rows w)"
  let ?nts = "writer_nonterminals (ctn_rows w)"
  have set_nts: "set ?nts = set ?xs"
    by (simp add: writer_nonterminals_def set_OrderedSet)
  have dist: "distinct ?nts"
    by (simp add: writer_nonterminals_def distinct_OrderedSet)
  have conv: "\<And>nt. nt \<in> set ?nts \<Longrightarrow> nonterminal_to_camel nt = Inr (cc nt)"
    using assms set_nts by blast
  note r = check_camel_case_result [of ?nts cc, OF conv dist]
  have pass: "check_camel_case ?nts = Inr ()" if inj: "inj_on cc (set ?xs)"
  proof -
    have "\<not> (\<exists>x y. check_camel_case ?nts = Inl (AmbiguousIdentifierSpelling x y (cc y))
              \<and> x \<in> set ?nts \<and> y \<in> set ?nts \<and> x \<noteq> y \<and> cc x = cc y)"
      using inj set_nts by (auto dest: inj_onD)
    with r show ?thesis by blast
  qed
  have fail: "\<exists>x y. x \<in> set ?xs \<and> y \<in> set ?xs \<and> x \<noteq> y \<and> cc x = cc y
           \<and> check_camel_case ?nts = Inl (AmbiguousIdentifierSpelling x y (cc y))"
    if ninj: "\<not> inj_on cc (set ?xs)"
  proof -
    have "\<not> distinct (map cc ?nts)"
      using ninj set_nts dist by (simp add: distinct_map)
    with r obtain x y where "check_camel_case ?nts = Inl (AmbiguousIdentifierSpelling x y (cc y))"
      "x \<in> set ?nts" "y \<in> set ?nts" "x \<noteq> y" "cc x = cc y" by blast
    with set_nts show ?thesis by blast
  qed
  show ?thesis
  proof (intro conjI impI)
    assume inj: "inj_on cc (set ?xs)"
    let ?pre = "[write_header w, write_terminal_id w, write_token w, write_actions w]"
    let ?post = "[write_handler_trait w, write_nt_node w, write_nt_node_impl w,
              write_nonterminal_id w, write_goto w, write_reduce w False,
              write_entry w False]"
    show p: "check_camel_case ?nts = Inr ()" using inj by (rule pass)
    have "emit w out = (case run_steps ?pre out of
        (out', r) \<Rightarrow>
          (case r of Some err \<Rightarrow> (out', Some err) | None \<Rightarrow> run_steps ?post out'))"
      by (simp only: emit_unfold p sum.case)
    also have "\<dots> = run_steps (?pre @ ?post) out"
      by (rule run_steps_append [symmetric])
    also have "?pre @ ?post = [write_header w, write_terminal_id w, write_token w,
              write_actions w,
              write_handler_trait w, write_nt_node w, write_nt_node_impl w,
              write_nonterminal_id w, write_goto w, write_reduce w False,
              write_entry w False]"
      by simp
    finally show "emit w out =
            run_steps [write_header w, write_terminal_id w, write_token w, write_actions w,
              write_handler_trait w, write_nt_node w, write_nt_node_impl w,
              write_nonterminal_id w, write_goto w, write_reduce w False,
              write_entry w False] out" .
  next
    assume "\<not> inj_on cc (set ?xs)"
    then obtain x y where xy: "x \<in> set ?xs" "y \<in> set ?xs" "x \<noteq> y" "cc x = cc y"
      "check_camel_case ?nts = Inl (AmbiguousIdentifierSpelling x y (cc y))"
      using fail by blast
    have "emit w out =
               (case run_steps [write_header w, write_terminal_id w, write_token w,
                                write_actions w] out of
                  (out', r) \<Rightarrow>
                    (case r of
                       Some err \<Rightarrow> (out', Some err)
                     | None \<Rightarrow> (out', Some (AmbiguousIdentifierSpelling x y (cc y)))))"
      by (simp only: emit_unfold xy(5) sum.case)
    also have "\<dots> =
               (case run_steps [write_header w, write_terminal_id w, write_token w,
                                write_actions w] out of
                  (out', r) \<Rightarrow>
                    (out', case r of
                             Some err \<Rightarrow> Some err
                           | None \<Rightarrow> Some (AmbiguousIdentifierSpelling x y (cc y))))"
      by (simp split: prod.splits option.splits)
    finally have e: "emit w out =
               (case run_steps [write_header w, write_terminal_id w, write_token w,
                                write_actions w] out of
                  (out', r) \<Rightarrow>
                    (out', case r of
                             Some err \<Rightarrow> Some err
                           | None \<Rightarrow> Some (AmbiguousIdentifierSpelling x y (cc y))))" .
    from xy e show "\<exists>x y. x \<in> set ?xs \<and> y \<in> set ?xs
           \<and> x \<noteq> y \<and> cc x = cc y
           \<and> check_camel_case ?nts = Inl (AmbiguousIdentifierSpelling x y (cc y))
           \<and> emit w out =
               (case run_steps [write_header w, write_terminal_id w, write_token w,
                                write_actions w] out of
                  (out', r) \<Rightarrow>
                    (out', case r of
                             Some err \<Rightarrow> Some err
                           | None \<Rightarrow> Some (AmbiguousIdentifierSpelling x y (cc y))))"
      by (intro exI [of _ x] exI [of _ y] conjI)
  qed
qed

lemma camel_examples:
  "nonterminal_to_camel (IdStr ''Foo_Bar'') = Inr ''FooBar''"
  "nonterminal_to_camel (IdStr ''FooBar'') = Inr ''FooBar''"
  "nonterminal_to_camel (IdStr ''expr'') = Inr ''Expr''"
  "nonterminal_to_camel (IdStr ''term'') = Inr ''Term''"
  by code_simp+

theorem check_camel_case_emit_witness:
  "(\<exists>x y. x \<noteq> y
      \<and> emit \<lparr>ctn_rows = [[IdStr ''Foo_Bar''], [IdStr ''FooBar'']],
              write_header = (\<lambda>out. (out @ [''header''], None)),
              write_terminal_id = (\<lambda>out. (out @ [''terminal_id''], None)),
              write_token = (\<lambda>out. (out @ [''token''], None)),
              write_actions = (\<lambda>out. (out @ [''actions''], None)),
              write_handler_trait = (\<lambda>out. (out @ [''handler_trait''], None)),
              write_nt_node = (\<lambda>out. (out @ [''nt_node''], None)),
              write_nt_node_impl = (\<lambda>out. (out @ [''nt_node_impl''], None)),
              write_nonterminal_id = (\<lambda>out. (out @ [''nonterminal_id''], None)),
              write_goto = (\<lambda>out. (out @ [''goto''], None)),
              write_reduce = (\<lambda>generic out. (out @ [''reduce''], None)),
              write_entry = (\<lambda>generic out. (out @ [''entry''], None))\<rparr> []
          = ([''header'', ''terminal_id'', ''token'', ''actions''],
             Some (AmbiguousIdentifierSpelling x y ''FooBar'')))
   \<and> emit \<lparr>ctn_rows = [[IdStr ''expr'', IdStr ''term''], [IdStr ''expr'']],
              write_header = (\<lambda>out. (out @ [''header''], None)),
              write_terminal_id = (\<lambda>out. (out @ [''terminal_id''], None)),
              write_token = (\<lambda>out. (out @ [''token''], None)),
              write_actions = (\<lambda>out. (out @ [''actions''], None)),
              write_handler_trait = (\<lambda>out. (out @ [''handler_trait''], None)),
              write_nt_node = (\<lambda>out. (out @ [''nt_node''], None)),
              write_nt_node_impl = (\<lambda>out. (out @ [''nt_node_impl''], None)),
              write_nonterminal_id = (\<lambda>out. (out @ [''nonterminal_id''], None)),
              write_goto = (\<lambda>out. (out @ [''goto''], None)),
              write_reduce = (\<lambda>generic out. (out @ [''reduce''], None)),
              write_entry = (\<lambda>generic out. (out @ [''entry''], None))\<rparr> []
       = ([''header'', ''terminal_id'', ''token'', ''actions'', ''handler_trait'',
           ''nt_node'', ''nt_node_impl'', ''nonterminal_id'', ''goto'', ''reduce'',
           ''entry''], None)"
proof -
  let ?w = "\<lambda>rows. \<lparr>ctn_rows = rows,
              write_header = (\<lambda>out. (out @ [''header''], None)),
              write_terminal_id = (\<lambda>out. (out @ [''terminal_id''], None)),
              write_token = (\<lambda>out. (out @ [''token''], None)),
              write_actions = (\<lambda>out. (out @ [''actions''], None)),
              write_handler_trait = (\<lambda>out. (out @ [''handler_trait''], None)),
              write_nt_node = (\<lambda>out. (out @ [''nt_node''], None)),
              write_nt_node_impl = (\<lambda>out. (out @ [''nt_node_impl''], None)),
              write_nonterminal_id = (\<lambda>out. (out @ [''nonterminal_id''], None)),
              write_goto = (\<lambda>out. (out @ [''goto''], None)),
              write_reduce = (\<lambda>generic out. (out @ [''reduce''], None)),
              write_entry = (\<lambda>generic out. (out @ [''entry''], None))\<rparr>
            :: string list RustParserWriter"
  let ?w1 = "?w [[IdStr ''Foo_Bar''], [IdStr ''FooBar'']]"
  let ?w2 = "?w [[IdStr ''expr'', IdStr ''term''], [IdStr ''expr'']]"
  let ?cc1 = "\<lambda>nt :: ident. ''FooBar''"
  let ?cc2 = "\<lambda>nt. if nt = IdStr ''expr'' then ''Expr'' else ''Term''"
  have a1: "\<forall>nt\<in>set (concat (ctn_rows ?w1)). nonterminal_to_camel nt = Inr (?cc1 nt)"
    by (simp add: camel_examples)
  have n1: "\<not> inj_on ?cc1 (set (concat (ctn_rows ?w1)))"
    by (simp add: inj_on_def)
  from check_camel_case_emit [of ?w1 ?cc1 "[]", OF a1, THEN conjunct2, THEN mp, OF n1]
  obtain x y where "x \<noteq> y" "emit ?w1 [] =
       (case run_steps [write_header ?w1, write_terminal_id ?w1, write_token ?w1,
                        write_actions ?w1] [] of
          (out', r) \<Rightarrow>
            (out', case r of
                     Some err \<Rightarrow> Some err
                   | None \<Rightarrow> Some (AmbiguousIdentifierSpelling x y ''FooBar'')))"
    by blast
  then have c1: "\<exists>x y. x \<noteq> y \<and> emit ?w1 [] =
      ([''header'', ''terminal_id'', ''token'', ''actions''],
       Some (AmbiguousIdentifierSpelling x y ''FooBar''))"
    by auto
  have a2: "\<forall>nt\<in>set (concat (ctn_rows ?w2)). nonterminal_to_camel nt = Inr (?cc2 nt)"
    by (simp add: camel_examples)
  have i2: "inj_on ?cc2 (set (concat (ctn_rows ?w2)))"
    by (simp add: inj_on_def)
  from check_camel_case_emit [of ?w2 ?cc2 "[]", OF a2, THEN conjunct1, THEN mp, OF i2]
  have c2: "emit ?w2 [] = ([''header'', ''terminal_id'', ''token'', ''actions'',
              ''handler_trait'', ''nt_node'', ''nt_node_impl'', ''nonterminal_id'', ''goto'',
              ''reduce'', ''entry''], None)"
    by simp
  from c1 c2 show ?thesis by blast
qed

text \<open>
  With the nonterminals \<^verbatim>\<open>Foo_Bar\<close> and \<^verbatim>\<open>FooBar\<close>, the header and the declarations
  of the terminal, token and action tables are written when \<^verbatim>\<open>emit\<close> stops with the
  error: the check does not come before the first declarations.
\<close>

theorem emit_writes_before_check_counterexample:
  "emit \<lparr>ctn_rows = [[IdStr ''Foo_Bar''], [IdStr ''FooBar'']],
              write_header = (\<lambda>out. (out @ [''header''], None)),
              write_terminal_id = (\<lambda>out. (out @ [''terminal_id''], None)),
              write_token = (\<lambda>out. (out @ [''token''], None)),
              write_actions = (\<lambda>out. (out @ [''actions''], None)),
              write_handler_trait = (\<lambda>out. (out @ [''handler_trait''], None)),
              write_nt_node = (\<lambda>out. (out @ [''nt_node''], None)),
              write_nt_node_impl = (\<lambda>out. (out @ [''nt_node_impl''], None)),
              write_nonterminal_id = (\<lambda>out. (out @ [''nonterminal_id''], None)),
              write_goto = (\<lambda>out. (out @ [''goto''], None)),
              write_reduce = (\<lambda>generic out. (out @ [''reduce''], None)),
              write_entry = (\<lambda>generic out. (out @ [''entry''], None))\<rparr> []
     = ([''header'', ''terminal_id'', ''token'', ''actions''],
        Some (AmbiguousIdentifierSpelling (IdStr ''Foo_Bar'') (IdStr ''FooBar'') ''FooBar''))"
  by code_simp

section \<open>Rebuilding a grammar with new nonterminals\<close>

lemma foldl_ordered_add_distinct:
  "distinct (acc @ xs) \<Longrightarrow> foldl ordered_add acc xs = acc @ xs"
proof (induction xs arbitrary: acc)
  case Nil
  then show ?case by simp
next
  case (Cons x xs)
  from Cons.prems have "x \<notin> set acc" by auto
  then have "ordered_add acc x = acc @ [x]" by (simp add: ordered_add_def)
  moreover from Cons.prems have "distinct ((acc @ [x]) @ xs)" by simp
  ultimately show ?case using Cons.IH [of "acc @ [x]"] by simp
qed

lemma OrderedSet_distinct: "distinct xs \<Longrightarrow> OrderedSet xs = xs"
  using foldl_ordered_add_distinct [of "[]" xs] by (simp add: OrderedSet_def)

lemma synthesize_init_inits:
  "synthesize_init kn keys s2n (map GoalNt gs) nts inits = Inr (nts', inits') \<Longrightarrow>
   inits' = inits @ map (\<lambda>g. Nt (InitNt g) []) gs"
proof (induction gs arbitrary: nts inits)
  case Nil
  then show ?case by simp
next
  case (Cons g gs)
  from Cons.prems have ok: "resolve_goal kn keys s2n (GoalNt g) = Inr g"
    by (auto split: if_splits sum.splits)
  with Cons.prems have "synthesize_init kn keys s2n (map GoalNt gs)
            (if init_key_of kn g \<in> fst ` set nts then nts
             else dict_set nts (init_key_of kn g) (init_nt_def g))
            (inits @ [Nt (InitNt g) []]) = Inr (nts', inits')"
    by simp
  from Cons.IH [OF this] show ?case by simp
qed

lemma Grammar_init_fields:
  assumes "Grammar_init infer raw gl vts ti = Inr g"
  shows "variable_terminals g = OrderedSet vts"
    and "ti = Some (t, m) \<Longrightarrow> nt_types g = t \<and> methods g = m"
    and "gl = Some (map GoalNt gs) \<Longrightarrow> init_nts g = map (\<lambda>g. Nt (InitNt g) []) gs"
proof -
  from assms obtain k ks np s2n validated ats tys ms nts inits where
    keys: "map fst raw = k # ks"
    and gk: "gather_keys (is_KeyNt k) raw Map.empty Map.empty = Inr (np, s2n)"
    and ty: "(case ti of None \<Rightarrow> infer validated (OrderedSet vts) ats | Some ti \<Rightarrow> Inr ti)
               = Inr (tys, ms)"
    and sy: "synthesize_init (is_KeyNt k) (map fst raw) s2n
               (case gl of None \<Rightarrow> default_goals (map fst raw) | Some gs \<Rightarrow> gs)
               validated [] = Inr (nts, inits)"
    and g: "g = \<lparr>variable_terminals = OrderedSet vts, terminals = ats, nonterminals = nts,
               nt_types = tys, methods = ms, init_nts = inits\<rparr>"
    unfolding Grammar_init_def Let_def
    by (auto split: list.splits sum.splits prod.splits)
  show "variable_terminals g = OrderedSet vts" using g by simp
  show "nt_types g = t \<and> methods g = m" if "ti = Some (t, m)"
    using that ty g by simp
  show "init_nts g = map (\<lambda>g. Nt (InitNt g) []) gs" if "gl = Some (map GoalNt gs)"
    using that sy g synthesize_init_inits [of "is_KeyNt k" "map fst raw" s2n gs validated "[]" nts inits]
    by simp
qed


lemma Grammar_init_type_info:
  "Grammar_init infer raw gl vts (Some ti) = Grammar_init infer' raw gl vts (Some ti)"
  by (simp add: Grammar_init_def Let_def split: list.splits sum.splits prod.splits)

text \<open>
  Claim C9. Let \<open>g\<close> be a successfully constructed grammar and \<open>m\<close> a nonterminal
  mapping with which \<^verbatim>\<open>g.with_nonterminals(m)\<close> succeeds, returning \<open>g'\<close>. Then the
  \<^verbatim>\<open>nt_types\<close> and \<^verbatim>\<open>methods\<close> of \<open>g'\<close> are those of \<open>g\<close>, and so are its goals and
  its variable terminals. Type inference is not run again: the result is the same
  whatever the type inference function is. The grammar \<open>g\<close> is a value of the model,
  which no function changes.
\<close>

theorem with_nonterminals_preserves:
  assumes "Grammar_init infer0 raw0 goals0 vts0 ti0 = Inr g"
    and "with_nonterminals infer g m = Inr g'"
  shows "nt_types g' = nt_types g \<and> methods g' = methods g
       \<and> Grammar_goals g' = Grammar_goals g
       \<and> variable_terminals g' = variable_terminals g
       \<and> with_nonterminals infer' g m = Inr g'"
proof -
  have w: "Grammar_init infer m (Some (map GoalNt (Grammar_goals g))) (variable_terminals g)
             (Some (nt_types g, methods g)) = Inr g'"
    using assms(2) by (simp add: with_nonterminals_def)
  have ty: "nt_types g' = nt_types g \<and> methods g' = methods g"
    using Grammar_init_fields(2) [OF w] by simp
  have "init_nts g' = map (\<lambda>g. Nt (InitNt g) []) (Grammar_goals g)"
    using Grammar_init_fields(3) [OF w] by simp
  then have go: "Grammar_goals g' = Grammar_goals g"
    by (simp add: Grammar_goals_def comp_def)
  have "variable_terminals g = OrderedSet vts0"
    using assms(1) by (rule Grammar_init_fields(1))
  then have "distinct (variable_terminals g)" by (simp add: distinct_OrderedSet)
  then have "OrderedSet (variable_terminals g) = variable_terminals g"
    by (rule OrderedSet_distinct)
  then have vt: "variable_terminals g' = variable_terminals g"
    using Grammar_init_fields(1) [OF w] by simp
  have "with_nonterminals infer' g m = with_nonterminals infer g m"
    unfolding with_nonterminals_def by (rule Grammar_init_type_info)
  with assms(2) ty go vt show ?thesis by simp
qed


theorem with_nonterminals_preserves_witness:
  "\<exists>g g'. Grammar_init (\<lambda>n v t. Inr (1::nat, 2::nat))
            [(Key (Name ''s''), RhsList [Bare [Str ''x'']])] None [''x''] None = Inr g
     \<and> with_nonterminals (\<lambda>n v t. Inl KeyError) g
            [(Key (Name ''s''), RhsList [Bare [Str ''x'', Str ''y'']])] = Inr g'
     \<and> nt_types g' = 1 \<and> methods g' = 2
     \<and> Grammar_goals g' = [Nt (Name ''s'') []]
     \<and> variable_terminals g' = [''x'']"
proof -
  let ?S = "Nt (Name ''s'') []"
  let ?g = "\<lparr>variable_terminals = [''x''], terminals = [''x''],
      nonterminals =
        [(Key (Name ''s''),
          \<lparr>params = [],
           rhs_list = [Prod \<lparr>body = [Str ''x''], action = Index 0, condition = None\<rparr>]\<rparr>),
         (Key (InitNt ?S),
          \<lparr>params = [],
           rhs_list = [Prod \<lparr>body = [ENt ?S], action = Accept, condition = None\<rparr>]\<rparr>)],
      nt_types = 1::nat, methods = 2::nat, init_nts = [Nt (InitNt ?S) []]\<rparr>"
  let ?g' = "\<lparr>variable_terminals = [''x''], terminals = [''x'', ''y''],
      nonterminals =
        [(Key (Name ''s''),
          \<lparr>params = [],
           rhs_list = [Prod \<lparr>body = [Str ''x'', Str ''y''],
                            action = CallMethod ''s'' [Index 0, Index 1],
                            condition = None\<rparr>]\<rparr>),
         (Key (InitNt ?S),
          \<lparr>params = [],
           rhs_list = [Prod \<lparr>body = [ENt ?S], action = Accept, condition = None\<rparr>]\<rparr>)],
      nt_types = 1::nat, methods = 2::nat, init_nts = [Nt (InitNt ?S) []]\<rparr>"
  have e1: "Grammar_init (\<lambda>n v t. Inr (1::nat, 2::nat))
            [(Key (Name ''s''), RhsList [Bare [Str ''x'']])] None [''x''] None = Inr ?g"
    by code_simp
  have e2: "with_nonterminals (\<lambda>n v t. Inl KeyError) ?g
            [(Key (Name ''s''), RhsList [Bare [Str ''x'', Str ''y'']])] = Inr ?g'"
    by code_simp
  from with_nonterminals_preserves [OF e1 e2]
  have "nt_types ?g' = nt_types ?g \<and> methods ?g' = methods ?g
       \<and> Grammar_goals ?g' = Grammar_goals ?g
       \<and> variable_terminals ?g' = variable_terminals ?g"
    by blast
  then have "nt_types ?g' = 1 \<and> methods ?g' = 2
     \<and> Grammar_goals ?g' = [?S] \<and> variable_terminals ?g' = [''x'']"
    by (simp add: Grammar_goals_def)
  with e1 e2 show ?thesis by blast
qed

section \<open>Validation of reduce actions\<close>

lemma map_result_success_elem:
  "map_result f xs = Inr ys \<Longrightarrow> x \<in> set xs \<Longrightarrow> \<exists>y. f x = Inr y"
  by (induction xs arbitrary: ys) (auto split: sum.splits)

lemma validate_loop_success_elem:
  "validate_loop kn keys np s2n vts gl raw acc ts = Inr r \<Longrightarrow> (k, v) \<in> set raw \<Longrightarrow>
   \<exists>d. validate_nt kn keys np s2n vts gl k v = Inr d"
proof (induction raw arbitrary: acc ts)
  case Nil
  then show ?case by simp
next
  case (Cons a raw)
  obtain k' v' where a: "a = (k', v')" by (cases a)
  from Cons.prems(1) a obtain d added where
    d: "validate_nt kn keys np s2n vts gl k' v' = Inr (d, added)"
    and rest: "validate_loop kn keys np s2n vts gl raw (dict_set acc k' d)
                 (foldl ordered_add ts added) = Inr r"
    by (auto split: sum.splits)
  show ?case
  proof (cases "(k, v) = (k', v')")
    case True
    with d show ?thesis by auto
  next
    case False
    with Cons.prems(2) a have "(k, v) \<in> set raw" by auto
    with Cons.IH [OF rest] show ?thesis by blast
  qed
qed

lemma check_reduce_action_refs:
  "(check_reduce_action p e = Inr () \<longrightarrow>
      (\<forall>a\<in>set (stack_refs e). 0 \<le> a \<and> a < int (length (filter is_concrete_element (body p)))))
   \<and> (check_reduce_action p e = Inl OutOfRange \<longrightarrow>
      (\<exists>a\<in>set (stack_refs e). \<not> (0 \<le> a \<and> a < int (length (filter is_concrete_element (body p))))))"
  "(check_reduce_actions p es = Inr () \<longrightarrow>
      (\<forall>e\<in>set es. \<forall>a\<in>set (stack_refs e).
          0 \<le> a \<and> a < int (length (filter is_concrete_element (body p)))))
   \<and> (check_reduce_actions p es = Inl OutOfRange \<longrightarrow>
      (\<exists>e\<in>set es. \<exists>a\<in>set (stack_refs e).
          \<not> (0 \<le> a \<and> a < int (length (filter is_concrete_element (body p))))))"
proof (induction p e and p es rule: check_reduce_action_check_reduce_actions.induct)
  case (1 rhs a)
  then show ?case by simp
next
  case (2 rhs m as)
  then show ?case by (auto simp: OutOfRange_def)
next
  case (3 rhs)
  then show ?case by (simp add: OutOfRange_def)
next
  case (4 rhs i)
  then show ?case by simp
next
  case (5 rhs)
  then show ?case by (simp add: OutOfRange_def)
next
  case (6 rhs)
  then show ?case by (simp add: OutOfRange_def)
next
  case (7 rhs a as)
  then show ?case by (auto split: sum.splits)
qed


lemma Grammar_init_success_validate:
  assumes "Grammar_init infer raw goal_nts vts type_info = Inr g"
  shows "\<exists>k ks np s2n r. map fst raw = k # ks
     \<and> gather_keys (is_KeyNt k) raw Map.empty Map.empty = Inr (np, s2n)
     \<and> validate_loop (is_KeyNt k) (map fst raw) np s2n (OrderedSet vts)
          (case goal_nts of None \<Rightarrow> default_goals (map fst raw) | Some gs \<Rightarrow> gs)
          raw [] (OrderedSet (OrderedSet vts)) = Inr r"
  using assms unfolding Grammar_init_def Let_def
  by (auto split: list.splits sum.splits prod.splits)

lemma copy_nt_def_success_rhs:
  assumes "copy_nt_def keys np s2n k v = Inr r" and "rhs \<in> set (raw_rhs_list v)"
  shows "\<exists>i y. copy_rhs keys np s2n k i (length (raw_rhs_list v) = 1) rhs (raw_params v) = Inr y"
proof -
  have ps: "(case v of NtDef d \<Rightarrow> params d | RhsList l \<Rightarrow> []) = raw_params v"
    and rs: "(case v of NtDef d \<Rightarrow> rhs_list d | RhsList l \<Rightarrow> l) = raw_rhs_list v"
    by (cases v; simp)+
  from assms(1) obtain copied where
    m: "map_result (\<lambda>(i, r). copy_rhs keys np s2n k i (length (raw_rhs_list v) = 1) r
                       (raw_params v))
          (enumerate 0 (raw_rhs_list v)) = Inr copied"
    unfolding copy_nt_def_def Let_def ps rs by (auto split: sum.splits)
  from assms(2) obtain i where "i < length (raw_rhs_list v)" "raw_rhs_list v ! i = rhs"
    by (auto simp: in_set_conv_nth)
  then have "(i, rhs) \<in> set (enumerate 0 (raw_rhs_list v))"
    by (simp add: in_set_enumerate_eq)
  from map_result_success_elem [OF m this] show ?thesis by auto
qed

lemma validate_nt_success_copy:
  "validate_nt kn keys np s2n vts gl k v = Inr r \<Longrightarrow> copy_nt_def keys np s2n k v = Inr r"
  unfolding validate_nt_def by (auto split: sum.splits)

lemma copy_production_success_action:
  "copy_production keys np s2n p ps = Inr r \<Longrightarrow>
   action p = Accept \<or> check_reduce_action p (action p) = Inr ()"
  unfolding copy_production_def by (auto split: sum.splits if_splits)

lemma Grammar_init_success_production:
  assumes "Grammar_init infer raw goal_nts vts type_info = Inr g"
    and "(k, v) \<in> set raw" and "Prod p \<in> set (raw_rhs_list v)"
  shows "\<exists>keys np s2n r. copy_production keys np s2n p (raw_params v) = Inr r
           \<and> keys = map fst raw
           \<and> (\<exists>kn. gather_keys kn raw Map.empty Map.empty = Inr (np, s2n))"
proof -
  from Grammar_init_success_validate [OF assms(1)] obtain k0 ks np s2n r where
    gk: "gather_keys (is_KeyNt k0) raw Map.empty Map.empty = Inr (np, s2n)"
    and vl: "validate_loop (is_KeyNt k0) (map fst raw) np s2n (OrderedSet vts)
          (case goal_nts of None \<Rightarrow> default_goals (map fst raw) | Some gs \<Rightarrow> gs)
          raw [] (OrderedSet (OrderedSet vts)) = Inr r"
    by blast
  from validate_loop_success_elem [OF vl assms(2)] obtain d where
    "validate_nt (is_KeyNt k0) (map fst raw) np s2n (OrderedSet vts)
          (case goal_nts of None \<Rightarrow> default_goals (map fst raw) | Some gs \<Rightarrow> gs) k v = Inr d"
    by blast
  then have "copy_nt_def (map fst raw) np s2n k v = Inr d"
    by (rule validate_nt_success_copy)
  from copy_nt_def_success_rhs [OF this assms(3)] obtain i y where
    "copy_rhs (map fst raw) np s2n k i (length (raw_rhs_list v) = 1) (Prod p) (raw_params v)
       = Inr y" by blast
  then have "copy_production (map fst raw) np s2n p (raw_params v) = Inr y" by simp
  with gk show ?thesis by blast
qed


lemma is_concrete_element_iff:
  "is_concrete_element x = ((\<forall>r. x \<noteq> Lookahead r) \<and> x \<noteq> ErrorToken)"
  by (cases x) simp_all

text \<open>
  Claim C6. If a production of the raw grammar has a reduce action with an integer
  stack reference, at the top level or nested inside \<^verbatim>\<open>CallMethod\<close> arguments or
  \<^verbatim>\<open>Some\<close>, that is not in the range from 0 up to, and not including, the number of
  concrete elements of its body, construction fails. References inside that range pass
  the check: they never raise the range error, and a reference at the top level is
  accepted exactly when it is in the range. The concrete elements are those that are
  neither a lookahead rule nor the error token.
\<close>

theorem reduce_index_range:
  "((k, v) \<in> set raw \<and> Prod p \<in> set (raw_rhs_list v)
      \<and> a \<in> set (stack_refs (action p))
      \<and> \<not> (0 \<le> a \<and> a < int (length (filter is_concrete_element (body p))))
     \<longrightarrow> (\<exists>err. Grammar_init infer raw goal_nts vts type_info = Inl err))
   \<and> ((\<forall>b\<in>set (stack_refs e).
          0 \<le> b \<and> b < int (length (filter is_concrete_element (body q))))
     \<longrightarrow> check_reduce_action q e \<noteq> Inl OutOfRange)
   \<and> (check_reduce_action q (Index c) = Inr ())
       = (0 \<le> c \<and> c < int (length (filter is_concrete_element (body q))))
   \<and> is_concrete_element x = ((\<forall>r. x \<noteq> Lookahead r) \<and> x \<noteq> ErrorToken)"
proof (intro conjI impI)
  assume h: "(k, v) \<in> set raw \<and> Prod p \<in> set (raw_rhs_list v)
      \<and> a \<in> set (stack_refs (action p))
      \<and> \<not> (0 \<le> a \<and> a < int (length (filter is_concrete_element (body p))))"
  show "\<exists>err. Grammar_init infer raw goal_nts vts type_info = Inl err"
  proof (cases "Grammar_init infer raw goal_nts vts type_info")
    case (Inl err)
    then show ?thesis by blast
  next
    case (Inr g)
    from h have kv: "(k, v) \<in> set raw" and pr: "Prod p \<in> set (raw_rhs_list v)" by simp_all
    from Grammar_init_success_production [OF Inr kv pr] obtain keys np s2n r where
      "copy_production keys np s2n p (raw_params v) = Inr r" by blast
    then have "action p = Accept \<or> check_reduce_action p (action p) = Inr ()"
      by (rule copy_production_success_action)
    moreover from h have "action p \<noteq> Accept" by auto
    ultimately have "check_reduce_action p (action p) = Inr ()" by simp
    with check_reduce_action_refs(1) [of p "action p"] h show ?thesis by blast
  qed
next
  assume "\<forall>b\<in>set (stack_refs e).
          0 \<le> b \<and> b < int (length (filter is_concrete_element (body q)))"
  with check_reduce_action_refs(1) [of q e]
  show "check_reduce_action q e \<noteq> Inl OutOfRange" by blast
next
  show "(check_reduce_action q (Index c) = Inr ())
       = (0 \<le> c \<and> c < int (length (filter is_concrete_element (body q))))"
    by simp
next
  show "is_concrete_element x = ((\<forall>r. x \<noteq> Lookahead r) \<and> x \<noteq> ErrorToken)"
    by (rule is_concrete_element_iff)
qed

theorem reduce_index_range_witness:
  "(\<exists>err. Grammar_init (\<lambda>n v t. Inr ((), ()))
       [(Key (Name ''a''),
         RhsList [Prod \<lparr>body = [Str ''x'', Lookahead (LookaheadRule {''y''} False)],
                        action = CallMethod ''f'' [Index 0, SomeExpr (Index 1)],
                        condition = None\<rparr>])] None [] None = Inl err)
   \<and> check_reduce_action
        \<lparr>body = [Str ''x'', Lookahead (LookaheadRule {''y''} False)],
         action = CallMethod ''f'' [Index 0, SomeExpr (Index 1)], condition = None\<rparr>
        (CallMethod ''f'' [Index 0, SomeExpr (Index 0)]) \<noteq> Inl OutOfRange"
proof -
  let ?p = "\<lparr>body = [Str ''x'', Lookahead (LookaheadRule {''y''} False)],
         action = CallMethod ''f'' [Index 0, SomeExpr (Index 1)], condition = None\<rparr>"
  let ?v = "RhsList [Prod ?p]"
  let ?raw = "[(Key (Name ''a''), ?v)]"
  note t = reduce_index_range [of "Key (Name ''a'')" ?v ?raw ?p 1 "\<lambda>n v t. Inr ((), ())"
      None "[]" None "CallMethod ''f'' [Index 0, SomeExpr (Index 0)]" ?p]
  have h: "(Key (Name ''a''), ?v) \<in> set ?raw \<and> Prod ?p \<in> set (raw_rhs_list ?v)
      \<and> 1 \<in> set (stack_refs (action ?p))
      \<and> \<not> (0 \<le> (1::int) \<and> 1 < int (length (filter is_concrete_element (body ?p))))"
    by simp
  have h2: "\<forall>b\<in>set (stack_refs (CallMethod ''f'' [Index 0, SomeExpr (Index 0)])).
          0 \<le> b \<and> b < int (length (filter is_concrete_element (body ?p)))"
    by simp
  from t [THEN conjunct1, THEN mp, OF h] t [THEN conjunct2, THEN conjunct1, THEN mp, OF h2]
  show ?thesis by blast
qed

section \<open>Validation soundness of the constructor\<close>

lemma copy_production_success_elements:
  assumes "copy_production keys np s2n p ps = Inr r" and "e \<in> set (body p)"
  shows "\<exists>y. validate_element keys np s2n e ps = Inr y"
proof -
  from assms(1) obtain validated where
    "map_result (\<lambda>e. validate_element keys np s2n e ps) (body p) = Inr validated"
    unfolding copy_production_def by (auto split: sum.splits if_splits)
  from map_result_success_elem [OF this assms(2)] show ?thesis .
qed

lemma copy_rhs_success_elements:
  assumes "copy_rhs keys np s2n k i sole r ps = Inr y" and "e \<in> set (raw_body r)"
  shows "\<exists>y. validate_element keys np s2n e ps = Inr y"
proof (cases r)
  case (Bare elements)
  with assms(1) obtain a where
    "copy_production keys np s2n \<lparr>body = elements, action = a, condition = None\<rparr> ps = Inr y"
    by (auto split: sum.splits)
  from copy_production_success_elements [OF this] assms(2) Bare show ?thesis by simp
next
  case (Prod p)
  with assms(1) have "copy_production keys np s2n p ps = Inr y" by simp
  from copy_production_success_elements [OF this] assms(2) Prod show ?thesis by simp
qed

lemma validate_element_undefined:
  assumes "e = ENt nt \<or> e = Optional (ENt nt)"
    and "KeyNt nt \<notin> set keys" and "Key (Nt_name nt) \<notin> set keys"
  shows "validate_element keys np s2n e ps = Inl UnrecognizedNonterminal"
  using assms by (auto simp: validate_nt_use_def)

lemma Grammar_init_success_element:
  assumes "Grammar_init infer raw goal_nts vts type_info = Inr g"
    and "(k, v) \<in> set raw" and "r \<in> set (raw_rhs_list v)" and "e \<in> set (raw_body r)"
  shows "\<exists>np s2n y. validate_element (map fst raw) np s2n e (raw_params v) = Inr y"
proof -
  from Grammar_init_success_validate [OF assms(1)] obtain k0 ks np s2n res where
    vl: "validate_loop (is_KeyNt k0) (map fst raw) np s2n (OrderedSet vts)
          (case goal_nts of None \<Rightarrow> default_goals (map fst raw) | Some gs \<Rightarrow> gs)
          raw [] (OrderedSet (OrderedSet vts)) = Inr res"
    by blast
  from validate_loop_success_elem [OF vl assms(2)] obtain d where
    "validate_nt (is_KeyNt k0) (map fst raw) np s2n (OrderedSet vts)
          (case goal_nts of None \<Rightarrow> default_goals (map fst raw) | Some gs \<Rightarrow> gs) k v = Inr d"
    by blast
  then have "copy_nt_def (map fst raw) np s2n k v = Inr d"
    by (rule validate_nt_success_copy)
  from copy_nt_def_success_rhs [OF this assms(3)] obtain i y where
    "copy_rhs (map fst raw) np s2n k i (length (raw_rhs_list v) = 1) r (raw_params v) = Inr y"
    by blast
  from copy_rhs_success_elements [OF this assms(4)] show ?thesis by blast
qed

lemma undefined_reference_fails:
  assumes "(k, v) \<in> set raw" and "r \<in> set (raw_rhs_list v)" and "e \<in> set (raw_body r)"
    and "e = ENt nt \<or> e = Optional (ENt nt)"
    and "KeyNt nt \<notin> set (map fst raw)" and "Key (Nt_name nt) \<notin> set (map fst raw)"
  shows "\<exists>err. Grammar_init infer raw goal_nts vts type_info = Inl err"
proof (cases "Grammar_init infer raw goal_nts vts type_info")
  case (Inl err)
  then show ?thesis by blast
next
  case (Inr g)
  from Grammar_init_success_element [OF Inr assms(1-3)] obtain np s2n y where
    "validate_element (map fst raw) np s2n e (raw_params v) = Inr y" by blast
  with validate_element_undefined [OF assms(4-6), of np s2n "raw_params v"]
  show ?thesis by simp
qed


lemma dict_set_keys: "fst ` set (dict_set d k v) = insert k (fst ` set d)"
proof (induction d)
  case Nil
  then show ?case by simp
next
  case (Cons a d)
  obtain k' v' where a: "a = (k', v')" by (cases a)
  show ?case
  proof (cases "k' = k")
    case True
    with a show ?thesis by simp
  next
    case False
    with a Cons show ?thesis by (simp add: insert_commute)
  qed
qed

lemma dict_set_distinct: "distinct (map fst d) \<Longrightarrow> distinct (map fst (dict_set d k v))"
proof (induction d)
  case Nil
  then show ?case by simp
next
  case (Cons a d)
  obtain k' v' where a: "a = (k', v')" by (cases a)
  show ?case
  proof (cases "k' = k")
    case True
    with Cons.prems a show ?thesis by simp
  next
    case False
    from Cons.prems a have "k' \<notin> fst ` set d" by auto
    with False have "k' \<notin> fst ` set (dict_set d k v)" by (simp add: dict_set_keys)
    with Cons a False show ?thesis by simp
  qed
qed

lemma dict_set_map_of: "map_of (dict_set d k v) = (map_of d)(k \<mapsto> v)"
  by (induction d) (auto simp: fun_eq_iff)

lemma validate_loop_keys:
  "validate_loop kn keys np s2n vts gl raw acc ts = Inr (acc', ts') \<Longrightarrow>
   fst ` set acc' = fst ` set acc \<union> fst ` set raw
   \<and> (distinct (map fst acc) \<longrightarrow> distinct (map fst acc'))"
proof (induction raw arbitrary: acc ts)
  case Nil
  then show ?case by simp
next
  case (Cons a raw)
  obtain k v where a: "a = (k, v)" by (cases a)
  from Cons.prems a obtain d added where
    rest: "validate_loop kn keys np s2n vts gl raw (dict_set acc k d)
             (foldl ordered_add ts added) = Inr (acc', ts')"
    by (auto split: sum.splits)
  from Cons.IH [OF rest] have
    "fst ` set acc' = fst ` set (dict_set acc k d) \<union> fst ` set raw"
    and "distinct (map fst (dict_set acc k d)) \<longrightarrow> distinct (map fst acc')" by simp_all
  then show ?case using a dict_set_distinct [of acc k d] by (auto simp: dict_set_keys)
qed


lemma init_key_of_inj: "init_key_of kn a = init_key_of kn b \<Longrightarrow> a = b"
  by (simp add: init_key_of_def split: if_splits)

lemma synthesize_init_result:
  assumes "synthesize_init kn keys s2n gl nts inits = Inr (nts', inits')"
  shows "\<exists>rs. list_all2 (\<lambda>g r. resolve_goal kn keys s2n g = Inr r) gl rs
     \<and> inits' = inits @ map (\<lambda>g. Nt (InitNt g) []) rs
     \<and> fst ` set nts' = fst ` set nts \<union> init_key_of kn ` set rs
     \<and> (distinct (map fst nts) \<longrightarrow> distinct (map fst nts'))
     \<and> (\<forall>k\<in>fst ` set nts. map_of nts' k = map_of nts k)
     \<and> (\<forall>r\<in>set rs. init_key_of kn r \<notin> fst ` set nts \<longrightarrow>
            map_of nts' (init_key_of kn r) = Some (init_nt_def r))"
  using assms
proof (induction gl arbitrary: nts inits)
  case Nil
  then show ?case by simp
next
  case (Cons g gl)
  from Cons.prems obtain r where r: "resolve_goal kn keys s2n g = Inr r"
    by (auto split: sum.splits)
  let ?key = "init_key_of kn r"
  let ?nts1 = "if ?key \<in> fst ` set nts then nts else dict_set nts ?key (init_nt_def r)"
  from Cons.prems r have rest:
    "synthesize_init kn keys s2n gl ?nts1 (inits @ [Nt (InitNt r) []]) = Inr (nts', inits')"
    by simp
  from Cons.IH [OF rest] obtain rs where
    l: "list_all2 (\<lambda>g r. resolve_goal kn keys s2n g = Inr r) gl rs"
    and i: "inits' = (inits @ [Nt (InitNt r) []]) @ map (\<lambda>g. Nt (InitNt g) []) rs"
    and k: "fst ` set nts' = fst ` set ?nts1 \<union> init_key_of kn ` set rs"
    and d: "distinct (map fst ?nts1) \<longrightarrow> distinct (map fst nts')"
    and m: "\<forall>k\<in>fst ` set ?nts1. map_of nts' k = map_of ?nts1 k"
    and n: "\<forall>r\<in>set rs. init_key_of kn r \<notin> fst ` set ?nts1 \<longrightarrow>
            map_of nts' (init_key_of kn r) = Some (init_nt_def r)"
    by blast
  have k1: "fst ` set ?nts1 = insert ?key (fst ` set nts)"
    by (auto simp: dict_set_keys)
  have d1: "distinct (map fst nts) \<Longrightarrow> distinct (map fst ?nts1)"
    by (simp add: dict_set_distinct)
  have m1: "map_of ?nts1 k' = map_of nts k'" if "k' \<in> fst ` set nts" for k'
  proof (cases "?key \<in> fst ` set nts")
    case True
    then show ?thesis by simp
  next
    case False
    with that have "k' \<noteq> ?key" by blast
    with False show ?thesis by (simp add: dict_set_map_of)
  qed
  have new: "map_of ?nts1 ?key = Some (init_nt_def r)" if "?key \<notin> fst ` set nts"
    using that by (simp add: dict_set_map_of)
  have c1: "list_all2 (\<lambda>g r. resolve_goal kn keys s2n g = Inr r) (g # gl) (r # rs)"
    using r l by simp
  have c2: "inits' = inits @ map (\<lambda>g. Nt (InitNt g) []) (r # rs)"
    using i by simp
  have c3: "fst ` set nts' = fst ` set nts \<union> init_key_of kn ` set (r # rs)"
    using k k1 by auto
  have c4: "distinct (map fst nts) \<longrightarrow> distinct (map fst nts')"
    using d d1 by blast
  have c5: "\<forall>k\<in>fst ` set nts. map_of nts' k = map_of nts k"
  proof
    fix k' assume a: "k' \<in> fst ` set nts"
    then have "k' \<in> fst ` set ?nts1" using k1 by blast
    with m have "map_of nts' k' = map_of ?nts1 k'" by blast
    with m1 [OF a] show "map_of nts' k' = map_of nts k'" by simp
  qed
  have first: "map_of nts' ?key = Some (init_nt_def r)" if "?key \<notin> fst ` set nts"
  proof -
    have "?key \<in> fst ` set ?nts1" using k1 by blast
    with m have "map_of nts' ?key = map_of ?nts1 ?key" by blast
    with new [OF that] show ?thesis by simp
  qed
  have c6: "\<forall>r'\<in>set (r # rs). init_key_of kn r' \<notin> fst ` set nts \<longrightarrow>
            map_of nts' (init_key_of kn r') = Some (init_nt_def r')"
  proof (intro ballI impI)
    fix r' assume a: "r' \<in> set (r # rs)" and b: "init_key_of kn r' \<notin> fst ` set nts"
    show "map_of nts' (init_key_of kn r') = Some (init_nt_def r')"
    proof (cases "init_key_of kn r' = ?key")
      case True
      then have "r' = r" by (rule init_key_of_inj)
      with first b show ?thesis by simp
    next
      case False
      with a have "r' \<in> set rs" by auto
      moreover from False b k1 have "init_key_of kn r' \<notin> fst ` set ?nts1" by simp
      ultimately show ?thesis using n by blast
    qed
  qed
  from c1 c2 c3 c4 c5 c6 show ?case by blast
qed

lemma Grammar_goals_of_inits:
  "init_nts g = map (\<lambda>r. Nt (InitNt r) []) rs \<Longrightarrow> Grammar_goals g = rs"
  by (simp add: Grammar_goals_def comp_def)

lemma Grammar_init_nonterminals:
  assumes "Grammar_init infer raw goal_nts vts type_info = Inr g"
  shows "\<exists>k ks. map fst raw = k # ks
     \<and> fst ` set (nonterminals g) =
         fst ` set raw \<union> init_key_of (is_KeyNt k) ` set (Grammar_goals g)
     \<and> distinct (map fst (nonterminals g))
     \<and> (\<forall>r\<in>set (Grammar_goals g). init_key_of (is_KeyNt k) r \<notin> fst ` set raw \<longrightarrow>
           map_of (nonterminals g) (init_key_of (is_KeyNt k) r) = Some (init_nt_def r))
     \<and> length (Grammar_goals g) =
         length (case goal_nts of None \<Rightarrow> default_goals (map fst raw) | Some gs \<Rightarrow> gs)"
proof -
  let ?gl = "case goal_nts of None \<Rightarrow> default_goals (map fst raw) | Some gs \<Rightarrow> gs"
  from assms obtain k ks np s2n validated ats nts inits where
    keys: "map fst raw = k # ks"
    and vl: "validate_loop (is_KeyNt k) (map fst raw) np s2n (OrderedSet vts) ?gl raw []
               (OrderedSet (OrderedSet vts)) = Inr (validated, ats)"
    and sy: "synthesize_init (is_KeyNt k) (map fst raw) s2n ?gl validated [] = Inr (nts, inits)"
    and g: "nonterminals g = nts" "init_nts g = inits"
    unfolding Grammar_init_def Let_def
    by (auto split: list.splits sum.splits prod.splits)
  from validate_loop_keys [OF vl] have
    vk: "fst ` set validated = fst ` set raw" and vd: "distinct (map fst validated)"
    by simp_all
  from synthesize_init_result [OF sy] obtain rs where
    l: "list_all2 (\<lambda>g r. resolve_goal (is_KeyNt k) (map fst raw) s2n g = Inr r) ?gl rs"
    and i: "inits = [] @ map (\<lambda>g. Nt (InitNt g) []) rs"
    and ks: "fst ` set nts = fst ` set validated \<union> init_key_of (is_KeyNt k) ` set rs"
    and d: "distinct (map fst validated) \<longrightarrow> distinct (map fst nts)"
    and n: "\<forall>r\<in>set rs. init_key_of (is_KeyNt k) r \<notin> fst ` set validated \<longrightarrow>
            map_of nts (init_key_of (is_KeyNt k) r) = Some (init_nt_def r)"
    by blast
  from i g(2) have gg: "Grammar_goals g = rs"
    by (intro Grammar_goals_of_inits) simp
  from l have len: "length rs = length ?gl" by (simp add: list_all2_lengthD)
  from keys ks vk d vd n gg len g(1) show ?thesis by simp
qed


lemma key_name_params_str: "key_name_params False (Key n) v = Inr (n, raw_params v)"
  by (cases v) simp_all

lemma gather_keys_str:
  assumes "\<forall>kv\<in>set raw. \<exists>n. fst kv = Key n \<and> np n = None"
    and "distinct (map fst raw)"
    and "dom s2n \<subseteq> dom np"
  shows "gather_keys False raw np s2n =
     Inr (\<lambda>n. case map_of raw (Key n) of Some v \<Rightarrow> Some (raw_params v) | None \<Rightarrow> np n,
          \<lambda>n. case map_of raw (Key n) of
                 Some v \<Rightarrow> if raw_params v = [] then Some (Nt n []) else None
               | None \<Rightarrow> s2n n)"
  using assms
proof (induction raw arbitrary: np s2n)
  case Nil
  then show ?case by simp
next
  case (Cons a raw)
  obtain k v where a: "a = (k, v)" by (cases a)
  from Cons.prems(1) a obtain n0 where k: "k = Key n0" and fresh: "np n0 = None" by auto
  from Cons.prems(3) fresh have s0: "s2n n0 = None" by blast
  from Cons.prems(2) a k have notin: "Key n0 \<notin> fst ` set raw" and d: "distinct (map fst raw)"
    by auto
  then have m0: "map_of raw (Key n0) = None" by (simp add: map_of_eq_None_iff)
  let ?np = "np(n0 \<mapsto> raw_params v)"
  let ?s2n = "if raw_params v = [] \<and> s2n n0 = None then s2n(n0 \<mapsto> Nt n0 []) else s2n"
  have step: "gather_keys False (a # raw) np s2n = gather_keys False raw ?np ?s2n"
    using a k fresh by (simp add: key_name_params_str)
  have p1: "\<forall>kv\<in>set raw. \<exists>n. fst kv = Key n \<and> ?np n = None"
  proof
    fix kv assume kv: "kv \<in> set raw"
    with Cons.prems(1) obtain n where n: "fst kv = Key n" "np n = None" by auto
    from kv notin n have "n \<noteq> n0" by force
    with n show "\<exists>n. fst kv = Key n \<and> ?np n = None" by simp
  qed
  have p3: "dom ?s2n \<subseteq> dom ?np" using Cons.prems(3) by auto
  have f1: "(\<lambda>n. case map_of raw (Key n) of Some v \<Rightarrow> Some (raw_params v) | None \<Rightarrow> ?np n)
      = (\<lambda>n. case map_of (a # raw) (Key n) of Some v \<Rightarrow> Some (raw_params v) | None \<Rightarrow> np n)"
    using a k m0 by (auto simp: fun_eq_iff split: option.splits)
  have f2: "(\<lambda>n. case map_of raw (Key n) of
                 Some v \<Rightarrow> if raw_params v = [] then Some (Nt n []) else None
               | None \<Rightarrow> ?s2n n)
      = (\<lambda>n. case map_of (a # raw) (Key n) of
                 Some v \<Rightarrow> if raw_params v = [] then Some (Nt n []) else None
               | None \<Rightarrow> s2n n)"
    using a k m0 s0 by (auto simp: fun_eq_iff split: option.splits)
  note step
  also have "gather_keys False raw ?np ?s2n =
     Inr (\<lambda>n. case map_of raw (Key n) of Some v \<Rightarrow> Some (raw_params v) | None \<Rightarrow> ?np n,
          \<lambda>n. case map_of raw (Key n) of
                 Some v \<Rightarrow> if raw_params v = [] then Some (Nt n []) else None
               | None \<Rightarrow> ?s2n n)"
    by (rule Cons.IH [OF p1 d p3])
  also have "\<dots> =
     Inr (\<lambda>n. case map_of (a # raw) (Key n) of Some v \<Rightarrow> Some (raw_params v) | None \<Rightarrow> np n,
          \<lambda>n. case map_of (a # raw) (Key n) of
                 Some v \<Rightarrow> if raw_params v = [] then Some (Nt n []) else None
               | None \<Rightarrow> s2n n)"
    by (simp only: f1 f2)
  finally show ?case .
qed

lemma gather_keys_declared:
  assumes "\<forall>kv\<in>set raw. \<exists>n. fst kv = Key n" and "distinct (map fst raw)"
  shows "gather_keys False raw Map.empty Map.empty =
     Inr (declared_params raw,
          \<lambda>n. if declared_params raw n = Some [] then Some (Nt n []) else None)"
proof -
  have a: "\<forall>kv\<in>set raw. \<exists>n. fst kv = Key n \<and> Map.empty n = None" using assms(1) by simp
  have c: "dom (Map.empty :: nt_name \<rightharpoonup> Nt) \<subseteq> dom (Map.empty :: nt_name \<rightharpoonup> string list)"
    by simp
  have f1: "(\<lambda>n. case map_of raw (Key n) of Some v \<Rightarrow> Some (raw_params v) | None \<Rightarrow> None)
      = declared_params raw"
    by (auto simp: fun_eq_iff declared_params_def split: option.splits)
  have f2: "(\<lambda>n. case map_of raw (Key n) of
                 Some v \<Rightarrow> if raw_params v = [] then Some (Nt n []) else None
               | None \<Rightarrow> None)
      = (\<lambda>n. if declared_params raw n = Some [] then Some (Nt n []) else None)"
    by (auto simp: fun_eq_iff declared_params_def split: option.splits)
  from gather_keys_str [OF a assms(2) c] show ?thesis by (simp only: f1 f2)
qed


lemma check_vars_wf: "list_all (wf_arg ps) as \<Longrightarrow> check_vars as ps = Inr ()"
  by (induction as ps rule: check_vars.induct) simp_all

lemma declared_params_key:
  "declared_params raw n = Some formal \<Longrightarrow> Key n \<in> set (map fst raw)"
  by (auto simp: declared_params_def dest: map_of_SomeD intro: rev_image_eqI)

lemma validate_nt_use_wf:
  assumes "wf_nt_use raw ps nt"
  shows "validate_nt_use (map fst raw) (declared_params raw) nt ps = Inr ()"
proof -
  from assms have dp: "declared_params raw (Nt_name nt) = Some (map fst (Nt_args nt))"
    and args: "list_all (wf_arg ps) (Nt_args nt)"
    by (simp_all add: wf_nt_use_def)
  from dp have "Key (Nt_name nt) \<in> set (map fst raw)" by (rule declared_params_key)
  with dp check_vars_wf [OF args] show ?thesis
    by (simp add: validate_nt_use_def)
qed

lemma validate_str_wf:
  assumes "wf_str raw t"
  shows "\<exists>y. validate_element (map fst raw) (declared_params raw)
           (\<lambda>n. if declared_params raw n = Some [] then Some (Nt n []) else None)
           (Str t) ps = Inr y"
  using assms by (auto simp: wf_str_def)

lemma validate_element_wf:
  assumes "wf_element raw ps e"
  shows "\<exists>y. validate_element (map fst raw) (declared_params raw)
           (\<lambda>n. if declared_params raw n = Some [] then Some (Nt n []) else None)
           e ps = Inr y"
  using assms
proof (induction raw ps e rule: wf_element.induct)
  case (1 raw ps t)
  then show ?case using validate_str_wf [of raw t ps] by simp
next
  case (2 raw ps nt)
  then show ?case by (simp add: validate_nt_use_wf)
next
  case (3 raw ps t)
  then have "wf_str raw t" by simp
  from validate_str_wf [OF this, of ps] obtain e' added where
    y: "validate_element (map fst raw) (declared_params raw)
           (\<lambda>n. if declared_params raw n = Some [] then Some (Nt n []) else None)
           (Str t) ps = Inr (e', added)"
    by auto
  have "validate_element (map fst raw) (declared_params raw)
           (\<lambda>n. if declared_params raw n = Some [] then Some (Nt n []) else None)
           (Optional (Str t)) ps = Inr (Optional e', added)"
    using y by (simp del: validate_element.simps(1))
  then show ?case by blast
next
  case (4 raw ps nt)
  then show ?case by (simp add: validate_nt_use_wf)
qed simp_all

lemma map_result_all_success:
  "(\<And>x. x \<in> set xs \<Longrightarrow> \<exists>y. f x = Inr y) \<Longrightarrow> \<exists>ys. map_result f xs = Inr ys"
proof (induction xs)
  case Nil
  then show ?case by simp
next
  case (Cons x xs)
  from Cons.prems [of x] obtain y where y: "f x = Inr y" by auto
  from Cons.IH Cons.prems obtain ys where "map_result f xs = Inr ys" by auto
  with y show ?case by simp
qed

lemma check_reduce_action_wf:
  "wf_expr (length (filter is_concrete_element (body p))) e \<Longrightarrow>
     check_reduce_action p e = Inr ()"
  "list_all (wf_expr (length (filter is_concrete_element (body p)))) es \<Longrightarrow>
     check_reduce_actions p es = Inr ()"
  by (induction p e and p es rule: check_reduce_action_check_reduce_actions.induct) simp_all


lemma is_digit_digit_char: "d < 10 \<Longrightarrow> is_digit (digit_char d)"
proof -
  assume "d < 10"
  then have "d < length ''0123456789''" by simp
  then have "''0123456789'' ! d \<in> set ''0123456789''" by (rule nth_mem)
  then show ?thesis by (simp only: is_digit_def digit_char_def)
qed

lemma str_nat_digits: "str_nat n \<noteq> [] \<and> list_all is_digit (str_nat n)"
proof (induction n rule: str_nat.induct)
  case (1 n)
  show ?case
  proof (cases "n < 10")
    case True
    then show ?thesis by (simp add: str_nat.simps [of n] is_digit_digit_char)
  next
    case False
    have "n mod 10 < 10" by simp
    then have "is_digit (digit_char (n mod 10))" by (rule is_digit_digit_char)
    with False 1 show ?thesis by (simp add: str_nat.simps [of n])
  qed
qed

lemma isdigit_str_nat: "isdigit (str_nat n)"
  using str_nat_digits [of n] by (simp add: isdigit_def)

lemma space_not_identifier_char:
  "\<not> is_alpha (CHR '' '')" "\<not> is_digit (CHR '' '')"
  by (simp_all add: is_alpha_def is_upper_def is_lower_def is_digit_def)

lemma isidentifier_no_space: "isidentifier s \<Longrightarrow> CHR '' '' \<notin> set s"
proof (cases s)
  case Nil
  then show "isidentifier s \<Longrightarrow> CHR '' '' \<notin> set s" by simp
next
  case (Cons c cs)
  assume "isidentifier s"
  with Cons have c: "is_alpha c \<or> c = CHR ''_''"
    and cs: "\<forall>d\<in>set cs. is_alpha d \<or> is_digit d \<or> d = CHR ''_''"
    by (simp_all add: isidentifier_def list_all_iff)
  from c have "c \<noteq> CHR '' ''" using space_not_identifier_char by auto
  moreover from cs have "CHR '' '' \<notin> set cs" using space_not_identifier_char by auto
  ultimately show "CHR '' '' \<notin> set s" using Cons by simp
qed

lemma partition_space_indexed:
  "CHR '' '' \<notin> set s \<Longrightarrow> partition_space (s @ '' '' @ d) = (s, '' '', d)"
proof -
  assume a: "CHR '' '' \<notin> set s"
  then have t: "takeWhile (\<lambda>c. c \<noteq> CHR '' '') (s @ CHR '' '' # d) = s"
    by (induction s) auto
  from a have dr: "dropWhile (\<lambda>c. c \<noteq> CHR '' '') (s @ CHR '' '' # d) = CHR '' '' # d"
    by (induction s) auto
  from t dr show ?thesis by (simp add: partition_space_def)
qed

lemma valid_method_name_indexed:
  "isidentifier s \<Longrightarrow> valid_method_name (s @ '' '' @ str_nat i)"
  using partition_space_indexed [OF isidentifier_no_space, of s "str_nat i"]
  by (simp add: valid_method_name_def isdigit_str_nat)

lemma wf_expr_range: "list_all (wf_expr n) (map (\<lambda>k. Index (int k)) [0..<n])"
  by (simp add: list_all_iff)

lemma infer_action_wf:
  assumes "isidentifier s"
  shows "\<exists>a. infer_action (Key (Name s)) i sole b = Inr a
           \<and> wf_expr (length (filter is_concrete_element b)) a"
proof (cases "length b = 1 \<and> length (filter is_concrete_element b) = 1")
  case True
  then show ?thesis by (simp add: infer_action_def)
next
  case False
  let ?n = "length (filter is_concrete_element b)"
  let ?m = "if sole then s else s @ '' '' @ str_nat i"
  have "valid_method_name ?m"
    using assms valid_method_name_indexed [OF assms, of i]
    by (simp add: valid_method_name_def)
  then have "wf_expr ?n (CallMethod ?m (map (\<lambda>k. Index (int k)) [0..<?n]))"
    using wf_expr_range [of ?n] by simp
  moreover have "infer_action (Key (Name s)) i sole b
      = Inr (CallMethod ?m (map (\<lambda>k. Index (int k)) [0..<?n]))"
    using False by (simp add: infer_action_def Let_def)
  ultimately show ?thesis by blast
qed

lemma copy_production_wf:
  assumes "wf_production raw ps p"
  shows "\<exists>y. copy_production (map fst raw) (declared_params raw)
           (\<lambda>n. if declared_params raw n = Some [] then Some (Nt n []) else None)
           p ps = Inr y"
proof -
  let ?S = "\<lambda>n. if declared_params raw n = Some [] then Some (Nt n []) else None"
  let ?f = "\<lambda>e. validate_element (map fst raw) (declared_params raw) ?S e ps"
  from assms have c: "\<not> (case condition p of None \<Rightarrow> False
                           | Some (param, val) \<Rightarrow> param \<notin> set ps)"
    by (auto simp: wf_production_def split: option.splits)
  have a: "(if action p \<noteq> Accept then check_reduce_action p (action p) else Inr ()) = Inr ()"
    using assms check_reduce_action_wf(1) [of p "action p"]
    by (auto simp: wf_production_def)
  have "\<And>e. e \<in> set (body p) \<Longrightarrow> \<exists>y. ?f e = Inr y"
  proof -
    fix e assume "e \<in> set (body p)"
    with assms have "wf_element raw ps e" by (simp add: wf_production_def list_all_iff)
    then show "\<exists>y. ?f e = Inr y" by (rule validate_element_wf)
  qed
  then have "\<exists>ys. map_result ?f (body p) = Inr ys" by (rule map_result_all_success)
  then obtain ys where ys: "map_result ?f (body p) = Inr ys" ..
  show ?thesis unfolding copy_production_def using c a ys by simp
qed

lemma copy_rhs_wf:
  assumes "wf_rhs raw ps r" and "isidentifier s"
  shows "\<exists>y. copy_rhs (map fst raw) (declared_params raw)
           (\<lambda>n. if declared_params raw n = Some [] then Some (Nt n []) else None)
           (Key (Name s)) i sole r ps = Inr y"
proof (cases r)
  case (Bare elements)
  from infer_action_wf [OF assms(2), of i sole elements] obtain a
    where a: "infer_action (Key (Name s)) i sole elements = Inr a"
      and w: "wf_expr (length (filter is_concrete_element elements)) a" by blast
  from assms(1) Bare w
  have "wf_production raw ps \<lparr>body = elements, action = a, condition = None\<rparr>"
    by (simp add: wf_production_def)
  from copy_production_wf [OF this] a Bare show ?thesis by simp
next
  case (Prod p)
  with assms(1) have "wf_production raw ps p" by simp
  from copy_production_wf [OF this] Prod show ?thesis by simp
qed

lemma copy_nt_def_wf:
  assumes "list_all (wf_rhs raw (raw_params v)) (raw_rhs_list v)" and "isidentifier s"
  shows "\<exists>y. copy_nt_def (map fst raw) (declared_params raw)
           (\<lambda>n. if declared_params raw n = Some [] then Some (Nt n []) else None)
           (Key (Name s)) v = Inr y"
proof -
  let ?S = "\<lambda>n. if declared_params raw n = Some [] then Some (Nt n []) else None"
  let ?f = "\<lambda>(i, r). copy_rhs (map fst raw) (declared_params raw) ?S (Key (Name s)) i
                (length (raw_rhs_list v) = 1) r (raw_params v)"
  have p: "(case v of NtDef d \<Rightarrow> params d | RhsList l \<Rightarrow> []) = raw_params v"
    by (cases v) simp_all
  have l: "(case v of NtDef d \<Rightarrow> rhs_list d | RhsList l \<Rightarrow> l) = raw_rhs_list v"
    by (cases v) simp_all
  have "\<And>x. x \<in> set (enumerate 0 (raw_rhs_list v)) \<Longrightarrow> \<exists>y. ?f x = Inr y"
  proof -
    fix x assume x: "x \<in> set (enumerate 0 (raw_rhs_list v))"
    obtain i r where ir: "x = (i, r)" by (cases x)
    with x have "r \<in> set (raw_rhs_list v)" by (auto simp: in_set_enumerate_eq)
    with assms(1) have "wf_rhs raw (raw_params v) r" by (simp add: list_all_iff)
    from copy_rhs_wf [OF this assms(2)] ir show "\<exists>y. ?f x = Inr y" by simp
  qed
  then have "\<exists>ys. map_result ?f (enumerate 0 (raw_rhs_list v)) = Inr ys"
    by (rule map_result_all_success)
  then obtain ys where ys: "map_result ?f (enumerate 0 (raw_rhs_list v)) = Inr ys" ..
  show ?thesis unfolding copy_nt_def_def p l Let_def using ys by simp
qed

lemma validate_nt_wf:
  assumes "wf_entry raw vts (k, v)" and "set vts' = set vts"
  shows "\<exists>y. validate_nt False (map fst raw) (declared_params raw)
           (\<lambda>n. if declared_params raw n = Some [] then Some (Nt n []) else None)
           vts' goal_list k v = Inr y"
proof -
  from assms(1) obtain s where k: "k = Key (Name s)"
    by (cases "(raw, vts, (k, v))" rule: wf_entry.cases) simp_all
  from assms(1) k have i: "isidentifier s" and n: "s \<notin> set vts"
    and r: "list_all (wf_rhs raw (raw_params v)) (raw_rhs_list v)" by simp_all
  have c: "check_nt_key False (map fst raw) (declared_params raw) vts' goal_list k = Inr ()"
    using i n assms(2) k by simp
  have ci: "check_init_nt k v = Inr ()" using k by simp
  from copy_nt_def_wf [OF r i] k show ?thesis
    unfolding validate_nt_def c ci by simp
qed

lemma validate_loop_wf:
  assumes "\<And>k v. (k, v) \<in> set rest \<Longrightarrow>
     \<exists>y. validate_nt kn keys np s2n vts goal_list k v = Inr y"
  shows "\<exists>y. validate_loop kn keys np s2n vts goal_list rest acc ts = Inr y"
  using assms
proof (induction rest arbitrary: acc ts)
  case Nil
  then show ?case by simp
next
  case (Cons a rest)
  obtain k v where a: "a = (k, v)" by (cases a)
  from Cons.prems [of k v] a obtain d added
    where y: "validate_nt kn keys np s2n vts goal_list k v = Inr (d, added)" by auto
  have "\<exists>y. validate_loop kn keys np s2n vts goal_list rest
          (dict_set acc k d) (foldl ordered_add ts added) = Inr y"
  proof (rule Cons.IH)
    fix k' v' assume "(k', v') \<in> set rest"
    then have "(k', v') \<in> set (a # rest)" by simp
    then show "\<exists>y. validate_nt kn keys np s2n vts goal_list k' v' = Inr y"
      by (rule Cons.prems)
  qed
  with a y show ?case by simp
qed

lemma resolve_goal_wf:
  assumes "wf_goal raw g"
  shows "resolve_goal False (map fst raw)
           (\<lambda>n. if declared_params raw n = Some [] then Some (Nt n []) else None) g
         = Inr (goal_nt g)"
proof (cases g)
  case (GoalStr s)
  with assms show ?thesis by simp
next
  case (GoalNt nt)
  with assms obtain v where "map_of raw (Key (Nt_name nt)) = Some v"
    by (auto simp: declared_params_def)
  then have "(Key (Nt_name nt), v) \<in> set raw" by (rule map_of_SomeD)
  then have "Key (Nt_name nt) \<in> fst ` set raw" by force
  with GoalNt show ?thesis by simp
qed

lemma synthesize_init_wf:
  assumes "\<And>g. g \<in> set gl \<Longrightarrow> resolve_goal kn keys s2n g = Inr (f g)"
  shows "\<exists>nts'. synthesize_init kn keys s2n gl nts inits
           = Inr (nts', inits @ map (\<lambda>g. Nt (InitNt (f g)) []) gl)"
  using assms
proof (induction gl arbitrary: nts inits)
  case Nil
  then show ?case by simp
next
  case (Cons g gl)
  have r: "resolve_goal kn keys s2n g = Inr (f g)" by (rule Cons.prems) simp
  let ?nts = "if init_key_of kn (f g) \<in> fst ` set nts then nts
              else dict_set nts (init_key_of kn (f g)) (init_nt_def (f g))"
  have "\<exists>nts'. synthesize_init kn keys s2n gl ?nts (inits @ [Nt (InitNt (f g)) []])
           = Inr (nts', (inits @ [Nt (InitNt (f g)) []]) @ map (\<lambda>g. Nt (InitNt (f g)) []) gl)"
    by (rule Cons.IH) (simp add: Cons.prems)
  then obtain nts' where "synthesize_init kn keys s2n gl ?nts (inits @ [Nt (InitNt (f g)) []])
           = Inr (nts', (inits @ [Nt (InitNt (f g)) []]) @ map (\<lambda>g. Nt (InitNt (f g)) []) gl)" ..
  with r show ?case by simp
qed


lemma wf_entry_key: "wf_entry raw vts kv \<Longrightarrow> \<exists>s. fst kv = Key (Name s)"
  by (cases "(raw, vts, kv)" rule: wf_entry.cases) simp_all

lemma Grammar_init_wf:
  assumes wf: "well_formed raw gl vts"
    and gl: "gl = (case goal_nts of None \<Rightarrow> default_goals (map fst raw) | Some gs \<Rightarrow> gs)"
    and ti: "\<And>nts vs ts. type_info = None \<Longrightarrow> \<exists>ti. infer nts vs ts = Inr ti"
  shows "\<exists>g. Grammar_init infer raw goal_nts vts type_info = Inr g
           \<and> Grammar_goals g = map goal_nt gl
           \<and> variable_terminals g = OrderedSet vts"
proof -
  let ?P = "declared_params raw"
  let ?S = "\<lambda>n. if declared_params raw n = Some [] then Some (Nt n []) else None"
  let ?keys = "map fst raw"
  let ?vt = "OrderedSet vts"
  from wf have ne: "raw \<noteq> []" and d: "distinct (map fst raw)"
    and en: "\<And>kv. kv \<in> set raw \<Longrightarrow> wf_entry raw vts kv"
    and go: "\<And>g. g \<in> set gl \<Longrightarrow> wf_goal raw g"
    by (simp_all add: well_formed_def list_all_iff)
  from ne obtain kv rest where raw: "raw = kv # rest" by (cases raw) simp_all
  have "wf_entry raw vts kv" by (rule en) (simp add: raw)
  then have "\<exists>s. fst kv = Key (Name s)" by (rule wf_entry_key)
  then obtain s where s: "fst kv = Key (Name s)" ..
  from raw s have keys: "?keys = Key (Name s) # map fst rest" by simp
  have allk: "\<forall>kv\<in>set raw. \<exists>n. fst kv = Key n"
  proof
    fix x assume "x \<in> set raw"
    then have "wf_entry raw vts x" by (rule en)
    then show "\<exists>n. fst x = Key n" using wf_entry_key by blast
  qed
  have gk: "gather_keys False raw Map.empty Map.empty = Inr (?P, ?S)"
    by (rule gather_keys_declared [OF allk d])
  have "\<exists>y. validate_loop False ?keys ?P ?S ?vt gl raw [] (OrderedSet ?vt) = Inr y"
  proof (rule validate_loop_wf)
    fix k v assume "(k, v) \<in> set raw"
    then have "wf_entry raw vts (k, v)" by (rule en)
    then show "\<exists>y. validate_nt False ?keys ?P ?S ?vt gl k v = Inr y"
      by (rule validate_nt_wf) (rule set_OrderedSet)
  qed
  then obtain validated ats
    where vl: "validate_loop False ?keys ?P ?S ?vt gl raw [] (OrderedSet ?vt) = Inr (validated, ats)"
    by auto
  have "\<exists>types meths.
      (case type_info of None \<Rightarrow> infer validated ?vt ats | Some ti \<Rightarrow> Inr ti) = Inr (types, meths)"
  proof (cases type_info)
    case None
    from ti [OF None, of validated ?vt ats] None show ?thesis by auto
  next
    case (Some a)
    then show ?thesis by (cases a) simp
  qed
  then obtain types meths
    where tm: "(case type_info of None \<Rightarrow> infer validated ?vt ats | Some ti \<Rightarrow> Inr ti)
                 = Inr (types, meths)" by blast
  have "\<exists>nts'. synthesize_init False ?keys ?S gl validated []
           = Inr (nts', [] @ map (\<lambda>g. Nt (InitNt (goal_nt g)) []) gl)"
  proof (rule synthesize_init_wf)
    fix g assume "g \<in> set gl"
    then have "wf_goal raw g" by (rule go)
    then show "resolve_goal False ?keys ?S g = Inr (goal_nt g)" by (rule resolve_goal_wf)
  qed
  then obtain nts' where si: "synthesize_init False ?keys ?S gl validated []
           = Inr (nts', map (\<lambda>g. Nt (InitNt (goal_nt g)) []) gl)" by auto
  let ?g = "\<lparr>variable_terminals = ?vt, terminals = ats, nonterminals = nts',
             nt_types = types, methods = meths,
             init_nts = map (\<lambda>g. Nt (InitNt (goal_nt g)) []) gl\<rparr>"
  have res: "Grammar_init infer raw goal_nts vts type_info = Inr ?g"
  proof -
    have gl2: "(case goal_nts of None \<Rightarrow> default_goals (Key (Name s) # map fst rest)
                | Some gs \<Rightarrow> gs) = gl"
      unfolding gl keys by (rule refl)
    show ?thesis
      unfolding Grammar_init_def Let_def keys using gk vl tm si
      by (simp add: keys gl2)
  qed
  have "init_nts ?g = map (\<lambda>r. Nt (InitNt r) []) (map goal_nt gl)" by (simp add: comp_def)
  then have "Grammar_goals ?g = map goal_nt gl" by (rule Grammar_goals_of_inits)
  with res show ?thesis by simp
qed

lemma Grammar_init_wf_nonterminals:
  assumes wf: "well_formed raw gl vts"
    and gl: "gl = (case goal_nts of None \<Rightarrow> default_goals (map fst raw) | Some gs \<Rightarrow> gs)"
    and ti: "\<And>nts vs ts. type_info = None \<Longrightarrow> \<exists>ti. infer nts vs ts = Inr ti"
  shows "\<exists>g. Grammar_init infer raw goal_nts vts type_info = Inr g
           \<and> Grammar_goals g = map goal_nt gl
           \<and> fst ` set (nonterminals g)
               = fst ` set raw \<union> (\<lambda>x. Key (InitNt (goal_nt x))) ` set gl
           \<and> distinct (map fst (nonterminals g))
           \<and> (\<forall>x\<in>set gl. map_of (nonterminals g) (Key (InitNt (goal_nt x)))
                  = Some (init_nt_def (goal_nt x)))"
proof -
  have "\<exists>g. Grammar_init infer raw goal_nts vts type_info = Inr g
           \<and> Grammar_goals g = map goal_nt gl
           \<and> variable_terminals g = OrderedSet vts"
    by (rule Grammar_init_wf [OF wf gl ti])
  then obtain g
    where res: "Grammar_init infer raw goal_nts vts type_info = Inr g"
      and goals: "Grammar_goals g = map goal_nt gl" by (elim exE conjE)
  from wf have en: "\<And>kv. kv \<in> set raw \<Longrightarrow> wf_entry raw vts kv"
    by (simp add: well_formed_def list_all_iff)
  have names: "\<And>k. k \<in> fst ` set raw \<Longrightarrow> \<exists>s. k = Key (Name s)"
  proof -
    fix k assume "k \<in> fst ` set raw"
    then obtain kv where kv: "kv \<in> set raw" and k: "k = fst kv" by blast
    from en [OF kv] have "\<exists>s. fst kv = Key (Name s)" by (rule wf_entry_key)
    with k show "\<exists>s. k = Key (Name s)" by simp
  qed
  note Grammar_init_nonterminals [OF res]
  then obtain k ks
    where keys: "map fst raw = k # ks"
      and ks: "fst ` set (nonterminals g) =
                 fst ` set raw \<union> init_key_of (is_KeyNt k) ` set (Grammar_goals g)"
      and di: "distinct (map fst (nonterminals g))"
      and ini: "\<forall>r\<in>set (Grammar_goals g). init_key_of (is_KeyNt k) r \<notin> fst ` set raw \<longrightarrow>
           map_of (nonterminals g) (init_key_of (is_KeyNt k) r) = Some (init_nt_def r)"
    by (elim exE conjE)
  from keys have "k \<in> set (map fst raw)" by simp
  then have "k \<in> fst ` set raw" by simp
  from names [OF this] obtain s where "k = Key (Name s)" ..
  then have nk: "is_KeyNt k = False" by simp
  have ik: "\<And>r. init_key_of False r = Key (InitNt r)" by (simp add: init_key_of_def)
  have fresh: "\<And>r. Key (InitNt r) \<notin> fst ` set raw"
  proof
    fix r assume "Key (InitNt r) \<in> fst ` set raw"
    from names [OF this] show False by simp
  qed
  have c3: "fst ` set (nonterminals g)
               = fst ` set raw \<union> (\<lambda>x. Key (InitNt (goal_nt x))) ` set gl"
  proof -
    have "init_key_of False ` set (map goal_nt gl) = (\<lambda>x. Key (InitNt (goal_nt x))) ` set gl"
      by (simp add: ik [abs_def] image_image)
    then show ?thesis unfolding ks nk goals by (rule arg_cong)
  qed
  have c5: "\<forall>x\<in>set gl. map_of (nonterminals g) (Key (InitNt (goal_nt x)))
                  = Some (init_nt_def (goal_nt x))"
  proof
    fix x assume "x \<in> set gl"
    then have "goal_nt x \<in> set (Grammar_goals g)" by (simp add: goals)
    with ini have "init_key_of (is_KeyNt k) (goal_nt x) \<notin> fst ` set raw \<longrightarrow>
           map_of (nonterminals g) (init_key_of (is_KeyNt k) (goal_nt x))
             = Some (init_nt_def (goal_nt x))" by (rule bspec)
    with fresh [of "goal_nt x"] show "map_of (nonterminals g) (Key (InitNt (goal_nt x)))
                  = Some (init_nt_def (goal_nt x))"
      by (simp add: nk ik)
  qed
  from res goals c3 di c5 show ?thesis by (intro exI [of _ g] conjI)
qed

text \<open>
  Claim C1, as amended. Construction fails when a production body of the raw mapping
  refers, directly or under \<^verbatim>\<open>Optional\<close>, to a nonterminal that is not defined. It
  succeeds on every well-formed mapping with string keys: every key is an identifier
  that is not also a variable terminal, the keys are distinct, every reference resolves
  with exactly the declared parameter names, every condition names a parameter, every
  method name is valid, every integer reduce index is in range and every goal is
  defined; the type information is given or its inference succeeds. The nonterminals of
  the resulting grammar are then the input nonterminals and one init nonterminal for
  each goal, with the single production \<^verbatim>\<open>[goal]\<close> whose action is \<^verbatim>\<open>'accept'\<close>. Whenever
  construction succeeds, on any mapping, the keys of the result are the input keys and
  the init keys of the goals, and every init nonterminal that the input did not define
  has that single production.
\<close>

theorem Grammar_init_validation:
  "((k, v) \<in> set raw \<and> r \<in> set (raw_rhs_list v) \<and> e \<in> set (raw_body r)
      \<and> (e = ENt nt \<or> e = Optional (ENt nt))
      \<and> KeyNt nt \<notin> set (map fst raw) \<and> Key (Nt_name nt) \<notin> set (map fst raw)
     \<longrightarrow> (\<exists>err. Grammar_init infer raw goal_nts vts type_info = Inl err))
   \<and> (well_formed raw gl vts
       \<and> gl = (case goal_nts of None \<Rightarrow> default_goals (map fst raw) | Some gs \<Rightarrow> gs)
       \<and> (type_info = None \<longrightarrow> (\<forall>nts vs ts. \<exists>ti. infer nts vs ts = Inr ti))
     \<longrightarrow> (\<exists>g. Grammar_init infer raw goal_nts vts type_info = Inr g
           \<and> Grammar_goals g = map goal_nt gl
           \<and> fst ` set (nonterminals g)
               = fst ` set raw \<union> (\<lambda>x. Key (InitNt (goal_nt x))) ` set gl
           \<and> distinct (map fst (nonterminals g))
           \<and> (\<forall>x\<in>set gl. map_of (nonterminals g) (Key (InitNt (goal_nt x)))
                  = Some (init_nt_def (goal_nt x)))))
   \<and> (Grammar_init infer raw goal_nts vts type_info = Inr g'
     \<longrightarrow> (\<exists>k' ks. map fst raw = k' # ks
           \<and> fst ` set (nonterminals g') =
               fst ` set raw \<union> init_key_of (is_KeyNt k') ` set (Grammar_goals g')
           \<and> distinct (map fst (nonterminals g'))
           \<and> (\<forall>r\<in>set (Grammar_goals g').
                  init_key_of (is_KeyNt k') r \<notin> fst ` set raw \<longrightarrow>
                  map_of (nonterminals g') (init_key_of (is_KeyNt k') r)
                    = Some (init_nt_def r))
           \<and> length (Grammar_goals g') =
               length (case goal_nts of None \<Rightarrow> default_goals (map fst raw)
                       | Some gs \<Rightarrow> gs)))"
proof (intro conjI impI)
  assume h: "(k, v) \<in> set raw \<and> r \<in> set (raw_rhs_list v) \<and> e \<in> set (raw_body r)
      \<and> (e = ENt nt \<or> e = Optional (ENt nt))
      \<and> KeyNt nt \<notin> set (map fst raw) \<and> Key (Nt_name nt) \<notin> set (map fst raw)"
  then have h1: "(k, v) \<in> set raw" and h2: "r \<in> set (raw_rhs_list v)"
    and h3: "e \<in> set (raw_body r)" and h4: "e = ENt nt \<or> e = Optional (ENt nt)"
    and h5: "KeyNt nt \<notin> set (map fst raw)" and h6: "Key (Nt_name nt) \<notin> set (map fst raw)"
    by blast+
  show "\<exists>err. Grammar_init infer raw goal_nts vts type_info = Inl err"
    by (rule undefined_reference_fails [OF h1 h2 h3 h4 h5 h6])
next
  assume h: "well_formed raw gl vts
       \<and> gl = (case goal_nts of None \<Rightarrow> default_goals (map fst raw) | Some gs \<Rightarrow> gs)
       \<and> (type_info = None \<longrightarrow> (\<forall>nts vs ts. \<exists>ti. infer nts vs ts = Inr ti))"
  then have wf: "well_formed raw gl vts"
    and gl: "gl = (case goal_nts of None \<Rightarrow> default_goals (map fst raw) | Some gs \<Rightarrow> gs)"
    and ti: "type_info = None \<longrightarrow> (\<forall>nts vs ts. \<exists>ti. infer nts vs ts = Inr ti)"
    by blast+
  from ti have ti': "\<And>nts vs ts. type_info = None \<Longrightarrow> \<exists>ti. infer nts vs ts = Inr ti"
    by simp
  show "\<exists>g. Grammar_init infer raw goal_nts vts type_info = Inr g
           \<and> Grammar_goals g = map goal_nt gl
           \<and> fst ` set (nonterminals g)
               = fst ` set raw \<union> (\<lambda>x. Key (InitNt (goal_nt x))) ` set gl
           \<and> distinct (map fst (nonterminals g))
           \<and> (\<forall>x\<in>set gl. map_of (nonterminals g) (Key (InitNt (goal_nt x)))
                  = Some (init_nt_def (goal_nt x)))"
    by (rule Grammar_init_wf_nonterminals [OF wf gl ti'])
next
  assume "Grammar_init infer raw goal_nts vts type_info = Inr g'"
  then show "\<exists>k' ks. map fst raw = k' # ks
           \<and> fst ` set (nonterminals g') =
               fst ` set raw \<union> init_key_of (is_KeyNt k') ` set (Grammar_goals g')
           \<and> distinct (map fst (nonterminals g'))
           \<and> (\<forall>r\<in>set (Grammar_goals g').
                  init_key_of (is_KeyNt k') r \<notin> fst ` set raw \<longrightarrow>
                  map_of (nonterminals g') (init_key_of (is_KeyNt k') r)
                    = Some (init_nt_def r))
           \<and> length (Grammar_goals g') =
               length (case goal_nts of None \<Rightarrow> default_goals (map fst raw)
                       | Some gs \<Rightarrow> gs)"
    by (rule Grammar_init_nonterminals)
qed


theorem Grammar_init_validation_witness:
  "(\<exists>err. Grammar_init (\<lambda>n v t. Inr ((), ()))
       [(Key (Name ''s''), RhsList [Bare [ENt (Nt (Name ''t'') [])]])] None [] None = Inl err)
   \<and> (\<exists>g. Grammar_init (\<lambda>n v t. Inr ((), ()))
         [(Key (Name ''s''), RhsList [Bare [Str ''x'', ENt (Nt (Name ''s'') [])]])]
         None [] None = Inr g
       \<and> Grammar_goals g = [Nt (Name ''s'') []]
       \<and> fst ` set (nonterminals g)
           = {Key (Name ''s''), Key (InitNt (Nt (Name ''s'') []))}
       \<and> distinct (map fst (nonterminals g))
       \<and> map_of (nonterminals g) (Key (InitNt (Nt (Name ''s'') [])))
           = Some \<lparr>params = [],
                   rhs_list = [Prod \<lparr>body = [ENt (Nt (Name ''s'') [])], action = Accept,
                                    condition = None\<rparr>]\<rparr>
       \<and> length (Grammar_goals g) = 1)"
proof -
  let ?I = "(\<lambda>n v t. Inr ((), ())) ::
              (key \<times> NtDef) list \<Rightarrow> string list \<Rightarrow> string list \<Rightarrow> error + (unit \<times> unit)"
  let ?T = "Nt (Name ''t'') []"
  let ?S = "Nt (Name ''s'') []"
  let ?va = "RhsList [Bare [ENt ?T]] :: NtDef nt_value"
  let ?ra = "[(Key (Name ''s''), ?va)]"
  let ?rc = "[(Key (Name ''s''), RhsList [Bare [Str ''x'', ENt ?S]])]
               :: (key \<times> NtDef nt_value) list"
  let ?gl = "[GoalStr ''s'']"
  have ha: "(Key (Name ''s''), ?va) \<in> set ?ra \<and> Bare [ENt ?T] \<in> set (raw_rhs_list ?va)
      \<and> ENt ?T \<in> set (raw_body (Bare [ENt ?T]))
      \<and> (ENt ?T = ENt ?T \<or> ENt ?T = Optional (ENt ?T))
      \<and> KeyNt ?T \<notin> set (map fst ?ra) \<and> Key (Nt_name ?T) \<notin> set (map fst ?ra)"
    by simp
  have wf: "well_formed ?rc ?gl []" by code_simp
  have hc: "well_formed ?rc ?gl []
       \<and> ?gl = (case None of None \<Rightarrow> default_goals (map fst ?rc) | Some gs \<Rightarrow> gs)
       \<and> ((None :: (unit \<times> unit) option) = None
            \<longrightarrow> (\<forall>nts vs ts. \<exists>ti. ?I nts vs ts = Inr ti))"
    using wf by simp
  note ta = Grammar_init_validation [of "Key (Name ''s'')" ?va ?ra "Bare [ENt ?T]" "ENt ?T" ?T
      ?I None "[]" None, THEN conjunct1, THEN mp, OF ha]
  note tc = Grammar_init_validation [of _ _ ?rc _ _ _ ?I None "[]" None ?gl,
      THEN conjunct2, THEN conjunct1, THEN mp, OF hc]
  from tc obtain g where
    r: "Grammar_init ?I ?rc None [] None = Inr g"
    and c1: "Grammar_goals g = map goal_nt ?gl"
    and c2: "fst ` set (nonterminals g)
               = fst ` set ?rc \<union> (\<lambda>x. Key (InitNt (goal_nt x))) ` set ?gl"
    and c3: "distinct (map fst (nonterminals g))"
    and c4: "\<forall>x\<in>set ?gl. map_of (nonterminals g) (Key (InitNt (goal_nt x)))
                  = Some (init_nt_def (goal_nt x))"
    by (elim exE conjE)
  note tb = Grammar_init_validation [of _ _ ?rc _ _ _ ?I None "[]" None _ g,
      THEN conjunct2, THEN conjunct2, THEN mp, OF r]
  from tb have c5: "length (Grammar_goals g) = 1" by (elim exE conjE) simp
  from c1 have d1: "Grammar_goals g = [?S]" by simp
  from c2 have d2: "fst ` set (nonterminals g) = {Key (Name ''s''), Key (InitNt ?S)}"
    by (simp add: insert_commute)
  from c4 have d4: "map_of (nonterminals g) (Key (InitNt ?S))
           = Some \<lparr>params = [],
                   rhs_list = [Prod \<lparr>body = [ENt ?S], action = Accept, condition = None\<rparr>]\<rparr>"
    by (simp add: init_nt_def_def accept_production_def)
  from r d1 d2 c3 d4 c5
  have "\<exists>g. Grammar_init ?I ?rc None [] None = Inr g
       \<and> Grammar_goals g = [?S]
       \<and> fst ` set (nonterminals g) = {Key (Name ''s''), Key (InitNt ?S)}
       \<and> distinct (map fst (nonterminals g))
       \<and> map_of (nonterminals g) (Key (InitNt ?S))
           = Some \<lparr>params = [],
                   rhs_list = [Prod \<lparr>body = [ENt ?S], action = Accept, condition = None\<rparr>]\<rparr>
       \<and> length (Grammar_goals g) = 1"
    by (intro exI [of _ g] conjI)
  with ta show ?thesis by (rule conjI)
qed

theorem variable_terminal_key_counterexample:
  "Grammar_init (\<lambda>n v t. Inr ((), ()))
     [(Key (Name ''expr''), RhsList [Bare [Str ''x'']])] (Some [GoalStr ''expr''])
     [''expr''] None
   = Inl (TypeError ''invalid grammar: {!r} is both a nonterminal and a variable terminal'')"
  by code_simp

end
